(* ===== verification/Octo_Prelude.thy ===== *)
theory Octo_Prelude
  imports Main "HOL-Library.Word"
begin

text \<open>
  The shared vocabulary of the development: bytes and C strings, the fixed-width integers of the
  sources, network byte order, the outcome of a C function that may fail or leave the language's
  defined behaviour, and the decimal and hexadecimal output of the \<open>printf\<close> family. A byte is
  a HOL \<open>char\<close> (eight bits), so a buffer is a \<open>string\<close>.
\<close>

section \<open>Types and lemma collections\<close>

type_synonym u32 = "32 word"
type_synonym i32 = "32 word"
type_synonym i16 = "16 word"
type_synonym i64 = "64 word"
type_synonym u64 = "64 word"

abbreviation NUL :: char where
  "NUL \<equiv> CHR 0x00"

named_theorems wire_defs
named_theorems plan_simps

text \<open>
  The outcome of a C function: \<open>Undefined\<close> when it reads outside the memory it owns or an
  assertion of the source does not hold, \<open>Failed\<close> when it reports an error, \<open>Done\<close>
  otherwise.
\<close>

datatype ('e, 'a) outcome = Undefined | Failed 'e | Done 'a

fun and_then :: "('e, 'a) outcome \<Rightarrow> ('a \<Rightarrow> ('e, 'b) outcome) \<Rightarrow> ('e, 'b) outcome" where
  "and_then Undefined f = Undefined"
| "and_then (Failed e) f = Failed e"
| "and_then (Done x) f = f x"

section \<open>C strings\<close>

text \<open>The C string that starts at the head of a buffer, and the loop that looks for its end.\<close>

definition cstr :: "string \<Rightarrow> string" where
  "cstr s = takeWhile (\<lambda>c. c \<noteq> NUL) s"

fun scan_nul :: "string \<Rightarrow> nat" where
  "scan_nul [] = 0"
| "scan_nul (c # cs) = (if c = NUL then 0 else Suc (scan_nul cs))"

abbreviation nul_free :: "string \<Rightarrow> bool" where
  "nul_free s \<equiv> NUL \<notin> set s"

lemma cstr_Nil [simp]: "cstr [] = []"
  by (simp add: cstr_def)

lemma cstr_NUL [simp]: "cstr (NUL # s) = []"
  by (simp add: cstr_def)

lemma cstr_nul_free [simp]: "nul_free (cstr s)"
  by (auto simp: cstr_def dest: set_takeWhileD)

lemma cstr_id [simp]: "nul_free s \<Longrightarrow> cstr s = s"
  by (auto simp: cstr_def takeWhile_eq_all_conv)

lemma cstr_append [simp]: "nul_free s \<Longrightarrow> cstr (s @ NUL # r) = s"
  by (induction s) (auto simp: cstr_def)

lemma scan_nul_cstr: "scan_nul s = length (cstr s)"
  by (induction s) (auto simp: cstr_def)

lemma scan_nul_le: "scan_nul s \<le> length s"
  by (induction s) auto

lemma scan_nul_append [simp]: "nul_free s \<Longrightarrow> scan_nul (s @ NUL # r) = length s"
  by (induction s) auto

lemma scan_nul_all [simp]: "nul_free s \<Longrightarrow> scan_nul s = length s"
  by (induction s) auto

lemma scan_nul_eq_length: "scan_nul s = length s \<longleftrightarrow> nul_free s"
  by (induction s) auto

lemma scan_nul_nth: "scan_nul s < length s \<Longrightarrow> s ! scan_nul s = NUL"
  by (induction s) (auto split: if_splits)

lemma take_scan_nul: "take (scan_nul s) s = cstr s"
  by (induction s) (auto simp: cstr_def)

text \<open>A buffer in which the scan stops early splits at its first zero byte.\<close>

lemma scan_nul_split:
  assumes "scan_nul s < length s"
  shows "s = cstr s @ NUL # drop (Suc (scan_nul s)) s"
  using assms by (induction s) (auto simp: cstr_def split: if_splits)

lemma cstr_split:
  assumes "\<not> nul_free s"
  obtains r where "s = cstr s @ NUL # r"
proof -
  from assms scan_nul_eq_length scan_nul_le have "scan_nul s < length s"
    by (metis le_neq_implies_less)
  then show thesis using scan_nul_split that by blast
qed

section \<open>Network byte order\<close>

text \<open>
  \<open>be_bytes k n\<close> is the \<open>k\<close>-byte big-endian image of \<open>n\<close>, \<open>be_nat\<close> its inverse. Reading
  memory through \<open>ntohs\<close>, \<open>ntohl\<close> and \<open>be64toh\<close> yields \<open>be_nat\<close> of the bytes whatever the
  host's byte order is.
\<close>

fun be_bytes :: "nat \<Rightarrow> nat \<Rightarrow> string" where
  "be_bytes 0 n = []"
| "be_bytes (Suc k) n = be_bytes k (n div 256) @ [char_of (n mod 256)]"

definition be_nat :: "string \<Rightarrow> nat" where
  "be_nat s = foldl (\<lambda>a c. a * 256 + of_char c) 0 s"

lemma length_be_bytes [simp]: "length (be_bytes k n) = k"
  by (induction k arbitrary: n) auto

lemma be_nat_Nil [simp]: "be_nat [] = 0"
  by (simp add: be_nat_def)

lemma be_nat_snoc [simp]: "be_nat (s @ [c]) = be_nat s * 256 + of_char c"
  by (simp add: be_nat_def)

lemma of_char_less_256 [simp]: "of_char c < (256 :: nat)"
  by (metis of_char_mod_256 mod_less_divisor zero_less_numeral)

lemma be_nat_be_bytes [simp]: "be_nat (be_bytes k n) = n mod 256 ^ k"
proof (induction k arbitrary: n)
  case (Suc k)
  have "n mod 256 ^ Suc k = 256 * (n div 256 mod 256 ^ k) + n mod 256"
    by (simp add: mod_mult2_eq)
  with Suc show ?case by simp
qed simp

lemma be_bytes_be_nat [simp]: "be_bytes (length s) (be_nat s) = s"
  by (induction s rule: rev_induct) simp_all

lemma be_nat_less: "be_nat s < 256 ^ length s"
proof (induction s rule: rev_induct)
  case (snoc c s)
  have "be_nat s * 256 + of_char c < (be_nat s + 1) * 256" by simp
  also have "\<dots> \<le> 256 ^ length s * 256" using snoc by (intro mult_le_mono1) simp
  finally show ?case by simp
qed simp

definition htonl :: "u32 \<Rightarrow> string" where
  "htonl w = be_bytes 4 (unat w)"

definition htons :: "i16 \<Rightarrow> string" where
  "htons w = be_bytes 2 (unat w)"

definition ntohl :: "string \<Rightarrow> u32" where
  "ntohl s = of_nat (be_nat (take 4 s))"

definition ntohs :: "string \<Rightarrow> i16" where
  "ntohs s = of_nat (be_nat (take 2 s))"

definition be64toh :: "string \<Rightarrow> u64" where
  "be64toh s = of_nat (be_nat (take 8 s))"

lemma length_htonl [simp]: "length (htonl w) = 4"
  by (simp add: htonl_def)

lemma length_htons [simp]: "length (htons w) = 2"
  by (simp add: htons_def)

lemma unat_u32_less: "unat (w :: u32) < 256 ^ 4"
  using unsigned_less [of w, where ?'a = nat] by simp

lemma unat_i16_less: "unat (w :: i16) < 256 ^ 2"
  using unsigned_less [of w, where ?'a = nat] by simp

lemma ntohl_htonl [simp]: "ntohl (htonl w @ r) = w"
  using unat_u32_less [of w] by (simp add: ntohl_def htonl_def)

lemma ntohl_htonl' [simp]: "ntohl (htonl w) = w"
  using ntohl_htonl [of w "[]"] by simp

lemma ntohs_htons [simp]: "ntohs (htons w @ r) = w"
  using unat_i16_less [of w] by (simp add: ntohs_def htons_def)

lemma ntohs_htons' [simp]: "ntohs (htons w) = w"
  using ntohs_htons [of w "[]"] by simp

lemma unat_ntohl: "unat (ntohl s) = be_nat (take 4 s)"
proof -
  have "be_nat (take 4 s) < 256 ^ length (take 4 s)" by (rule be_nat_less)
  also have "\<dots> \<le> 256 ^ 4" by (intro power_increasing) auto
  finally show ?thesis by (simp add: ntohl_def unat_of_nat)
qed

lemma unat_ntohs: "unat (ntohs s) = be_nat (take 2 s)"
proof -
  have "be_nat (take 2 s) < 256 ^ length (take 2 s)" by (rule be_nat_less)
  also have "\<dots> \<le> 256 ^ 2" by (intro power_increasing) auto
  finally show ?thesis by (simp add: ntohs_def unat_of_nat)
qed

lemma htonl_ntohl [simp]: "4 \<le> length s \<Longrightarrow> htonl (ntohl s) = take 4 s"
  using be_bytes_be_nat [of "take 4 s"] by (simp add: htonl_def unat_ntohl min_absorb2)

lemma htons_ntohs [simp]: "2 \<le> length s \<Longrightarrow> htons (ntohs s) = take 2 s"
  using be_bytes_be_nat [of "take 2 s"] by (simp add: htons_def unat_ntohs min_absorb2)

text \<open>Evaluation of concrete images and readings.\<close>

lemma be_bytes_numeral:
  "be_bytes (numeral k) n = be_bytes (pred_numeral k) (n div 256) @ [char_of (n mod 256)]"
  by (subst numeral_eq_Suc) (rule be_bytes.simps(2))

lemmas bytes_eval = htonl_def htons_def be_bytes_numeral char_of_def bit_0
  unsigned_minus_1_eq_mask mask_eq_exp_minus_1

lemmas words_eval = ntohl_def ntohs_def be_nat_def

text \<open>Signed readings of small words.\<close>

lemma sint_small:
  assumes "unat (w :: 'a :: len word) < 2 ^ (LENGTH('a) - 1)"
  shows "sint w = int (unat w)"
proof -
  have "int (unat w) < int (2 ^ (LENGTH('a) - 1))" using assms by (simp only: of_nat_less_iff)
  then have "uint w < 2 ^ (LENGTH('a) - 1)" by simp
  then have "signed_take_bit (LENGTH('a) - 1) (uint w) = uint w"
    by (intro signed_take_bit_int_eq_self) (auto intro: order_trans [of _ 0])
  then show ?thesis by (simp add: sint_uint)
qed

lemma sint_u32_small: "unat (w :: u32) < 2 ^ 31 \<Longrightarrow> sint w = int (unat w)"
  using sint_small [of w] by simp

lemma sint_i16_small: "unat (w :: i16) < 2 ^ 15 \<Longrightarrow> sint w = int (unat w)"
  using sint_small [of w] by simp

section \<open>Decimal and hexadecimal output\<close>

text \<open>The conversions \<open>%d\<close>, \<open>%lld\<close> and \<open>%x\<close> of the \<open>printf\<close> family.\<close>

definition dec_digit :: "nat \<Rightarrow> char" where
  "dec_digit d = char_of (48 + d)"

fun nat_dec :: "nat \<Rightarrow> string" where
  "nat_dec n = (if n < 10 then [dec_digit n] else nat_dec (n div 10) @ [dec_digit (n mod 10)])"

declare nat_dec.simps [simp del]

definition int_dec :: "int \<Rightarrow> string" where
  "int_dec i = (if i < 0 then CHR ''-'' # nat_dec (nat (- i)) else nat_dec (nat i))"

definition hex_digit :: "nat \<Rightarrow> char" where
  "hex_digit d = (if d < 10 then char_of (48 + d) else char_of (87 + d))"

fun nat_hex :: "nat \<Rightarrow> string" where
  "nat_hex n = (if n < 16 then [hex_digit n] else nat_hex (n div 16) @ [hex_digit (n mod 16)])"

declare nat_hex.simps [simp del]

text \<open>Reading decimal digits.\<close>

definition is_digit :: "char \<Rightarrow> bool" where
  "is_digit c \<longleftrightarrow> 48 \<le> (of_char c :: nat) \<and> (of_char c :: nat) \<le> 57"

definition digits_val :: "string \<Rightarrow> nat" where
  "digits_val s = foldl (\<lambda>a c. a * 10 + (of_char c - 48)) 0 s"

lemma digits_val_snoc [simp]: "digits_val (s @ [c]) = digits_val s * 10 + (of_char c - 48)"
  by (simp add: digits_val_def)

lemma of_char_dec_digit: "d < 10 \<Longrightarrow> of_char (dec_digit d) = 48 + d"
  by (simp add: dec_digit_def)

lemma is_digit_dec_digit [simp]: "d < 10 \<Longrightarrow> is_digit (dec_digit d)"
  by (simp add: is_digit_def of_char_dec_digit)

lemma nat_dec_digits: "\<forall>c \<in> set (nat_dec n). is_digit c"
proof (induction n rule: nat_dec.induct)
  case (1 n)
  then show ?case by (subst nat_dec.simps) auto
qed

lemma digits_val_nat_dec: "digits_val (nat_dec n) = n"
proof (induction n rule: nat_dec.induct)
  case (1 n)
  show ?case
  proof (cases "n < 10")
    case True
    then show ?thesis by (subst nat_dec.simps) (simp add: digits_val_def of_char_dec_digit)
  next
    case False
    with 1 show ?thesis by (subst nat_dec.simps) (simp add: of_char_dec_digit)
  qed
qed

text \<open>\<open>atoi\<close> of the C library for values that an \<open>int\<close> can hold.\<close>

definition atoi :: "string \<Rightarrow> int" where
  "atoi s =
     (let t = dropWhile (\<lambda>c. c = CHR '' '' \<or> (9 \<le> (of_char c :: nat) \<and> (of_char c :: nat) \<le> 13)) s
      in case t of
           [] \<Rightarrow> 0
         | c # r \<Rightarrow>
             if c = CHR ''-'' then - int (digits_val (takeWhile is_digit r))
             else if c = CHR ''+'' then int (digits_val (takeWhile is_digit r))
             else int (digits_val (takeWhile is_digit t)))"

lemma is_digit_not_special:
  "is_digit c \<Longrightarrow> c \<noteq> CHR '' '' \<and> c \<noteq> CHR ''-'' \<and> c \<noteq> CHR ''+'' \<and> \<not> (of_char c :: nat) \<le> 13"
  by (auto simp: is_digit_def)

lemma atoi_digits: "\<forall>c \<in> set s. is_digit c \<Longrightarrow> atoi s = int (digits_val s)"
proof (cases s)
  case (Cons c r)
  assume all: "\<forall>c \<in> set s. is_digit c"
  then have "dropWhile (\<lambda>c. c = CHR '' '' \<or> (9 \<le> (of_char c :: nat) \<and> (of_char c :: nat) \<le> 13)) s = s"
    using is_digit_not_special [of c] Cons by simp
  then show ?thesis
    using all is_digit_not_special [of c] Cons by (simp add: atoi_def takeWhile_eq_all_conv [THEN iffD2])
qed (simp add: atoi_def digits_val_def)

lemma atoi_nat_dec [simp]: "atoi (nat_dec n) = int n"
  using nat_dec_digits [of n] by (simp add: atoi_digits digits_val_nat_dec)

end
