(* ===== verification/Octo_Errors.thy ===== *)
theory Octo_Errors
  imports Octo_Prelude
begin

text \<open>
  The error vocabulary of Octo: severities, SQLSTATE codes and the error table (\<open>errors.hd\<close>,
  \<open>error_codes.hd\<close>, \<open>rocto/error_severity.hd\<close>, \<open>errors.c\<close>), the \<open>printf\<close> conversions the
  table uses, and \<open>format_error_string\<close> with the buffer it appends to.
\<close>

section \<open>Severities and SQLSTATE codes\<close>

text \<open>\<open>PSQL_ErrorSeverity\<close> and its strings, from \<open>rocto/error_severity.hd\<close>.\<close>

datatype PSQL_ErrorSeverity =
    PSQL_Error_ERROR
  | PSQL_Error_FATAL
  | PSQL_Error_PANIC
  | PSQL_Error_WARNING
  | PSQL_Error_NOTICE
  | PSQL_Error_DEBUG
  | PSQL_Error_INFO
  | PSQL_Error_LOG
  | PSQL_Error_UnknownSeverity

primrec psql_error_severity_str :: "PSQL_ErrorSeverity \<Rightarrow> string" where
  "psql_error_severity_str PSQL_Error_ERROR = ''ERROR''"
| "psql_error_severity_str PSQL_Error_FATAL = ''FATAL''"
| "psql_error_severity_str PSQL_Error_PANIC = ''PANIC''"
| "psql_error_severity_str PSQL_Error_WARNING = ''WARNING''"
| "psql_error_severity_str PSQL_Error_NOTICE = ''NOTICE''"
| "psql_error_severity_str PSQL_Error_DEBUG = ''DEBUG''"
| "psql_error_severity_str PSQL_Error_INFO = ''INFO''"
| "psql_error_severity_str PSQL_Error_LOG = ''LOG''"
| "psql_error_severity_str PSQL_Error_UnknownSeverity = ''UNKNOWN''"

text \<open>\<open>PSQL_SQLSTATECode\<close> and its strings, from \<open>error_codes.hd\<close>.\<close>

datatype PSQL_SQLSTATECode =
    PSQL_Code_Success
  | PSQL_Code_Connection_Exception
  | PSQL_Code_Protocol_Violation
  | PSQL_Code_Feature_Not_Supported
  | PSQL_Code_Data_Exception
  | PSQL_Code_String_Data_Length_Mismatch
  | PSQL_Code_Numeric_Value_Out_Of_Range
  | PSQL_Code_Unterminated_C_String
  | PSQL_Code_Invalid_Sql_Statement_Name
  | PSQL_Code_Invalid_Authorization_Specification
  | PSQL_Code_Invalid_Password
  | PSQL_Code_Syntax_Error
  | PSQL_Code_Datatype_Mismatch
  | PSQL_Code_Undefined_Column
  | PSQL_Code_Undefined_Table
  | PSQL_Code_Undefined_Object
  | PSQL_Code_Ambiguous_Column
  | PSQL_Code_Ambiguous_Parameter
  | PSQL_Code_Invalid_Table_Definition
  | PSQL_Code_System_Error
  | PSQL_Code_Io_Error
  | PSQL_Code_Config_File_Error
  | PSQL_Code_Internal_Error
  | PSQL_Code_Unknown

primrec psql_sqlstate_codes_str :: "PSQL_SQLSTATECode \<Rightarrow> string" where
  "psql_sqlstate_codes_str PSQL_Code_Success = ''00000''"
| "psql_sqlstate_codes_str PSQL_Code_Connection_Exception = ''08000''"
| "psql_sqlstate_codes_str PSQL_Code_Protocol_Violation = ''08P01''"
| "psql_sqlstate_codes_str PSQL_Code_Feature_Not_Supported = ''0A000''"
| "psql_sqlstate_codes_str PSQL_Code_Data_Exception = ''22000''"
| "psql_sqlstate_codes_str PSQL_Code_String_Data_Length_Mismatch = ''22026''"
| "psql_sqlstate_codes_str PSQL_Code_Numeric_Value_Out_Of_Range = ''22003''"
| "psql_sqlstate_codes_str PSQL_Code_Unterminated_C_String = ''22024''"
| "psql_sqlstate_codes_str PSQL_Code_Invalid_Sql_Statement_Name = ''26000''"
| "psql_sqlstate_codes_str PSQL_Code_Invalid_Authorization_Specification = ''28000''"
| "psql_sqlstate_codes_str PSQL_Code_Invalid_Password = ''28P01''"
| "psql_sqlstate_codes_str PSQL_Code_Syntax_Error = ''42601''"
| "psql_sqlstate_codes_str PSQL_Code_Datatype_Mismatch = ''42804''"
| "psql_sqlstate_codes_str PSQL_Code_Undefined_Column = ''42883''"
| "psql_sqlstate_codes_str PSQL_Code_Undefined_Table = ''42P01''"
| "psql_sqlstate_codes_str PSQL_Code_Undefined_Object = ''42704''"
| "psql_sqlstate_codes_str PSQL_Code_Ambiguous_Column = ''42702''"
| "psql_sqlstate_codes_str PSQL_Code_Ambiguous_Parameter = ''42P08''"
| "psql_sqlstate_codes_str PSQL_Code_Invalid_Table_Definition = ''42P16''"
| "psql_sqlstate_codes_str PSQL_Code_System_Error = ''58000''"
| "psql_sqlstate_codes_str PSQL_Code_Io_Error = ''58030''"
| "psql_sqlstate_codes_str PSQL_Code_Config_File_Error = ''F0000''"
| "psql_sqlstate_codes_str PSQL_Code_Internal_Error = ''XX000''"
| "psql_sqlstate_codes_str PSQL_Code_Unknown = ''00000''"

section \<open>The error table\<close>

text \<open>
  The \<open>ERROR\<close> enumeration of \<open>errors.hd\<close>, one datatype per section of that file, with the
  format string (\<open>err_format_str\<close>) and the SQLSTATE code (\<open>err_code_map\<close>) of each error.
\<close>

datatype internal_error =
    ERR_DATABASE_FILES_OOS
  | ERR_FAILED_TO_PARSE_SCHEMA
  | ERR_GENERATING_TEMPORARY_TABLE
  | ERR_INIT_SCANNER
  | ERR_LIBSSL_ERROR
  | ERR_PARSING_COMMAND
  | ERR_PLAN_HASH_FAILED
  | ERR_PLAN_NOT_WELL_FORMED
  | ERR_UNKNOWN_KEYWORD_STATE
  | ERR_YOTTADB
  | ERR_ROCTO_TLS_ACCEPT
  | ERR_ROCTO_TLS_CONNECTION
  | ERR_ROCTO_TLS_INIT
  | ERR_ROCTO_TLS_READ_FAILED
  | ERR_ROCTO_TLS_SOCKET
  | ERR_ROCTO_TLS_UNKNOWN
  | ERR_ROCTO_TLS_WANT_READ
  | ERR_ROCTO_TLS_WANT_WRITE
  | ERR_ROCTO_TLS_WRITE_FAILED
  | ERR_ROCTO_SESSION_LOOKUP
  | ERR_ROCTO_DB_LOOKUP
  | ERR_ROCTO_COLUMN_VALUE
  | ERR_ROCTO_HASH_CONVERSION

primrec internal_error_format :: "internal_error \<Rightarrow> string" where
  "internal_error_format ERR_DATABASE_FILES_OOS =
     ''Generated routines and database seem to be out of sync''"
| "internal_error_format ERR_FAILED_TO_PARSE_SCHEMA = ''Failed to parse schema from table %s''"
| "internal_error_format ERR_GENERATING_TEMPORARY_TABLE = ''Generating temporary table: %s''"
| "internal_error_format ERR_INIT_SCANNER = ''Error initializing the scanner''"
| "internal_error_format ERR_LIBSSL_ERROR = ''Error in libssl/libcrypt''"
| "internal_error_format ERR_PARSING_COMMAND = ''Error parsing statement: %s''"
| "internal_error_format ERR_PLAN_HASH_FAILED = ''Failed to generate plan filename hash''"
| "internal_error_format ERR_PLAN_NOT_WELL_FORMED =
     ''Plan produced by optimizer appears incorrect''"
| "internal_error_format ERR_UNKNOWN_KEYWORD_STATE =
     ''Unknown state reached; please contact your Octo support channel''"
| "internal_error_format ERR_YOTTADB = ''YottaDB error: %s''"
| "internal_error_format ERR_ROCTO_TLS_ACCEPT = ''ydb_tls_accept: %s''"
| "internal_error_format ERR_ROCTO_TLS_CONNECTION = ''ydb_tls_get_conn_info: %s''"
| "internal_error_format ERR_ROCTO_TLS_INIT = ''ydb_tls_init: %s''"
| "internal_error_format ERR_ROCTO_TLS_READ_FAILED = ''ydbcrypt: read failed: %s''"
| "internal_error_format ERR_ROCTO_TLS_SOCKET = ''ydb_tls_socket: %s''"
| "internal_error_format ERR_ROCTO_TLS_UNKNOWN = ''ydbcrypt: unknown error: %s''"
| "internal_error_format ERR_ROCTO_TLS_WANT_READ = ''ydbcrypt: unprocessed read data''"
| "internal_error_format ERR_ROCTO_TLS_WANT_WRITE = ''ydbcrypt: unprocessed write data''"
| "internal_error_format ERR_ROCTO_TLS_WRITE_FAILED = ''ydbcrypt: write failed: %s''"
| "internal_error_format ERR_ROCTO_SESSION_LOOKUP =
     ''%s: failed to retrieve %s from session info''"
| "internal_error_format ERR_ROCTO_DB_LOOKUP = ''%s: failed to retrieve %s from database''"
| "internal_error_format ERR_ROCTO_COLUMN_VALUE =
     ''%s: failed to extract column value %s from row''"
| "internal_error_format ERR_ROCTO_HASH_CONVERSION = ''%s: failed convert %s hash to %s''"

primrec internal_error_code :: "internal_error \<Rightarrow> PSQL_SQLSTATECode" where
  "internal_error_code ERR_DATABASE_FILES_OOS = PSQL_Code_Internal_Error"
| "internal_error_code ERR_FAILED_TO_PARSE_SCHEMA = PSQL_Code_Internal_Error"
| "internal_error_code ERR_GENERATING_TEMPORARY_TABLE = PSQL_Code_Internal_Error"
| "internal_error_code ERR_INIT_SCANNER = PSQL_Code_Internal_Error"
| "internal_error_code ERR_LIBSSL_ERROR = PSQL_Code_Internal_Error"
| "internal_error_code ERR_PARSING_COMMAND = PSQL_Code_Internal_Error"
| "internal_error_code ERR_PLAN_HASH_FAILED = PSQL_Code_Internal_Error"
| "internal_error_code ERR_PLAN_NOT_WELL_FORMED = PSQL_Code_Internal_Error"
| "internal_error_code ERR_UNKNOWN_KEYWORD_STATE = PSQL_Code_Internal_Error"
| "internal_error_code ERR_YOTTADB = PSQL_Code_Internal_Error"
| "internal_error_code ERR_ROCTO_TLS_ACCEPT = PSQL_Code_Internal_Error"
| "internal_error_code ERR_ROCTO_TLS_CONNECTION = PSQL_Code_Internal_Error"
| "internal_error_code ERR_ROCTO_TLS_INIT = PSQL_Code_Internal_Error"
| "internal_error_code ERR_ROCTO_TLS_READ_FAILED = PSQL_Code_Internal_Error"
| "internal_error_code ERR_ROCTO_TLS_SOCKET = PSQL_Code_Internal_Error"
| "internal_error_code ERR_ROCTO_TLS_UNKNOWN = PSQL_Code_Internal_Error"
| "internal_error_code ERR_ROCTO_TLS_WANT_READ = PSQL_Code_Internal_Error"
| "internal_error_code ERR_ROCTO_TLS_WANT_WRITE = PSQL_Code_Internal_Error"
| "internal_error_code ERR_ROCTO_TLS_WRITE_FAILED = PSQL_Code_Internal_Error"
| "internal_error_code ERR_ROCTO_SESSION_LOOKUP = PSQL_Code_Internal_Error"
| "internal_error_code ERR_ROCTO_DB_LOOKUP = PSQL_Code_Internal_Error"
| "internal_error_code ERR_ROCTO_COLUMN_VALUE = PSQL_Code_Internal_Error"
| "internal_error_code ERR_ROCTO_HASH_CONVERSION = PSQL_Code_Internal_Error"

datatype other_error =
    ERR_FILE_NOT_FOUND
  | ERR_FEATURE_NOT_IMPLEMENTED

primrec other_error_format :: "other_error \<Rightarrow> string" where
  "other_error_format ERR_FILE_NOT_FOUND = ''Error opening input file: %s''"
| "other_error_format ERR_FEATURE_NOT_IMPLEMENTED = ''Feature not implemented: %s''"

primrec other_error_code :: "other_error \<Rightarrow> PSQL_SQLSTATECode" where
  "other_error_code ERR_FILE_NOT_FOUND = PSQL_Code_Io_Error"
| "other_error_code ERR_FEATURE_NOT_IMPLEMENTED = PSQL_Code_Feature_Not_Supported"

datatype syntax_error =
    ERR_PRIMARY_KEY_NOT_FOUND
  | ERR_MULTIPLE_VALUES_PROVIDED
  | ERR_UNKNOWN_TABLE
  | ERR_UNKNOWN_COLUMN_NAME
  | ERR_AMBIGUOUS_COLUMN_NAME
  | ERR_MULTIPLE_ZERO_KEYS
  | ERR_MISSING_KEY
  | ERR_TABLE_DEFINITION_TOO_LONG
  | ERR_TYPE_MISMATCH

primrec syntax_error_format :: "syntax_error \<Rightarrow> string" where
  "syntax_error_format ERR_PRIMARY_KEY_NOT_FOUND =
     ''No primary key specified when creating table '' @ [CHR 0x22] @ ''%s'' @ [CHR 0x22] @ ''. Please consult the documentation for more information.''"
| "syntax_error_format ERR_MULTIPLE_VALUES_PROVIDED =
     ''Multiple values provided for %s; undefined behavior''"
| "syntax_error_format ERR_UNKNOWN_TABLE = ''Unknown table: %s''"
| "syntax_error_format ERR_UNKNOWN_COLUMN_NAME = ''Unknown column: %s''"
| "syntax_error_format ERR_AMBIGUOUS_COLUMN_NAME =
     ''Ambiguous column name '' @ [CHR 0x22] @ ''%s'' @ [CHR 0x22] @ '': qualify name for safe execution''"
| "syntax_error_format ERR_MULTIPLE_ZERO_KEYS = ''Multiple %d keys found for table %s''"
| "syntax_error_format ERR_MISSING_KEY = ''Missing key %d in table %s; max key was %d''"
| "syntax_error_format ERR_TABLE_DEFINITION_TOO_LONG =
     ''Table definition for %s too long; max size is %d, table length is %d''"
| "syntax_error_format ERR_TYPE_MISMATCH = ''Type mismatch: left %s, right %s''"

primrec syntax_error_code :: "syntax_error \<Rightarrow> PSQL_SQLSTATECode" where
  "syntax_error_code ERR_PRIMARY_KEY_NOT_FOUND = PSQL_Code_Syntax_Error"
| "syntax_error_code ERR_MULTIPLE_VALUES_PROVIDED = PSQL_Code_Ambiguous_Parameter"
| "syntax_error_code ERR_UNKNOWN_TABLE = PSQL_Code_Undefined_Table"
| "syntax_error_code ERR_UNKNOWN_COLUMN_NAME = PSQL_Code_Undefined_Column"
| "syntax_error_code ERR_AMBIGUOUS_COLUMN_NAME = PSQL_Code_Ambiguous_Column"
| "syntax_error_code ERR_MULTIPLE_ZERO_KEYS = PSQL_Code_Ambiguous_Parameter"
| "syntax_error_code ERR_MISSING_KEY = PSQL_Code_Undefined_Object"
| "syntax_error_code ERR_TABLE_DEFINITION_TOO_LONG = PSQL_Code_Invalid_Table_Definition"
| "syntax_error_code ERR_TYPE_MISMATCH = PSQL_Code_Datatype_Mismatch"

datatype trace_message =
    ERR_ENTERING_FUNCTION
  | ERR_LEAVING_FUNCTION
  | ERR_ADDING_EXE
  | ERR_CURPLAN
  | ERR_CLIENT_CONNECTED
  | ERR_READ_MESSAGE
  | ERR_SEND_MESSAGE
  | ERR_PROCESSING_MESSAGE_TYPE
  | ERR_LOADING_CONFIG
  | ERR_ROCTO_CHILD_STATE_UPDATED
  | ERR_ROCTO_CLEAN_DISCONNECT
  | INFO_AUTH_SUCCESS

primrec trace_message_format :: "trace_message \<Rightarrow> string" where
  "trace_message_format ERR_ENTERING_FUNCTION = ''Entering %s''"
| "trace_message_format ERR_LEAVING_FUNCTION = ''LEAVING %s''"
| "trace_message_format ERR_ADDING_EXE = ''Adding EXE(%s) to cursor: %s''"
| "trace_message_format ERR_CURPLAN = ''Current plan: %s''"
| "trace_message_format ERR_CLIENT_CONNECTED = ''Client connected''"
| "trace_message_format ERR_READ_MESSAGE = ''Read message of type %c and length %d''"
| "trace_message_format ERR_SEND_MESSAGE = ''Sending message of type %c and length %d''"
| "trace_message_format ERR_PROCESSING_MESSAGE_TYPE = ''Processing message type %c''"
| "trace_message_format ERR_LOADING_CONFIG = ''Loading config from %s''"
| "trace_message_format ERR_ROCTO_CHILD_STATE_UPDATED = ''Process %d switched to state %d''"
| "trace_message_format ERR_ROCTO_CLEAN_DISCONNECT = ''connection closed cleanly''"
| "trace_message_format INFO_AUTH_SUCCESS = ''%s: user successfully authenticated''"

primrec trace_message_code :: "trace_message \<Rightarrow> PSQL_SQLSTATECode" where
  "trace_message_code ERR_ENTERING_FUNCTION = PSQL_Code_Success"
| "trace_message_code ERR_LEAVING_FUNCTION = PSQL_Code_Success"
| "trace_message_code ERR_ADDING_EXE = PSQL_Code_Success"
| "trace_message_code ERR_CURPLAN = PSQL_Code_Success"
| "trace_message_code ERR_CLIENT_CONNECTED = PSQL_Code_Success"
| "trace_message_code ERR_READ_MESSAGE = PSQL_Code_Success"
| "trace_message_code ERR_SEND_MESSAGE = PSQL_Code_Success"
| "trace_message_code ERR_PROCESSING_MESSAGE_TYPE = PSQL_Code_Success"
| "trace_message_code ERR_LOADING_CONFIG = PSQL_Code_Success"
| "trace_message_code ERR_ROCTO_CHILD_STATE_UPDATED = PSQL_Code_Success"
| "trace_message_code ERR_ROCTO_CLEAN_DISCONNECT = PSQL_Code_Success"
| "trace_message_code INFO_AUTH_SUCCESS = PSQL_Code_Success"

datatype system_error =
    ERR_SYSCALL

primrec system_error_format :: "system_error \<Rightarrow> string" where
  "system_error_format ERR_SYSCALL = ''System call failed: %s, return %d (%s)''"

primrec system_error_code :: "system_error \<Rightarrow> PSQL_SQLSTATECode" where
  "system_error_code ERR_SYSCALL = PSQL_Code_System_Error"

datatype configuration_error =
    ERR_BAD_CONFIG
  | ERR_PARSING_CONFIG

primrec configuration_error_format :: "configuration_error \<Rightarrow> string" where
  "configuration_error_format ERR_BAD_CONFIG = ''Bad config setting: %s''"
| "configuration_error_format ERR_PARSING_CONFIG = ''Error parsing config: %s:%d %s''"

primrec configuration_error_code :: "configuration_error \<Rightarrow> PSQL_SQLSTATECode" where
  "configuration_error_code ERR_BAD_CONFIG = PSQL_Code_Config_File_Error"
| "configuration_error_code ERR_PARSING_CONFIG = PSQL_Code_Config_File_Error"

datatype connection_error =
    ERR_BAD_ADDRESS
  | ERR_UNKNOWN_MESSAGE_TYPE
  | ERR_ROCTO_INVALID_TYPE
  | ERR_ROCTO_INVALID_VERSION
  | ERR_ROCTO_READ_FAILED
  | ERR_ROCTO_SEND_FAILED
  | ERR_ROCTO_TRAILING_CHARS

primrec connection_error_format :: "connection_error \<Rightarrow> string" where
  "connection_error_format ERR_BAD_ADDRESS = ''Bad listen address: %s''"
| "connection_error_format ERR_UNKNOWN_MESSAGE_TYPE = ''Unknown message type from frontend: %c''"
| "connection_error_format ERR_ROCTO_INVALID_TYPE =
     ''%s: invalid type '' @ [CHR 0x27] @ ''%c'' @ [CHR 0x27] @ '': must be '' @ [CHR 0x27] @ ''%c'' @ [CHR 0x27]"
| "connection_error_format ERR_ROCTO_INVALID_VERSION = ''%s: invalid version %x: must be %x''"
| "connection_error_format ERR_ROCTO_READ_FAILED = ''read failure: %s''"
| "connection_error_format ERR_ROCTO_SEND_FAILED = ''send failure: %s''"
| "connection_error_format ERR_ROCTO_TRAILING_CHARS = ''%s: message has trailing characters''"

primrec connection_error_code :: "connection_error \<Rightarrow> PSQL_SQLSTATECode" where
  "connection_error_code ERR_BAD_ADDRESS = PSQL_Code_Connection_Exception"
| "connection_error_code ERR_UNKNOWN_MESSAGE_TYPE = PSQL_Code_Protocol_Violation"
| "connection_error_code ERR_ROCTO_INVALID_TYPE = PSQL_Code_Protocol_Violation"
| "connection_error_code ERR_ROCTO_INVALID_VERSION = PSQL_Code_Protocol_Violation"
| "connection_error_code ERR_ROCTO_READ_FAILED = PSQL_Code_Connection_Exception"
| "connection_error_code ERR_ROCTO_SEND_FAILED = PSQL_Code_Connection_Exception"
| "connection_error_code ERR_ROCTO_TRAILING_CHARS = PSQL_Code_Protocol_Violation"

datatype authentication_error =
    ERR_ROCTO_PASSWORD_TYPE
  | ERR_ROCTO_BAD_PASSWORD

primrec authentication_error_format :: "authentication_error \<Rightarrow> string" where
  "authentication_error_format ERR_ROCTO_PASSWORD_TYPE = ''%s: expected %s encrypted password''"
| "authentication_error_format ERR_ROCTO_BAD_PASSWORD =
     ''%s: password doesn'' @ [CHR 0x27] @ ''t match stored value''"

primrec authentication_error_code :: "authentication_error \<Rightarrow> PSQL_SQLSTATECode" where
  "authentication_error_code ERR_ROCTO_PASSWORD_TYPE =
     PSQL_Code_Invalid_Authorization_Specification"
| "authentication_error_code ERR_ROCTO_BAD_PASSWORD = PSQL_Code_Invalid_Password"

datatype data_exception =
    ERR_LINE_TOO_LONG
  | ERR_READ_TOO_LARGE
  | ERR_BUFFER_TOO_SMALL
  | ERR_INVALID_READ_SIZE
  | ERR_INVALID_WRITE_SIZE
  | ERR_ROCTO_INVALID_CHAR_VALUE
  | ERR_ROCTO_INVALID_INT_VALUE
  | ERR_ROCTO_INVALID_NUMBER
  | ERR_ROCTO_MISSING_DATA
  | ERR_ROCTO_MISSING_NULL
  | ERR_ROCTO_TOO_FEW_VALUES
  | ERR_ROCTO_TOO_MANY_VALUES

primrec data_exception_format :: "data_exception \<Rightarrow> string" where
  "data_exception_format ERR_LINE_TOO_LONG = ''Input line too long''"
| "data_exception_format ERR_READ_TOO_LARGE = ''Read size %d greater than buffer size %d''"
| "data_exception_format ERR_BUFFER_TOO_SMALL =
     ''Buffer used to store output plans is too small for the query''"
| "data_exception_format ERR_INVALID_READ_SIZE = ''Read size %d out of range''"
| "data_exception_format ERR_INVALID_WRITE_SIZE = ''Read size %d out of range''"
| "data_exception_format ERR_ROCTO_INVALID_CHAR_VALUE = ''%s: invalid %s value %c: must be %s''"
| "data_exception_format ERR_ROCTO_INVALID_INT_VALUE = ''%s: invalid %s value %d: must be %s''"
| "data_exception_format ERR_ROCTO_INVALID_NUMBER = ''%s: invalid number of %s''"
| "data_exception_format ERR_ROCTO_MISSING_DATA = ''%s: missing %s''"
| "data_exception_format ERR_ROCTO_MISSING_NULL = ''%s: %s missing null terminator''"
| "data_exception_format ERR_ROCTO_TOO_FEW_VALUES = ''%s: too few %s''"
| "data_exception_format ERR_ROCTO_TOO_MANY_VALUES = ''%s: too many %s''"

primrec data_exception_code :: "data_exception \<Rightarrow> PSQL_SQLSTATECode" where
  "data_exception_code ERR_LINE_TOO_LONG = PSQL_Code_String_Data_Length_Mismatch"
| "data_exception_code ERR_READ_TOO_LARGE = PSQL_Code_Data_Exception"
| "data_exception_code ERR_BUFFER_TOO_SMALL = PSQL_Code_Data_Exception"
| "data_exception_code ERR_INVALID_READ_SIZE = PSQL_Code_Numeric_Value_Out_Of_Range"
| "data_exception_code ERR_INVALID_WRITE_SIZE = PSQL_Code_Numeric_Value_Out_Of_Range"
| "data_exception_code ERR_ROCTO_INVALID_CHAR_VALUE = PSQL_Code_Data_Exception"
| "data_exception_code ERR_ROCTO_INVALID_INT_VALUE = PSQL_Code_Numeric_Value_Out_Of_Range"
| "data_exception_code ERR_ROCTO_INVALID_NUMBER = PSQL_Code_Numeric_Value_Out_Of_Range"
| "data_exception_code ERR_ROCTO_MISSING_DATA = PSQL_Code_Data_Exception"
| "data_exception_code ERR_ROCTO_MISSING_NULL = PSQL_Code_Unterminated_C_String"
| "data_exception_code ERR_ROCTO_TOO_FEW_VALUES = PSQL_Code_Numeric_Value_Out_Of_Range"
| "data_exception_code ERR_ROCTO_TOO_MANY_VALUES = PSQL_Code_Numeric_Value_Out_Of_Range"

datatype octo_error =
    Internal internal_error
  | Other other_error
  | Syntax syntax_error
  | Trace trace_message
  | System system_error
  | Configuration configuration_error
  | Connection connection_error
  | Authentication authentication_error
  | Data data_exception
  | CUSTOM_ERROR

primrec err_format_str :: "octo_error \<Rightarrow> string" where
  "err_format_str (Internal e) = internal_error_format e"
| "err_format_str (Other e) = other_error_format e"
| "err_format_str (Syntax e) = syntax_error_format e"
| "err_format_str (Trace e) = trace_message_format e"
| "err_format_str (System e) = system_error_format e"
| "err_format_str (Configuration e) = configuration_error_format e"
| "err_format_str (Connection e) = connection_error_format e"
| "err_format_str (Authentication e) = authentication_error_format e"
| "err_format_str (Data e) = data_exception_format e"
| "err_format_str CUSTOM_ERROR = ''Error not found''"

primrec err_code_map :: "octo_error \<Rightarrow> PSQL_SQLSTATECode" where
  "err_code_map (Internal e) = internal_error_code e"
| "err_code_map (Other e) = other_error_code e"
| "err_code_map (Syntax e) = syntax_error_code e"
| "err_code_map (Trace e) = trace_message_code e"
| "err_code_map (System e) = system_error_code e"
| "err_code_map (Configuration e) = configuration_error_code e"
| "err_code_map (Connection e) = connection_error_code e"
| "err_code_map (Authentication e) = authentication_error_code e"
| "err_code_map (Data e) = data_exception_code e"
| "err_code_map CUSTOM_ERROR = PSQL_Code_Internal_Error"

section \<open>Formatting\<close>

text \<open>
  The arguments of a format and the conversions the error table uses. A missing argument, one of
  the wrong kind and an unknown conversion are undefined in C: the result is then \<open>None\<close>.
\<close>

datatype fmt_arg = ArgS string | ArgD i32 | ArgX u32 | ArgC char

fun fmt_conv :: "char \<Rightarrow> fmt_arg \<Rightarrow> string option" where
  "fmt_conv c (ArgS s) = (if c = CHR ''s'' then Some (cstr s) else None)"
| "fmt_conv c (ArgD w) = (if c = CHR ''d'' then Some (int_dec (sint w)) else None)"
| "fmt_conv c (ArgX w) = (if c = CHR ''x'' then Some (nat_hex (unat w)) else None)"
| "fmt_conv c (ArgC d) = (if c = CHR ''c'' then Some [d] else None)"

fun vformat :: "string \<Rightarrow> fmt_arg list \<Rightarrow> string option" where
  "vformat [] args = Some []"
| "vformat [c] args = (if c = CHR ''%'' then None else Some [c])"
| "vformat (c # d # cs) args =
     (if c \<noteq> CHR ''%'' then map_option ((#) c) (vformat (d # cs) args)
      else (case args of
              [] \<Rightarrow> None
            | a # as \<Rightarrow> (case fmt_conv d a of
                None \<Rightarrow> None
              | Some t \<Rightarrow> map_option ((@) t) (vformat cs as))))"

text \<open>\<open>vsnprintf (p, n, ...)\<close> stores at most \<open>n - 1\<close> bytes of the text and a zero byte.\<close>

definition vsnprintf_bytes :: "nat \<Rightarrow> string \<Rightarrow> string" where
  "vsnprintf_bytes n text = (if n = 0 then [] else take (n - 1) text @ [NUL])"

definition overwrite :: "nat \<Rightarrow> string \<Rightarrow> string \<Rightarrow> string" where
  "overwrite i bs buf = take i buf @ bs @ drop (i + length bs) buf"

lemma length_overwrite [simp]:
  "i + length bs \<le> length buf \<Longrightarrow> length (overwrite i bs buf) = length buf"
  by (simp add: overwrite_def)

lemma drop_overwrite: "i \<le> length buf \<Longrightarrow> drop i (overwrite i bs buf) = bs @ drop (i + length bs) buf"
  by (simp add: overwrite_def)

lemma take_overwrite: "i \<le> length buf \<Longrightarrow> take i (overwrite i bs buf) = take i buf"
  by (simp add: overwrite_def)

lemma length_vsnprintf_bytes: "length (vsnprintf_bytes n text) \<le> n"
  by (auto simp: vsnprintf_bytes_def)

section \<open>format_error_string\<close>

text \<open>
  \<open>ErrorBuffer\<close>: \<open>MAX_STR_CONST\<close> bytes and the offset of the next message. The constant is set
  when the build is configured (\<open>constants.h.in\<close>), so it is the parameter \<open>max_str_const\<close> here.
  The result is the start of the message in the buffer and the new buffer.
\<close>

record ErrorBuffer =
  eb_buffer :: string
  eb_offset :: nat

definition error_buffer_ok :: "nat \<Rightarrow> ErrorBuffer \<Rightarrow> bool" where
  "error_buffer_ok max_str_const eb \<longleftrightarrow>
     length (eb_buffer eb) = max_str_const \<and> eb_offset eb < max_str_const"

definition format_error_string ::
  "nat \<Rightarrow> ErrorBuffer \<Rightarrow> octo_error \<Rightarrow> fmt_arg list \<Rightarrow> (unit, nat \<times> ErrorBuffer) outcome" where
  "format_error_string max_str_const eb error args =
     (case vformat (err_format_str error) args of
        None \<Rightarrow> Undefined
      | Some text \<Rightarrow>
          let max_length = max_str_const - eb_offset eb;
              ret = eb_offset eb;
              eb1 = eb\<lparr>eb_buffer := overwrite ret (vsnprintf_bytes max_length text) (eb_buffer eb)\<rparr>
          in if length text + eb_offset eb \<ge> max_str_const then Done (ret, eb1)
             else Done (ret, eb1\<lparr>eb_offset := eb_offset eb + length text\<rparr>))"

definition error_text :: "ErrorBuffer \<Rightarrow> nat \<Rightarrow> string" where
  "error_text eb p = cstr (drop p (eb_buffer eb))"

lemma format_error_string_buffer:
  assumes ok: "error_buffer_ok m eb"
    and fmt: "vformat (err_format_str e) args = Some t"
    and call: "format_error_string m eb e args = Done (p, eb')"
  shows "p = eb_offset eb"
    and "eb_buffer eb' = overwrite p (take (m - 1 - p) t @ [NUL]) (eb_buffer eb)"
    and "error_buffer_ok m eb'"
proof -
  have nz: "m - eb_offset eb \<noteq> 0" using ok by (simp add: error_buffer_ok_def)
  show p: "p = eb_offset eb"
    using call fmt by (auto simp: format_error_string_def Let_def split: if_splits)
  show "eb_buffer eb' = overwrite p (take (m - 1 - p) t @ [NUL]) (eb_buffer eb)"
    using call fmt nz
    by (auto simp: format_error_string_def Let_def vsnprintf_bytes_def diff_commute split: if_splits)
  show "error_buffer_ok m eb'"
    using call fmt ok length_vsnprintf_bytes [of "m - eb_offset eb" t]
    by (auto simp: format_error_string_def Let_def error_buffer_ok_def split: if_splits)
qed

lemma error_text_overwrite:
  assumes "p < length buf" and "nul_free text"
  shows "cstr (drop p (overwrite p (text @ [NUL]) buf)) = text"
  using assms by (simp add: drop_overwrite)

lemma nul_free_take: "nul_free s \<Longrightarrow> nul_free (take n s)"
  by (meson in_set_takeD)

lemma cstr_take_NUL: "cstr (take n s @ NUL # r) = cstr (take n s)"
  by (induction s arbitrary: n) (auto simp: cstr_def take_Cons split: nat.splits)

section \<open>Properties\<close>

text \<open>C28. \<open>format_error_string\<close> keeps the buffer and its offset in bounds, writes nothing before
  the message, and the string it returns is the formatted text, cut off where the buffer ends.\<close>

theorem format_error_string_correct:
  assumes "error_buffer_ok max_str_const eb"
    and "vformat (err_format_str error) args = Some msg"
  shows "\<exists>eb'. format_error_string max_str_const eb error args = Done (eb_offset eb, eb') \<and>
    error_buffer_ok max_str_const eb' \<and>
    take (eb_offset eb) (eb_buffer eb') = take (eb_offset eb) (eb_buffer eb) \<and>
    error_text eb' (eb_offset eb) = cstr (take (max_str_const - 1 - eb_offset eb) msg)"
proof -
  from assms(2) obtain p eb' where call: "format_error_string max_str_const eb error args = Done (p, eb')"
    by (simp add: format_error_string_def Let_def) metis
  note buf = format_error_string_buffer [OF assms call]
  let ?k = "max_str_const - 1 - eb_offset eb"
  have ok: "eb_offset eb < length (eb_buffer eb)" using assms(1) by (simp add: error_buffer_ok_def)
  have "error_text eb' (eb_offset eb) = cstr (take ?k msg)"
    using buf(1,2) ok by (simp add: error_text_def drop_overwrite cstr_take_NUL)
  then show ?thesis using call buf ok by (auto simp: take_overwrite)
qed

theorem format_error_string_correct_witness:
  "error_buffer_ok 12 \<lparr>eb_buffer = replicate 12 CHR ''x'', eb_offset = 2\<rparr> \<and>
   (\<exists>eb'. format_error_string 12 \<lparr>eb_buffer = replicate 12 CHR ''x'', eb_offset = 2\<rparr>
      (Internal ERR_YOTTADB) [ArgS ''no''] = Done (2, eb') \<and> error_text eb' 2 = ''YottaDB e'')"
proof -
  have ok: "error_buffer_ok 12 \<lparr>eb_buffer = replicate 12 CHR ''x'', eb_offset = 2\<rparr>"
    by (simp add: error_buffer_ok_def)
  have "vformat (err_format_str (Internal ERR_YOTTADB)) [ArgS ''no''] = Some ''YottaDB error: no''"
    by simp
  from format_error_string_correct [OF ok this] ok show ?thesis by (auto simp: cstr_def)
qed

end
