(* ===== verification/Wire_Messages.thy ===== *)
theory Wire_Messages
  imports Octo_Errors
begin

text \<open>
  The messages the server sends: \<open>message_formats.h\<close> and the \<open>make_*\<close> functions of \<open>src/rocto\<close>.
  Each packed struct is sent from its \<open>type\<close> field on, as a \<open>BaseMessage\<close>, so the model of a sent
  message is its \<open>type\<close>, the four bytes of its \<open>length\<close> field as they lie in memory, and the bytes
  that follow. The central invariant is \<open>framed\<close>: the length field, read in network byte order,
  counts itself and the data.
\<close>

section \<open>Message types and frames\<close>

abbreviation "PSQL_AuthenticationMD5Password \<equiv> CHR ''R''"
abbreviation "PSQL_AuthenticationOk \<equiv> CHR ''R''"
abbreviation "PSQL_Bind \<equiv> CHR ''B''"
abbreviation "PSQL_BindComplete \<equiv> CHR ''2''"
abbreviation "PSQL_Close \<equiv> CHR ''C''"
abbreviation "PSQL_CloseComplete \<equiv> CHR ''3''"
abbreviation "PSQL_CommandComplete \<equiv> CHR ''C''"
abbreviation "PSQL_DataRow \<equiv> CHR ''D''"
abbreviation "PSQL_Describe \<equiv> CHR ''D''"
abbreviation "PSQL_EmptyQueryResponse \<equiv> CHR ''I''"
abbreviation "PSQL_ErrorResponse \<equiv> CHR ''E''"
abbreviation "PSQL_Execute \<equiv> CHR ''E''"
abbreviation "PSQL_Flush \<equiv> CHR ''H''"
abbreviation "PSQL_NoData \<equiv> CHR ''n''"
abbreviation "PSQL_NoticeResponse \<equiv> CHR ''N''"
abbreviation "PSQL_Query \<equiv> CHR ''Q''"
abbreviation "PSQL_ReadyForQuery \<equiv> CHR ''Z''"
abbreviation "PSQL_RowDescription \<equiv> CHR ''T''"
abbreviation "PSQL_ParameterStatus \<equiv> CHR ''S''"
abbreviation "PSQL_Parse \<equiv> CHR ''P''"
abbreviation "PSQL_ParseComplete \<equiv> CHR ''1''"
abbreviation "PSQL_PasswordMessage \<equiv> CHR ''p''"
abbreviation "PSQL_PortalSuspended \<equiv> CHR ''s''"
abbreviation "PSQL_Sync \<equiv> CHR ''S''"
abbreviation "PSQL_ParameterDescription \<equiv> CHR ''t''"
abbreviation "PSQL_Terminate \<equiv> CHR ''X''"

record BaseMessage =
  mtype :: char
  mlength :: string
  mdata :: string

definition wire_image :: "'a BaseMessage_scheme \<Rightarrow> string" where
  "wire_image m = mtype m # mlength m @ mdata m"

definition framed :: "'a BaseMessage_scheme \<Rightarrow> bool" where
  "framed m \<longleftrightarrow> length (mlength m) = 4 \<and> unat (ntohl (mlength m)) = length (mdata m) + 4"

lemma framedI:
  assumes "mlength m = htonl w" and "unat w = length (mdata m) + 4"
  shows "framed m"
  using assms by (simp add: framed_def)

lemma framed_image_length: "framed m \<Longrightarrow> length (wire_image m) = unat (ntohl (mlength m)) + 1"
  by (simp add: framed_def wire_image_def)

lemma unat_of_nat_u32 [simp]: "n < 2 ^ 32 \<Longrightarrow> unat (of_nat n :: u32) = n"
  by (simp add: unat_of_nat take_bit_nat_eq_self)

lemma unat_of_nat_numeral [simp]:
  assumes "n + numeral k < (2 :: nat) ^ 32"
  shows "unat (of_nat n + numeral k :: u32) = n + numeral k"
    and "unat (numeral k + of_nat n :: u32) = numeral k + n"
  using unat_of_nat_u32 [OF assms] by (simp_all add: add.commute)

section \<open>Messages of fixed size\<close>

definition make_authentication_ok :: BaseMessage where
  "make_authentication_ok =
     \<lparr>mtype = PSQL_AuthenticationOk, mlength = htonl 8, mdata = htonl 0\<rparr>"

definition make_bind_complete :: BaseMessage where
  "make_bind_complete = \<lparr>mtype = PSQL_BindComplete, mlength = htonl 4, mdata = []\<rparr>"

definition make_parse_complete :: BaseMessage where
  "make_parse_complete = \<lparr>mtype = PSQL_ParseComplete, mlength = htonl 4, mdata = []\<rparr>"

definition make_empty_query_response :: BaseMessage where
  "make_empty_query_response = \<lparr>mtype = PSQL_EmptyQueryResponse, mlength = htonl 4, mdata = []\<rparr>"

definition make_no_data :: BaseMessage where
  "make_no_data = \<lparr>mtype = PSQL_NoData, mlength = htonl 4, mdata = []\<rparr>"

definition make_portal_suspended :: BaseMessage where
  "make_portal_suspended = \<lparr>mtype = PSQL_PortalSuspended, mlength = htonl 4, mdata = []\<rparr>"

text \<open>The command tag is not used (\<open>UNUSED (command_tag)\<close>).\<close>

definition make_close_complete :: "string option \<Rightarrow> BaseMessage" where
  "make_close_complete command_tag =
     \<lparr>mtype = PSQL_CloseComplete, mlength = htonl 4, mdata = []\<rparr>"

text \<open>\<open>num_parms\<close> is always zero.\<close>

definition make_parameter_description :: BaseMessage where
  "make_parameter_description =
     \<lparr>mtype = PSQL_ParameterDescription, mlength = htonl (4 + 2), mdata = [NUL, NUL]\<rparr>"

datatype PSQL_TransactionStatus =
    PSQL_TransactionStatus_IDLE
  | PSQL_TransactionStatus_TRANSACTION
  | PSQL_TransactionStatus_FAILED

primrec transaction_status_char :: "PSQL_TransactionStatus \<Rightarrow> char" where
  "transaction_status_char PSQL_TransactionStatus_IDLE = CHR ''I''"
| "transaction_status_char PSQL_TransactionStatus_TRANSACTION = CHR ''T''"
| "transaction_status_char PSQL_TransactionStatus_FAILED = CHR ''E''"

definition make_ready_for_query :: "PSQL_TransactionStatus \<Rightarrow> BaseMessage" where
  "make_ready_for_query status =
     \<lparr>mtype = PSQL_ReadyForQuery, mlength = htonl (4 + 1), mdata = [transaction_status_char status]\<rparr>"

text \<open>
  The salt of the MD5 challenge comes from the \<open>getrandom\<close> system call, which fills the caller's
  four-byte buffer: it is the parameter \<open>getrandom\<close>, from the old contents to the new. The result is
  the message (\<open>None\<close> for a null session) and the caller's buffer.
\<close>

definition make_authentication_md5_password ::
  "(string \<Rightarrow> string) \<Rightarrow> 's option \<Rightarrow> string \<Rightarrow> BaseMessage option \<times> string" where
  "make_authentication_md5_password getrandom session salt =
     (case session of
        None \<Rightarrow> (None, salt)
      | Some s \<Rightarrow>
          let salt' = getrandom salt
          in (Some \<lparr>mtype = PSQL_AuthenticationMD5Password, mlength = htonl (4 + 4 + 4),
                    mdata = htonl 5 @ take 4 salt'\<rparr>, salt'))"

lemmas fixed_message_defs [wire_defs] =
  make_authentication_ok_def make_bind_complete_def make_parse_complete_def
  make_empty_query_response_def make_no_data_def make_portal_suspended_def
  make_close_complete_def make_parameter_description_def make_ready_for_query_def

section \<open>Messages that carry C strings\<close>

text \<open>
  The lengths are \<open>int\<close> and \<open>unsigned int\<close> sums, which strings of gigabytes overflow; the model
  marks these cases \<open>Undefined\<close>.
\<close>

definition make_command_complete :: "string option \<Rightarrow> (unit, BaseMessage) outcome" where
  "make_command_complete command_tag =
     (let tag = (case command_tag of None \<Rightarrow> [] | Some t \<Rightarrow> cstr t);
          command_tag_length = length tag + 1;
          len = 4 + command_tag_length
      in if len < 2 ^ 31
         then Done \<lparr>mtype = PSQL_CommandComplete, mlength = htonl (of_nat len), mdata = tag @ [NUL]\<rparr>
         else Undefined)"

record StartupMessageParm =
  smp_name :: string
  smp_value :: string

definition make_parameter_status :: "StartupMessageParm option \<Rightarrow> (unit, BaseMessage option) outcome" where
  "make_parameter_status parm =
     (case parm of
        None \<Rightarrow> Done None
      | Some p \<Rightarrow>
          let name = cstr (smp_name p); value = cstr (smp_value p);
              len = 4 + (length name + 1) + (length value + 1)
          in if length name < 2 ^ 31 \<and> length value < 2 ^ 31 \<and> len < 2 ^ 32
             then Done (Some \<lparr>mtype = PSQL_ParameterStatus, mlength = htonl (of_nat len),
                              mdata = name @ NUL # value @ [NUL]\<rparr>)
             else Undefined)"

section \<open>DataRow\<close>

text \<open>
  \<open>make_data_row\<close> sums the lengths in an \<open>unsigned int\<close>, allocates that many bytes for the data
  and then fills them. \<open>num_parms\<close> is a \<open>short\<close>: the loops run \<open>sint num_parms\<close> times, not at all
  when it is negative. Reading past the array or a value, and writing past the allocation (which
  the wrapped sum may make too small), is \<open>Undefined\<close>.
\<close>

record DataRowParm =
  dp_length :: u32
  dp_value :: string

abbreviation short_count :: "i16 \<Rightarrow> nat" where
  "short_count n \<equiv> nat (sint n)"

fun data_row_length :: "u32 \<Rightarrow> DataRowParm list \<Rightarrow> u32" where
  "data_row_length len [] = len"
| "data_row_length len (p # ps) = data_row_length (len + dp_length p + 4) ps"

fun data_row_fill :: "DataRowParm list \<Rightarrow> string" where
  "data_row_fill [] = []"
| "data_row_fill (p # ps) =
     htonl (dp_length p) @ take (unat (dp_length p)) (dp_value p) @ data_row_fill ps"

definition data_row_parm_ok :: "DataRowParm \<Rightarrow> bool" where
  "data_row_parm_ok p \<longleftrightarrow> unat (dp_length p) \<le> length (dp_value p)"

definition make_data_row :: "DataRowParm list \<Rightarrow> i16 \<Rightarrow> (unit, BaseMessage) outcome" where
  "make_data_row parms num_parms =
     (let ps = take (short_count num_parms) parms in
      if length parms < short_count num_parms \<or> \<not> list_all data_row_parm_ok ps then Undefined
      else
        let len = data_row_length 0 ps; bytes = data_row_fill ps
        in if length bytes \<le> unat len
           then Done \<lparr>mtype = PSQL_DataRow, mlength = htonl (len + 4 + 2),
                      mdata = htons num_parms @ bytes\<rparr>
           else Undefined)"

section \<open>RowDescription\<close>

record RowDescriptionParm =
  rd_name :: string
  rd_table_id :: i32
  rd_column_id :: i16
  rd_data_type :: i32
  rd_data_type_size :: i16
  rd_type_modifier :: i32
  rd_format_code :: i16

fun row_description_length :: "u32 \<Rightarrow> RowDescriptionParm list \<Rightarrow> u32" where
  "row_description_length len [] = len"
| "row_description_length len (p # ps) =
     row_description_length (len + of_nat (length (cstr (rd_name p)) + 1) + 18) ps"

definition row_description_numbers :: "RowDescriptionParm \<Rightarrow> string" where
  "row_description_numbers p =
     htonl (rd_table_id p) @ htons (rd_column_id p) @ htonl (rd_data_type p) @
     htons (rd_data_type_size p) @ htonl (rd_type_modifier p) @ htons (rd_format_code p)"

fun row_description_fill :: "RowDescriptionParm list \<Rightarrow> string" where
  "row_description_fill [] = []"
| "row_description_fill (p # ps) =
     cstr (rd_name p) @ NUL # row_description_numbers p @ row_description_fill ps"

definition make_row_description :: "RowDescriptionParm list \<Rightarrow> i16 \<Rightarrow> (unit, BaseMessage) outcome" where
  "make_row_description parms num_parms =
     (let ps = take (short_count num_parms) parms in
      if length parms < short_count num_parms then Undefined
      else
        let len = row_description_length 0 ps; bytes = row_description_fill ps
        in if length bytes \<le> unat len
           then Done \<lparr>mtype = PSQL_RowDescription, mlength = htonl (len + 4 + 2),
                      mdata = htons num_parms @ bytes\<rparr>
           else Undefined)"

section \<open>ErrorResponse and NoticeResponse\<close>

text \<open>
  Besides the message, the struct has an array \<open>args\<close> of pointers into the data, kept here as
  offsets. For the three required fields the pointer is taken before the type letter is written,
  for the optional ones after it.
\<close>

abbreviation "PSQL_Error_SEVERITY \<equiv> CHR ''S''"
abbreviation "PSQL_Error_Code \<equiv> CHR ''C''"
abbreviation "PSQL_Error_Message \<equiv> CHR ''M''"
abbreviation "PSQL_Error_Detail \<equiv> CHR ''D''"

record ErrorResponseArg =
  ea_type :: char
  ea_value :: string

record ErrorResponse = BaseMessage +
  er_args :: "(char \<times> nat) list"

fun error_args_length :: "u32 \<Rightarrow> ErrorResponseArg list \<Rightarrow> u32" where
  "error_args_length len [] = len"
| "error_args_length len (a # as) =
     error_args_length (len + 1 + of_nat (length (cstr (ea_value a)) + 1)) as"

fun error_args_fill :: "nat \<Rightarrow> ErrorResponseArg list \<Rightarrow> string \<times> (char \<times> nat) list" where
  "error_args_fill ptr [] = ([], [])"
| "error_args_fill ptr (a # as) =
     (let v = cstr (ea_value a);
          (bs, refs) = error_args_fill (ptr + 1 + length v + 1) as
      in (ea_type a # v @ NUL # bs, (ea_type a, ptr + 1) # refs))"

definition error_message_type :: "PSQL_ErrorSeverity \<Rightarrow> char" where
  "error_message_type severity =
     (case severity of
        PSQL_Error_LOG \<Rightarrow> PSQL_NoticeResponse
      | PSQL_Error_INFO \<Rightarrow> PSQL_NoticeResponse
      | PSQL_Error_DEBUG \<Rightarrow> PSQL_NoticeResponse
      | PSQL_Error_NOTICE \<Rightarrow> PSQL_NoticeResponse
      | PSQL_Error_WARNING \<Rightarrow> PSQL_NoticeResponse
      | _ \<Rightarrow> PSQL_ErrorResponse)"

definition make_error_response ::
  "PSQL_ErrorSeverity \<Rightarrow> PSQL_SQLSTATECode \<Rightarrow> string \<Rightarrow> ErrorResponseArg list \<Rightarrow>
   (unit, ErrorResponse) outcome" where
  "make_error_response severity code message args =
     (let sev = psql_error_severity_str severity;
          cod = psql_sqlstate_codes_str code;
          msg = cstr message;
          new_length = error_args_length 0 args + (of_nat (length sev) + 2) +
            (of_nat (length cod) + 2) + (of_nat (length msg) + 2) + 1;
          p1 = length sev + 2; p2 = p1 + length cod + 2; p3 = p2 + length msg + 2;
          (bs, refs) = error_args_fill p3 args;
          bytes = PSQL_Error_SEVERITY # sev @ NUL # PSQL_Error_Code # cod @ NUL #
            PSQL_Error_Message # msg @ NUL # bs @ [NUL]
      in if length bytes \<le> unat new_length
         then Done \<lparr>mtype = error_message_type severity, mlength = htonl (new_length + 4),
                    mdata = bytes,
                    er_args = (PSQL_Error_SEVERITY, 0) # (PSQL_Error_Code, p1) #
                      (PSQL_Error_Message, p2) # refs\<rparr>
         else Undefined)"

section \<open>Sizes\<close>

text \<open>
  The number of data bytes each constructor produces. Where the true size and the header fit 32
  bits the computed length is that size: nothing wraps, the allocation is large enough and the
  message is framed.
\<close>

definition data_row_size :: "DataRowParm list \<Rightarrow> nat" where
  "data_row_size ps = (\<Sum>p \<leftarrow> ps. unat (dp_length p) + 4)"

definition row_description_size :: "RowDescriptionParm list \<Rightarrow> nat" where
  "row_description_size ps = (\<Sum>p \<leftarrow> ps. length (cstr (rd_name p)) + 19)"

definition error_args_size :: "ErrorResponseArg list \<Rightarrow> nat" where
  "error_args_size as = (\<Sum>a \<leftarrow> as. length (cstr (ea_value a)) + 2)"

definition error_response_size ::
  "PSQL_ErrorSeverity \<Rightarrow> PSQL_SQLSTATECode \<Rightarrow> string \<Rightarrow> ErrorResponseArg list \<Rightarrow> nat" where
  "error_response_size severity code message args =
     length (psql_error_severity_str severity) + length (psql_sqlstate_codes_str code) +
     length (cstr message) + error_args_size args + 7"

lemma data_row_length_size: "data_row_length w ps = w + of_nat (data_row_size ps)"
  by (induction w ps rule: data_row_length.induct) (simp_all add: data_row_size_def)

lemma length_data_row_fill:
  "list_all data_row_parm_ok ps \<Longrightarrow> length (data_row_fill ps) = data_row_size ps"
  by (induction ps) (auto simp: data_row_size_def data_row_parm_ok_def)

lemma length_row_description_numbers [simp]: "length (row_description_numbers p) = 18"
  by (simp add: row_description_numbers_def)

lemma row_description_length_size:
  "row_description_length w ps = w + of_nat (row_description_size ps)"
  by (induction w ps rule: row_description_length.induct)
    (simp_all add: row_description_size_def algebra_simps)

lemma length_row_description_fill: "length (row_description_fill ps) = row_description_size ps"
  by (induction ps) (auto simp: row_description_size_def)

lemma error_args_length_size: "error_args_length w as = w + of_nat (error_args_size as)"
  by (induction w as rule: error_args_length.induct)
    (simp_all add: error_args_size_def algebra_simps)

lemma length_error_args_fill: "length (fst (error_args_fill p as)) = error_args_size as"
  by (induction p as rule: error_args_fill.induct)
    (auto simp: error_args_size_def Let_def split: prod.splits)

lemma make_data_row_Done:
  assumes "length parms \<ge> short_count n" and "list_all data_row_parm_ok (take (short_count n) parms)"
    and "data_row_size (take (short_count n) parms) + 6 < 2 ^ 32"
  shows "make_data_row parms n =
    Done \<lparr>mtype = PSQL_DataRow,
          mlength = htonl (of_nat (data_row_size (take (short_count n) parms) + 6)),
          mdata = htons n @ data_row_fill (take (short_count n) parms)\<rparr>"
  using assms by (simp add: make_data_row_def Let_def data_row_length_size length_data_row_fill
      add.commute)

lemma make_row_description_Done:
  assumes "length parms \<ge> short_count n"
    and "row_description_size (take (short_count n) parms) + 6 < 2 ^ 32"
  shows "make_row_description parms n =
    Done \<lparr>mtype = PSQL_RowDescription,
          mlength = htonl (of_nat (row_description_size (take (short_count n) parms) + 6)),
          mdata = htons n @ row_description_fill (take (short_count n) parms)\<rparr>"
  using assms
  by (simp add: make_row_description_def Let_def row_description_length_size
      length_row_description_fill add.commute)

lemma error_response_length_size:
  assumes "error_response_size sv cd ms as + 4 < 2 ^ 32"
  shows "unat (error_args_length 0 as + (of_nat (length (psql_error_severity_str sv)) + 2) +
    (of_nat (length (psql_sqlstate_codes_str cd)) + 2) + (of_nat (length (cstr ms)) + 2) + 1) =
    error_response_size sv cd ms as"
proof -
  have "error_args_length 0 as + (of_nat (length (psql_error_severity_str sv)) + 2) +
    (of_nat (length (psql_sqlstate_codes_str cd)) + 2) + (of_nat (length (cstr ms)) + 2) + 1 =
    (of_nat (error_response_size sv cd ms as) :: u32)"
    by (simp add: error_args_length_size error_response_size_def)
  then show ?thesis using assms by simp
qed

text \<open>The fields of an error message, and their image.\<close>

definition error_fields ::
  "PSQL_ErrorSeverity \<Rightarrow> PSQL_SQLSTATECode \<Rightarrow> string \<Rightarrow> ErrorResponseArg list \<Rightarrow> (char \<times> string) list" where
  "error_fields severity code message args =
     (PSQL_Error_SEVERITY, psql_error_severity_str severity) #
     (PSQL_Error_Code, psql_sqlstate_codes_str code) #
     (PSQL_Error_Message, cstr message) # map (\<lambda>a. (ea_type a, cstr (ea_value a))) args"

fun field_bytes :: "(char \<times> string) list \<Rightarrow> string" where
  "field_bytes [] = []"
| "field_bytes ((t, v) # fs) = t # v @ NUL # field_bytes fs"

lemma error_args_fill_bytes:
  "fst (error_args_fill p as) = field_bytes (map (\<lambda>a. (ea_type a, cstr (ea_value a))) as)"
  by (induction p as rule: error_args_fill.induct) (auto simp: Let_def split: prod.splits)

lemma nul_free_severity [simp]: "nul_free (psql_error_severity_str sv)"
  by (cases sv) simp_all

lemma nul_free_sqlstate [simp]: "nul_free (psql_sqlstate_codes_str cd)"
  by (cases cd) simp_all

lemma error_fields_nul_free: "\<forall>(t, v) \<in> set (error_fields sv cd ms as). nul_free v"
  by (auto simp: error_fields_def)

lemma make_error_response_Done:
  assumes "error_response_size sv cd ms as + 4 < 2 ^ 32"
  obtains m where "make_error_response sv cd ms as = Done m"
    and "mtype m = error_message_type sv"
    and "mlength m = htonl (of_nat (error_response_size sv cd ms as + 4))"
    and "mdata m = field_bytes (error_fields sv cd ms as) @ [NUL]"
    and "length (mdata m) = error_response_size sv cd ms as"
proof -
  obtain bs refs where fill: "error_args_fill (length (psql_error_severity_str sv) + 2 +
      length (psql_sqlstate_codes_str cd) + 2 + length (cstr ms) + 2) as = (bs, refs)"
    by (metis surj_pair)
  have bs: "bs = field_bytes (map (\<lambda>a. (ea_type a, cstr (ea_value a))) as)"
    and len: "length bs = error_args_size as"
    using error_args_fill_bytes length_error_args_fill fill by (metis fst_conv)+
  have word: "error_args_length 0 as + (of_nat (length (psql_error_severity_str sv)) + 2) +
    (of_nat (length (psql_sqlstate_codes_str cd)) + 2) + (of_nat (length (cstr ms)) + 2) + 1 =
    (of_nat (error_response_size sv cd ms as) :: u32)"
    by (simp add: error_args_length_size error_response_size_def)
  have size: "length (field_bytes (error_fields sv cd ms as) @ [NUL]) = error_response_size sv cd ms as"
    using bs len by (simp add: error_fields_def error_response_size_def)
  have "make_error_response sv cd ms as =
    Done \<lparr>mtype = error_message_type sv,
      mlength = htonl (of_nat (error_response_size sv cd ms as) + 4),
      mdata = field_bytes (error_fields sv cd ms as) @ [NUL],
      er_args = (PSQL_Error_SEVERITY, 0) #
        (PSQL_Error_Code, length (psql_error_severity_str sv) + 2) #
        (PSQL_Error_Message, length (psql_error_severity_str sv) + 2 +
          length (psql_sqlstate_codes_str cd) + 2) # refs\<rparr>"
    unfolding make_error_response_def Let_def fill word prod.case
    using assms size bs by (simp add: error_fields_def)
  then show thesis by (rule that) (use size in \<open>simp_all add: add.commute\<close>)
qed

section \<open>Every message is framed\<close>

text \<open>
  The messages the server builds, with the arguments of their constructors, and \<open>fits\<close>: the
  arguments are those of a correct call (the arrays hold what the counts say) and the message is
  shorter than the 32-bit length field allows.
\<close>

datatype backend_message =
    AuthenticationOk
  | AuthenticationMD5Password string
  | BindComplete
  | ParseComplete
  | CloseComplete
  | EmptyQueryResponse
  | NoData
  | PortalSuspended
  | ParameterDescription
  | ReadyForQuery PSQL_TransactionStatus
  | CommandComplete string
  | ParameterStatus StartupMessageParm
  | DataRow "DataRowParm list" i16
  | RowDescription "RowDescriptionParm list" i16
  | ErrorMessage PSQL_ErrorSeverity PSQL_SQLSTATECode string "ErrorResponseArg list"

fun build :: "backend_message \<Rightarrow> (unit, BaseMessage) outcome" where
  "build AuthenticationOk = Done make_authentication_ok"
| "build (AuthenticationMD5Password salt) =
     (case make_authentication_md5_password (\<lambda>_. salt) (Some ()) salt of
        (Some m, _) \<Rightarrow> Done m | (None, _) \<Rightarrow> Undefined)"
| "build BindComplete = Done make_bind_complete"
| "build ParseComplete = Done make_parse_complete"
| "build CloseComplete = Done (make_close_complete None)"
| "build EmptyQueryResponse = Done make_empty_query_response"
| "build NoData = Done make_no_data"
| "build PortalSuspended = Done make_portal_suspended"
| "build ParameterDescription = Done make_parameter_description"
| "build (ReadyForQuery st) = Done (make_ready_for_query st)"
| "build (CommandComplete tag) = make_command_complete (Some tag)"
| "build (ParameterStatus p) =
     (case make_parameter_status (Some p) of Done (Some m) \<Rightarrow> Done m | _ \<Rightarrow> Undefined)"
| "build (DataRow ps n) = make_data_row ps n"
| "build (RowDescription ps n) = make_row_description ps n"
| "build (ErrorMessage sv cd ms as) =
     (case make_error_response sv cd ms as of
        Done m \<Rightarrow> Done (BaseMessage.truncate m) | _ \<Rightarrow> Undefined)"

fun fits :: "backend_message \<Rightarrow> bool" where
  "fits (AuthenticationMD5Password salt) \<longleftrightarrow> length salt = 4"
| "fits (CommandComplete tag) \<longleftrightarrow> length (cstr tag) + 5 < 2 ^ 31"
| "fits (ParameterStatus p) \<longleftrightarrow>
     length (cstr (smp_name p)) < 2 ^ 31 \<and> length (cstr (smp_value p)) < 2 ^ 31 \<and>
     length (cstr (smp_name p)) + length (cstr (smp_value p)) + 6 < 2 ^ 32"
| "fits (DataRow ps n) \<longleftrightarrow>
     short_count n \<le> length ps \<and> list_all data_row_parm_ok (take (short_count n) ps) \<and>
     data_row_size (take (short_count n) ps) + 6 < 2 ^ 32"
| "fits (RowDescription ps n) \<longleftrightarrow>
     short_count n \<le> length ps \<and> row_description_size (take (short_count n) ps) + 6 < 2 ^ 32"
| "fits (ErrorMessage sv cd ms as) \<longleftrightarrow> error_response_size sv cd ms as + 4 < 2 ^ 32"
| "fits _ \<longleftrightarrow> True"

lemma length_cstr_le: "length (cstr s) \<le> length s"
  by (metis scan_nul_cstr scan_nul_le)

lemma framed_truncate [simp]: "framed (BaseMessage.truncate m) = framed m"
  by (simp add: framed_def BaseMessage.truncate_def)

lemma make_error_response_framed:
  assumes "error_response_size sv cd ms as + 4 < 2 ^ 32"
  obtains m where "make_error_response sv cd ms as = Done m" and "framed m"
proof (rule make_error_response_Done [OF assms])
  fix m
  assume built: "make_error_response sv cd ms as = Done m"
    and "mlength m = htonl (of_nat (error_response_size sv cd ms as + 4))"
    and "length (mdata m) = error_response_size sv cd ms as"
  with assms have "framed m" by (simp add: framed_def)
  with built show thesis by (rule that)
qed

lemma build_framed:
  assumes "fits b"
  obtains m where "build b = Done m" and "framed m"
proof (cases b)
  case (ErrorMessage sv cd ms as)
  with assms have "error_response_size sv cd ms as + 4 < 2 ^ 32" by simp
  from make_error_response_framed [OF this] obtain m
    where "make_error_response sv cd ms as = Done m" and "framed m" .
  with ErrorMessage that show ?thesis by auto
next
  case (ParameterStatus p)
  with assms that show ?thesis
    by (auto simp: framed_def make_parameter_status_def Let_def simp del: of_nat_add)
qed (use assms that in \<open>auto simp: wire_defs framed_def
  make_authentication_md5_password_def make_command_complete_def make_parameter_status_def
  make_data_row_Done make_row_description_Done length_data_row_fill length_row_description_fill
  Let_def\<close>)

section \<open>The contract of a message codec\<close>

text \<open>
  A constructor of messages with the reader of its messages: on valid arguments the constructor
  yields a framed message, and reading it gives back the meaning of the arguments.
\<close>

locale wire_codec =
  fixes enc :: "'a \<Rightarrow> (unit, BaseMessage) outcome"
    and dec :: "BaseMessage \<Rightarrow> (unit, 'b) outcome"
    and valid :: "'a \<Rightarrow> bool"
    and view :: "'b \<Rightarrow> 'c"
    and meaning :: "'a \<Rightarrow> 'c"
  assumes enc_framed: "valid x \<Longrightarrow> \<exists>m. enc x = Done m \<and> framed m"
    and dec_enc: "valid x \<Longrightarrow> enc x = Done m \<Longrightarrow> \<exists>r. dec m = Done r \<and> view r = meaning x"
begin

text \<open>Arguments with the same image have the same meaning.\<close>

lemma enc_unambiguous: "valid x \<Longrightarrow> valid y \<Longrightarrow> enc x = enc y \<Longrightarrow> meaning x = meaning y"
  using enc_framed [of x] dec_enc [of x] dec_enc [of y] by (metis outcome.inject(2))

end

section \<open>Properties\<close>

text \<open>C19. Every message the server builds is framed: for arguments of a correct call whose message
  fits the 32-bit length field, the constructor succeeds, its length field has four bytes and counts,
  in network byte order, itself and the data that follows.\<close>

theorem messages_framed:
  assumes "fits b"
  shows "\<exists>m. build b = Done m \<and> framed m"
  using build_framed [OF assms] by blast

theorem messages_framed_witness:
  "fits (DataRow [\<lparr>dp_length = 2, dp_value = ''ab''\<rparr>, \<lparr>dp_length = 0, dp_value = []\<rparr>] 2) \<and>
   (\<exists>m. build (DataRow [\<lparr>dp_length = 2, dp_value = ''ab''\<rparr>, \<lparr>dp_length = 0, dp_value = []\<rparr>] 2) = Done m \<and>
      framed m)"
proof -
  have "fits (DataRow [\<lparr>dp_length = 2, dp_value = ''ab''\<rparr>, \<lparr>dp_length = 0, dp_value = []\<rparr>] 2)"
    by (simp add: data_row_parm_ok_def data_row_size_def)
  with messages_framed [OF this] show ?thesis by blast
qed

end
