(* ===== verification/Backend_Readers.thy ===== *)
theory Backend_Readers
  imports Wire_Messages
begin

text \<open>
  The client-side readers of \<open>src/rocto\<close> (\<open>read_data_row\<close>, \<open>read_row_description\<close>,
  \<open>read_error_response\<close> and the readers of the short messages), which parse what the \<open>make_*\<close>
  functions build. They trust the peer: they have no error path, so a message that is too short
  leads them outside the memory they allocated, which the model returns as \<open>Undefined\<close>.
  Pointers into the copied data are offsets.
\<close>

section \<open>The header of a message that was read\<close>

record Frame =
  f_type :: char
  f_length :: u32

definition frame_of :: "BaseMessage \<Rightarrow> Frame" where
  "frame_of m = \<lparr>f_type = mtype m, f_length = ntohl (mlength m)\<rparr>"

text \<open>
  The bytes that the copy \<open>memcpy (ret->data, message->data, length - 4)\<close> moves, when the message
  holds them.
\<close>

definition payload :: "BaseMessage \<Rightarrow> string option" where
  "payload m =
     (let len = unat (ntohl (mlength m)) in
      if len < 4 \<or> length (mdata m) < len - 4 then None else Some (take (len - 4) (mdata m)))"

lemma payload_framed: "framed m \<Longrightarrow> payload m = Some (mdata m)"
  by (simp add: payload_def framed_def)

section \<open>Short messages\<close>

definition read_bind_complete :: "BaseMessage \<Rightarrow> Frame" where
  "read_bind_complete m = frame_of m"

definition read_parse_complete :: "BaseMessage \<Rightarrow> Frame" where
  "read_parse_complete m = frame_of m"

definition read_close_complete :: "BaseMessage \<Rightarrow> Frame" where
  "read_close_complete m = frame_of m"

definition read_empty_query_response :: "BaseMessage \<Rightarrow> Frame" where
  "read_empty_query_response m = frame_of m"

definition read_portal_suspended :: "BaseMessage \<Rightarrow> Frame" where
  "read_portal_suspended m = frame_of m"

text \<open>\<open>read_authentication_ok\<close> copies \<open>length\<close> and \<open>result\<close> as they are, in network byte order.\<close>

record AuthenticationOkRead =
  ao_type :: char
  ao_length :: string
  ao_result :: string

definition read_authentication_ok :: "BaseMessage \<Rightarrow> (unit, AuthenticationOkRead) outcome" where
  "read_authentication_ok m =
     (if length (mdata m) < 4 then Undefined
      else Done \<lparr>ao_type = mtype m, ao_length = mlength m, ao_result = take 4 (mdata m)\<rparr>)"

record ReadyForQueryRead = Frame +
  rfq_status :: char

definition read_ready_for_query :: "BaseMessage \<Rightarrow> (unit, ReadyForQueryRead) outcome" where
  "read_ready_for_query m =
     (case mdata m of
        [] \<Rightarrow> Undefined
      | c # _ \<Rightarrow> Done (Frame.extend (frame_of m) \<lparr>rfq_status = c\<rparr>))"

record CommandCompleteRead = Frame +
  cc_data :: string

definition read_command_complete :: "BaseMessage \<Rightarrow> (unit, CommandCompleteRead) outcome" where
  "read_command_complete m =
     (case payload m of
        None \<Rightarrow> Undefined
      | Some d \<Rightarrow> Done (Frame.extend (frame_of m) \<lparr>cc_data = d\<rparr>))"

text \<open>The field \<open>command_tag\<close> points at the data.\<close>

definition command_tag :: "CommandCompleteRead \<Rightarrow> string" where
  "command_tag r = cstr (cc_data r)"

record ParameterStatusRead = Frame +
  ps_data :: string

definition read_parameter_status :: "BaseMessage option \<Rightarrow> (unit, ParameterStatusRead option) outcome" where
  "read_parameter_status message =
     (case message of
        None \<Rightarrow> Done None
      | Some m \<Rightarrow>
          (case payload m of
             None \<Rightarrow> Undefined
           | Some d \<Rightarrow> Done (Some (Frame.extend (frame_of m) \<lparr>ps_data = d\<rparr>))))"

section \<open>DataRow\<close>

record DataRowRead = Frame +
  dr_num_columns :: i16
  dr_data :: string
  dr_parms :: "(u32 \<times> nat) list"

fun read_data_row_parms :: "nat \<Rightarrow> string \<Rightarrow> nat \<Rightarrow> (u32 \<times> nat) list option" where
  "read_data_row_parms 0 d p = Some []"
| "read_data_row_parms (Suc k) d p =
     (if length d < p + 4 then None
      else let len = ntohl (drop p d) in
        map_option ((#) (len, p + 4)) (read_data_row_parms k d (p + 4 + unat len)))"

definition read_data_row :: "BaseMessage \<Rightarrow> (unit, DataRowRead) outcome" where
  "read_data_row m =
     (case payload m of
        None \<Rightarrow> Undefined
      | Some c \<Rightarrow>
          if length c < 2 then Undefined
          else let num_columns = ntohs c in
            if num_columns = 0
            then Done (Frame.extend (frame_of m)
              \<lparr>dr_num_columns = 0, dr_data = replicate (length c - 2) NUL, dr_parms = []\<rparr>)
            else (case read_data_row_parms (short_count num_columns) (drop 2 c) 0 of
                    None \<Rightarrow> Undefined
                  | Some ps \<Rightarrow> Done (Frame.extend (frame_of m)
                      \<lparr>dr_num_columns = num_columns, dr_data = drop 2 c, dr_parms = ps\<rparr>)))"

text \<open>The column values a caller sees through the \<open>value\<close> pointers.\<close>

definition data_row_values :: "DataRowRead \<Rightarrow> string list" where
  "data_row_values r = map (\<lambda>(len, p). take (unat len) (drop p (dr_data r))) (dr_parms r)"

section \<open>RowDescription\<close>

record RowDescriptionRead = Frame +
  rdr_num_parms :: i16
  rdr_parms :: "RowDescriptionParm list"

text \<open>One column: the name up to its zero byte, then 18 bytes of numbers.\<close>

definition read_row_numbers :: "string \<Rightarrow> string \<Rightarrow> RowDescriptionParm" where
  "read_row_numbers name c =
     \<lparr>rd_name = name, rd_table_id = ntohl c, rd_column_id = ntohs (drop 4 c),
      rd_data_type = ntohl (drop 6 c), rd_data_type_size = ntohs (drop 10 c),
      rd_type_modifier = ntohl (drop 12 c), rd_format_code = ntohs (drop 16 c)\<rparr>"

fun read_row_parms :: "nat \<Rightarrow> string \<Rightarrow> RowDescriptionParm list option" where
  "read_row_parms 0 c = Some []"
| "read_row_parms (Suc k) c =
     (let n = scan_nul c; c' = drop (n + 1) c in
      if n = length c \<or> length c' < 18 then None
      else map_option ((#) (read_row_numbers (take n c) c')) (read_row_parms k (drop 18 c')))"

definition read_row_description :: "BaseMessage \<Rightarrow> (unit, RowDescriptionRead) outcome" where
  "read_row_description m =
     (case payload m of
        None \<Rightarrow> Undefined
      | Some c \<Rightarrow>
          if length c < 2 then Undefined
          else let num_parms = ntohs c in
            (case read_row_parms (short_count num_parms) (drop 2 c) of
               None \<Rightarrow> Undefined
             | Some ps \<Rightarrow> Done (Frame.extend (frame_of m)
                 \<lparr>rdr_num_parms = num_parms, rdr_parms = ps\<rparr>)))"

section \<open>ErrorResponse\<close>

record ErrorResponseRead = Frame +
  err_data :: string
  err_args :: "(char \<times> nat) list"

text \<open>
  The first loop counts the arguments, the second one fills the array; both skip a type byte and
  then stop at a zero byte or at the end of the data.
\<close>

function error_arg_count :: "string \<Rightarrow> nat" where
  "error_arg_count [] = 0"
| "error_arg_count (t # r) = Suc (error_arg_count (drop (Suc (scan_nul r)) r))"
  by pat_completeness auto
termination by (relation "measure length") auto

fun error_arg_refs :: "nat \<Rightarrow> string \<Rightarrow> nat \<Rightarrow> (char \<times> nat) list" where
  "error_arg_refs 0 d p = []"
| "error_arg_refs (Suc k) d p =
     (d ! p, p + 1) # error_arg_refs k d (p + 1 + scan_nul (drop (p + 1) d) + 1)"

definition read_error_response :: "BaseMessage \<Rightarrow> (unit, ErrorResponseRead) outcome" where
  "read_error_response m =
     (case payload m of
        None \<Rightarrow> Undefined
      | Some d \<Rightarrow> Done (Frame.extend (frame_of m)
          \<lparr>err_data = d, err_args = error_arg_refs (error_arg_count d) d 0\<rparr>))"

text \<open>The value of an argument; a pointer past the data has none.\<close>

definition error_arg_values :: "ErrorResponseRead \<Rightarrow> (char \<times> string option) list" where
  "error_arg_values r =
     map (\<lambda>(t, p). (t, if p < length (err_data r) then Some (cstr (drop p (err_data r))) else None))
       (err_args r)"

section \<open>Reading what was built\<close>

lemma read_data_row_parms_fill:
  assumes "list_all data_row_parm_ok ps"
  shows "\<exists>refs. read_data_row_parms (length ps) (pre @ data_row_fill ps) (length pre) = Some refs \<and>
    map (\<lambda>(len, p). take (unat len) (drop p (pre @ data_row_fill ps))) refs =
    map (\<lambda>p. take (unat (dp_length p)) (dp_value p)) ps"
  using assms
proof (induction ps arbitrary: pre)
  case (Cons p ps)
  let ?v = "take (unat (dp_length p)) (dp_value p)"
  let ?pre = "pre @ htonl (dp_length p) @ ?v"
  have len: "length ?v = unat (dp_length p)"
    using Cons.prems by (simp add: data_row_parm_ok_def)
  from Cons.IH [of ?pre] Cons.prems obtain refs
    where refs: "read_data_row_parms (length ps) (?pre @ data_row_fill ps) (length ?pre) = Some refs"
      and vals: "map (\<lambda>(len, p). take (unat len) (drop p (?pre @ data_row_fill ps))) refs =
        map (\<lambda>p. take (unat (dp_length p)) (dp_value p)) ps" by auto
  then show ?case using len by (simp add: Let_def add.assoc)
qed simp

lemma length_take_short_count:
  "short_count n \<le> length ps \<Longrightarrow> length (take (short_count n) ps) = short_count n"
  by simp

lemma read_row_parms_fill:
  "read_row_parms (length ps) (row_description_fill ps) =
     Some (map (\<lambda>p. p\<lparr>rd_name := cstr (rd_name p)\<rparr>) ps)"
  by (induction ps) (simp_all add: Let_def read_row_numbers_def row_description_numbers_def)

lemma error_arg_count_fields:
  "\<forall>(t, v) \<in> set fs. nul_free v \<Longrightarrow> error_arg_count (field_bytes fs @ [NUL]) = Suc (length fs)"
  by (induction fs rule: field_bytes.induct) auto

lemma error_arg_refs_fields:
  assumes "\<forall>(t, v) \<in> set fs. nul_free v"
  shows "\<exists>refs. error_arg_refs (Suc (length fs)) (pre @ field_bytes fs @ [NUL]) (length pre) =
      refs @ [(NUL, length pre + length (field_bytes fs) + 1)] \<and>
    map (\<lambda>(t, p). (t, cstr (drop p (pre @ field_bytes fs @ [NUL])))) refs = fs \<and>
    (\<forall>(t, p) \<in> set refs. p < length (pre @ field_bytes fs @ [NUL]))"
  using assms
proof (induction fs arbitrary: pre rule: field_bytes.induct)
  case (2 t v fs)
  let ?pre = "pre @ t # v @ [NUL]"
  from "2.IH" [of ?pre] "2.prems" obtain refs where refs:
    "error_arg_refs (Suc (length fs)) (?pre @ field_bytes fs @ [NUL]) (length ?pre) =
      refs @ [(NUL, length ?pre + length (field_bytes fs) + 1)]"
    "map (\<lambda>(t, p). (t, cstr (drop p (?pre @ field_bytes fs @ [NUL])))) refs = fs"
    "\<forall>(t, p) \<in> set refs. p < length (?pre @ field_bytes fs @ [NUL])" by auto
  have v: "nul_free v" using "2.prems" by simp
  let ?refs = "(t, length pre + 1) # refs"
  have "error_arg_refs (Suc (length ((t, v) # fs))) (pre @ field_bytes ((t, v) # fs) @ [NUL])
      (length pre) = ?refs @ [(NUL, length pre + length (field_bytes ((t, v) # fs)) + 1)]"
    using refs(1) v by (simp add: nth_append)
  moreover have "map (\<lambda>(u, p). (u, cstr (drop p (pre @ field_bytes ((t, v) # fs) @ [NUL])))) ?refs =
      (t, v) # fs"
    using refs(2) v by simp
  moreover have "\<forall>(u, p) \<in> set ?refs. p < length (pre @ field_bytes ((t, v) # fs) @ [NUL])"
    using refs(3) by auto
  ultimately show ?case by (intro exI [of _ ?refs] conjI)
qed simp

text \<open>Each constructor with the reader of its message.\<close>

lemma data_row_round_trip:
  assumes "fits (DataRow ps n)"
  obtains m r where "make_data_row ps n = Done m" and "framed m" and "read_data_row m = Done r"
    and "f_type r = PSQL_DataRow" and "dr_num_columns r = n"
    and "data_row_values r = map (\<lambda>p. take (unat (dp_length p)) (dp_value p)) (take (short_count n) ps)"
proof -
  let ?ps = "take (short_count n) ps"
  have small: "data_row_size ?ps + 6 < 2 ^ 32" and ok: "list_all data_row_parm_ok ?ps"
    and len: "short_count n \<le> length ps"
    using assms by simp_all
  define m where "m = \<lparr>mtype = PSQL_DataRow, mlength = htonl (of_nat (data_row_size ?ps + 6)),
    mdata = htons n @ data_row_fill ?ps\<rparr>"
  have made: "make_data_row ps n = Done m"
    unfolding m_def using make_data_row_Done [OF len ok small] .
  have fr: "framed m" using small ok by (simp add: m_def framed_def length_data_row_fill)
  have pay: "payload m = Some (htons n @ data_row_fill ?ps)"
    using payload_framed [OF fr] by (simp add: m_def)
  from read_data_row_parms_fill [OF ok, of "[]"] len obtain refs
    where refs: "read_data_row_parms (short_count n) (data_row_fill ?ps) 0 = Some refs"
      and vals: "map (\<lambda>(len, p). take (unat len) (drop p (data_row_fill ?ps))) refs =
        map (\<lambda>p. take (unat (dp_length p)) (dp_value p)) ?ps" by auto
  have vals0: "n = 0 \<Longrightarrow> ?ps = []" by simp
  define r where "r = Frame.extend (frame_of m) \<lparr>dr_num_columns = n,
    dr_data = (if n = 0 then replicate (length (data_row_fill ?ps)) NUL else data_row_fill ?ps),
    dr_parms = (if n = 0 then [] else refs)\<rparr>"
  have "read_data_row m = Done r"
    unfolding read_data_row_def pay r_def using refs by simp
  moreover have "f_type r = PSQL_DataRow" "dr_num_columns r = n"
    by (simp_all add: r_def Frame.defs frame_of_def m_def)
  moreover have "data_row_values r = map (\<lambda>p. take (unat (dp_length p)) (dp_value p)) ?ps"
    using vals vals0 by (simp add: r_def Frame.defs data_row_values_def)
  ultimately show thesis using made fr that by blast
qed

lemma row_description_round_trip:
  assumes "fits (RowDescription ps n)"
  obtains m r where "make_row_description ps n = Done m" and "framed m"
    and "read_row_description m = Done r" and "f_type r = PSQL_RowDescription"
    and "rdr_num_parms r = n"
    and "rdr_parms r = map (\<lambda>p. p\<lparr>rd_name := cstr (rd_name p)\<rparr>) (take (short_count n) ps)"
proof -
  let ?ps = "take (short_count n) ps"
  have small: "row_description_size ?ps + 6 < 2 ^ 32" and len: "short_count n \<le> length ps"
    using assms by simp_all
  define m where "m = \<lparr>mtype = PSQL_RowDescription,
    mlength = htonl (of_nat (row_description_size ?ps + 6)),
    mdata = htons n @ row_description_fill ?ps\<rparr>"
  have made: "make_row_description ps n = Done m"
    unfolding m_def using make_row_description_Done [OF len small] .
  have fr: "framed m" using small by (simp add: m_def framed_def length_row_description_fill)
  have "read_row_parms (short_count n) (row_description_fill ?ps) =
      Some (map (\<lambda>p. p\<lparr>rd_name := cstr (rd_name p)\<rparr>) ?ps)"
    using read_row_parms_fill [of ?ps] len by simp
  then have "read_row_description m = Done (Frame.extend (frame_of m) \<lparr>rdr_num_parms = n,
      rdr_parms = map (\<lambda>p. p\<lparr>rd_name := cstr (rd_name p)\<rparr>) ?ps\<rparr>)"
    using payload_framed [OF fr] by (simp add: read_row_description_def m_def)
  from that [OF made fr this] show thesis by (simp add: Frame.defs frame_of_def m_def)
qed

lemma error_response_round_trip:
  assumes "fits (ErrorMessage sv cd ms as)"
  obtains m r where "make_error_response sv cd ms as = Done m"
    and "read_error_response (BaseMessage.truncate m) = Done r"
    and "f_type r = error_message_type sv"
    and "error_arg_values r =
      map (\<lambda>(t, v). (t, Some v)) (error_fields sv cd ms as) @ [(NUL, None)]"
proof (rule make_error_response_Done)
  show "error_response_size sv cd ms as + 4 < 2 ^ 32" using assms by simp
next
  fix m
  assume made: "make_error_response sv cd ms as = Done m"
    and ty: "mtype m = error_message_type sv"
    and len: "mlength m = htonl (of_nat (error_response_size sv cd ms as + 4))"
    and dat: "mdata m = field_bytes (error_fields sv cd ms as) @ [NUL]"
    and size: "length (mdata m) = error_response_size sv cd ms as"
  let ?fs = "error_fields sv cd ms as" and ?d = "mdata m"
  have "error_response_size sv cd ms as + 4 < 2 ^ 32" using assms by simp
  from make_error_response_framed [OF this] made have "framed (BaseMessage.truncate m)"
    by (metis framed_truncate outcome.inject(2))
  from payload_framed [OF this] have pay: "payload (BaseMessage.truncate m) = Some ?d"
    by (simp add: BaseMessage.truncate_def)
  from error_arg_refs_fields [of ?fs "[]", OF error_fields_nul_free] dat obtain refs
    where refs: "error_arg_refs (Suc (length ?fs)) ?d 0 = refs @ [(NUL, length ?d)]"
      and vals: "map (\<lambda>(t, p). (t, cstr (drop p ?d))) refs = ?fs"
      and bound: "\<forall>(t, p) \<in> set refs. p < length ?d" by auto
  have count: "error_arg_count ?d = Suc (length ?fs)"
    using error_arg_count_fields [OF error_fields_nul_free] dat by simp
  have "map (\<lambda>(t, p). (t, if p < length ?d then Some (cstr (drop p ?d)) else None)) refs =
      map (\<lambda>(t, v). (t, Some v)) (map (\<lambda>(t, p). (t, cstr (drop p ?d))) refs)"
    using bound by auto
  then have vals': "map (\<lambda>(t, p). (t, if p < length ?d then Some (cstr (drop p ?d)) else None)) refs =
      map (\<lambda>(t, v). (t, Some v)) ?fs"
    using vals by simp
  define r where "r = Frame.extend (frame_of (BaseMessage.truncate m))
    \<lparr>err_data = ?d, err_args = refs @ [(NUL, length ?d)]\<rparr>"
  have r: "err_data r = ?d" "err_args r = refs @ [(NUL, length ?d)]" "f_type r = mtype m"
    by (simp_all add: r_def Frame.defs frame_of_def BaseMessage.truncate_def)
  have "read_error_response (BaseMessage.truncate m) = Done r"
    unfolding read_error_response_def pay r_def using refs count by simp
  moreover have "error_arg_values r = map (\<lambda>(t, v). (t, Some v)) ?fs @ [(NUL, None)]"
    unfolding error_arg_values_def r map_append vals' by simp
  moreover have "f_type r = error_message_type sv" using ty r by simp
  ultimately show thesis using that [OF made] by simp
qed

section \<open>The codecs\<close>

lemma command_complete_round_trip:
  assumes "fits (CommandComplete tag)"
  obtains m r where "make_command_complete (Some tag) = Done m" and "framed m"
    and "read_command_complete m = Done r" and "f_type r = PSQL_CommandComplete"
    and "command_tag r = cstr tag"
proof -
  define m where "m = \<lparr>mtype = PSQL_CommandComplete, mlength = htonl (of_nat (length (cstr tag) + 5)),
    mdata = cstr tag @ [NUL]\<rparr>"
  have made: "make_command_complete (Some tag) = Done m"
    using assms by (simp add: make_command_complete_def Let_def m_def add.commute)
  have fr: "framed m" using assms by (simp add: m_def framed_def)
  have "read_command_complete m = Done (Frame.extend (frame_of m) \<lparr>cc_data = cstr tag @ [NUL]\<rparr>)"
    using payload_framed [OF fr] by (simp add: read_command_complete_def m_def)
  from that [OF made fr this] show thesis
    by (simp add: Frame.defs frame_of_def command_tag_def m_def)
qed

interpretation data_row_codec: wire_codec
  "\<lambda>(ps, n). make_data_row ps n" read_data_row "\<lambda>(ps, n). fits (DataRow ps n)"
  "\<lambda>r. (dr_num_columns r, data_row_values r)"
  "\<lambda>(ps, n). (n, map (\<lambda>p. take (unat (dp_length p)) (dp_value p)) (take (short_count n) ps))"
proof (unfold_locales, goal_cases)
  case (1 x)
  then show ?case by (cases x) (auto elim: data_row_round_trip simp del: fits.simps)
next
  case (2 x m)
  then show ?case by (cases x) (auto elim!: data_row_round_trip simp del: fits.simps)
qed

interpretation row_description_codec: wire_codec
  "\<lambda>(ps, n). make_row_description ps n" read_row_description "\<lambda>(ps, n). fits (RowDescription ps n)"
  "\<lambda>r. (rdr_num_parms r, rdr_parms r)"
  "\<lambda>(ps, n). (n, map (\<lambda>p. p\<lparr>rd_name := cstr (rd_name p)\<rparr>) (take (short_count n) ps))"
proof (unfold_locales, goal_cases)
  case (1 x)
  then show ?case by (cases x) (auto elim: row_description_round_trip simp del: fits.simps)
next
  case (2 x m)
  then show ?case by (cases x) (auto elim!: row_description_round_trip simp del: fits.simps)
qed

interpretation command_complete_codec: wire_codec
  "\<lambda>tag. make_command_complete (Some tag)" read_command_complete "\<lambda>tag. fits (CommandComplete tag)"
  command_tag cstr
proof (unfold_locales, goal_cases)
  case (1 x)
  then show ?case by (auto elim: command_complete_round_trip simp del: fits.simps)
next
  case (2 x m)
  then show ?case by (auto elim!: command_complete_round_trip simp del: fits.simps)
qed

interpretation ready_for_query_codec: wire_codec
  "\<lambda>st. Done (make_ready_for_query st)" read_ready_for_query "\<lambda>st. True" rfq_status
  transaction_status_char
  by unfold_locales
    (auto simp: make_ready_for_query_def framed_def read_ready_for_query_def Frame.defs frame_of_def)

interpretation error_response_codec: wire_codec
  "\<lambda>(sv, cd, ms, as). build (ErrorMessage sv cd ms as)" read_error_response
  "\<lambda>(sv, cd, ms, as). fits (ErrorMessage sv cd ms as)"
  "\<lambda>r. (f_type r, error_arg_values r)"
  "\<lambda>(sv, cd, ms, as). (error_message_type sv,
     map (\<lambda>(t, v). (t, Some v)) (error_fields sv cd ms as) @ [(NUL, None)])"
proof (unfold_locales, goal_cases)
  case (1 x)
  then show ?case by (cases x) (auto elim: build_framed simp del: fits.simps build.simps)
next
  case (2 x m)
  obtain sv cd ms as where x: "x = (sv, cd, ms, as)" by (cases x)
  with 2 have "fits (ErrorMessage sv cd ms as)" by simp
  from error_response_round_trip [OF this] 2 x show ?case by force
qed

section \<open>Properties\<close>

text \<open>C20. What \<open>make_data_row\<close> builds, \<open>read_data_row\<close> reads back: the same number of columns and the
  same column values, zero bytes in them included.\<close>

theorem data_row_read_back:
  assumes "fits (DataRow ps n)"
  shows "\<exists>m r. make_data_row ps n = Done m \<and> read_data_row m = Done r \<and> dr_num_columns r = n \<and>
    data_row_values r = map (\<lambda>p. take (unat (dp_length p)) (dp_value p)) (take (short_count n) ps)"
  by (rule data_row_round_trip [OF assms]) blast

theorem data_row_read_back_witness:
  "fits (DataRow [\<lparr>dp_length = 2, dp_value = ''abc''\<rparr>, \<lparr>dp_length = 1, dp_value = [NUL]\<rparr>] 2) \<and>
   (\<exists>m r. make_data_row [\<lparr>dp_length = 2, dp_value = ''abc''\<rparr>, \<lparr>dp_length = 1, dp_value = [NUL]\<rparr>] 2 = Done m \<and>
      read_data_row m = Done r \<and> data_row_values r = [''ab'', [NUL]])"
proof -
  have *: "fits (DataRow [\<lparr>dp_length = 2, dp_value = ''abc''\<rparr>, \<lparr>dp_length = 1, dp_value = [NUL]\<rparr>] 2)"
    by (simp add: data_row_parm_ok_def data_row_size_def)
  from data_row_read_back [OF this] show ?thesis using * by auto
qed

text \<open>C21. What \<open>make_row_description\<close> builds, \<open>read_row_description\<close> reads back: every column with its
  name and its six numbers.\<close>

theorem row_description_read_back:
  assumes "fits (RowDescription ps n)"
  shows "\<exists>m r. make_row_description ps n = Done m \<and> read_row_description m = Done r \<and>
    rdr_num_parms r = n \<and>
    rdr_parms r = map (\<lambda>p. p\<lparr>rd_name := cstr (rd_name p)\<rparr>) (take (short_count n) ps)"
  by (rule row_description_round_trip [OF assms]) blast

theorem row_description_read_back_witness:
  "fits (RowDescription [\<lparr>rd_name = ''id'', rd_table_id = 7, rd_column_id = 1, rd_data_type = 23,
      rd_data_type_size = 4, rd_type_modifier = -1, rd_format_code = 0\<rparr>] 1) \<and>
   (\<exists>m r. make_row_description [\<lparr>rd_name = ''id'', rd_table_id = 7, rd_column_id = 1, rd_data_type = 23,
      rd_data_type_size = 4, rd_type_modifier = -1, rd_format_code = 0\<rparr>] 1 = Done m \<and>
      read_row_description m = Done r \<and> map rd_name (rdr_parms r) = [''id''] \<and>
      map rd_type_modifier (rdr_parms r) = [-1])"
proof -
  let ?p = "\<lparr>rd_name = ''id'', rd_table_id = 7, rd_column_id = 1, rd_data_type = 23,
      rd_data_type_size = 4, rd_type_modifier = -1, rd_format_code = 0\<rparr>"
  have *: "fits (RowDescription [?p] 1)" by (simp add: row_description_size_def)
  from row_description_read_back [OF this] show ?thesis using * by auto
qed

text \<open>C22. What \<open>make_error_response\<close> builds, \<open>read_error_response\<close> reads back: severity, SQLSTATE code,
  message and the optional arguments, in this order, followed by one more argument that is not in
  the message: the terminating zero byte is taken for a type, and its value lies outside the data.\<close>

theorem error_response_read_back:
  assumes "fits (ErrorMessage severity code message args)"
  shows "\<exists>m r. make_error_response severity code message args = Done m \<and>
    read_error_response (BaseMessage.truncate m) = Done r \<and>
    f_type r = error_message_type severity \<and>
    error_arg_values r =
      map (\<lambda>(t, v). (t, Some v)) (error_fields severity code message args) @ [(NUL, None)]"
  by (rule error_response_round_trip [OF assms]) blast

theorem error_response_read_back_witness:
  "fits (ErrorMessage PSQL_Error_ERROR PSQL_Code_Syntax_Error ''bad''
      [\<lparr>ea_type = PSQL_Error_Detail, ea_value = ''x''\<rparr>]) \<and>
   (\<exists>m r. make_error_response PSQL_Error_ERROR PSQL_Code_Syntax_Error ''bad''
        [\<lparr>ea_type = PSQL_Error_Detail, ea_value = ''x''\<rparr>] = Done m \<and>
      read_error_response (BaseMessage.truncate m) = Done r \<and>
      error_arg_values r = [(CHR ''S'', Some ''ERROR''), (CHR ''C'', Some ''42601''),
        (CHR ''M'', Some ''bad''), (CHR ''D'', Some ''x''), (NUL, None)])"
proof -
  let ?a = "[\<lparr>ea_type = PSQL_Error_Detail, ea_value = ''x''\<rparr>]"
  have *: "fits (ErrorMessage PSQL_Error_ERROR PSQL_Code_Syntax_Error ''bad'' ?a)"
    by (simp add: error_response_size_def error_args_size_def)
  from error_response_read_back [OF this] show ?thesis using * by (auto simp: error_fields_def)
qed

end
