(* ===== verification/Session_IO.thy ===== *)
theory Session_IO
  imports Backend_Readers
begin

text \<open>
  Byte transport: \<open>read_bytes\<close>, \<open>read_message\<close>, \<open>send_bytes\<close> and \<open>send_message\<close>. The socket (and
  the TLS library) is the environment: what successive calls of \<open>recv\<close> and \<open>send\<close> do is a list of
  events, and a call that finds the list empty blocks. Received bytes come in chunks of any size;
  a chunk longer than the request is split and its rest stays in front.
\<close>

section \<open>The network\<close>

datatype errno = EINTR | ECONNRESET | EPIPE | Other_errno i32

datatype net_event = Received string | Want_read | Closed | Net_error errno

datatype read_result =
    Read_ok string "net_event list"
  | Read_error int octo_error
  | Read_fatal octo_error
  | Read_blocked

fun prepend_bytes :: "string \<Rightarrow> read_result \<Rightarrow> read_result" where
  "prepend_bytes bs (Read_ok r evs) = Read_ok (bs @ r) evs"
| "prepend_bytes bs r = r"

section \<open>Reading\<close>

text \<open>
  The loops of \<open>read_bytes\<close>, for a plain socket and for TLS. An interrupted call is repeated. On a
  plain socket an empty read means that the peer has closed the connection; the TLS loop takes an
  empty read as progress of zero bytes and sees the end of the connection as \<open>ECONNRESET\<close>.
  \<open>Want_read\<close> is a result of the TLS library only, an empty chunk is no event of a plain socket:
  both are passed over.
\<close>

fun recv_loop :: "bool \<Rightarrow> net_event list \<Rightarrow> nat \<Rightarrow> read_result" where
  "recv_loop tls evs 0 = Read_ok [] evs"
| "recv_loop tls [] (Suc n) = Read_blocked"
| "recv_loop tls (Want_read # evs) (Suc n) = recv_loop tls evs (Suc n)"
| "recv_loop tls (Closed # evs) (Suc n) =
     (if tls then recv_loop tls evs (Suc n)
      else Read_error (-2) (Trace ERR_ROCTO_CLEAN_DISCONNECT))"
| "recv_loop tls (Net_error e # evs) (Suc n) =
     (if e = EINTR then recv_loop tls evs (Suc n)
      else if tls then
        (if e = ECONNRESET then Read_error (-2) (Trace ERR_ROCTO_CLEAN_DISCONNECT)
         else Read_fatal (Internal ERR_ROCTO_TLS_READ_FAILED))
      else Read_error (-1) (System ERR_SYSCALL))"
| "recv_loop tls (Received bs # evs) (Suc n) =
     (if length bs \<le> Suc n then prepend_bytes bs (recv_loop tls evs (Suc n - length bs))
      else Read_ok (take (Suc n) bs) (Received (drop (Suc n) bs) # evs))"

definition read_bytes :: "bool \<Rightarrow> net_event list \<Rightarrow> int \<Rightarrow> int \<Rightarrow> read_result" where
  "read_bytes ssl_active evs buffer_size bytes_to_read =
     (if bytes_to_read > buffer_size then Read_error (-1) (Data ERR_READ_TOO_LARGE)
      else if bytes_to_read < 0 then Read_error (-1) (Data ERR_INVALID_READ_SIZE)
      else recv_loop ssl_active evs (nat bytes_to_read))"

text \<open>
  \<open>read_message\<close> reads the five header bytes and then the data behind them in the same buffer. The
  second bound is the size of the whole buffer, so a read that it accepts may run past the end:
  \<open>Message_overflow\<close>.
\<close>

datatype message_result =
    Message BaseMessage "net_event list"
  | No_message int octo_error
  | Message_fatal octo_error
  | Message_blocked
  | Message_overflow

definition read_message :: "bool \<Rightarrow> net_event list \<Rightarrow> int \<Rightarrow> message_result" where
  "read_message ssl_active evs buffer_size =
     (case read_bytes ssl_active evs buffer_size 5 of
        Read_blocked \<Rightarrow> Message_blocked
      | Read_fatal e \<Rightarrow> Message_fatal e
      | Read_error c e \<Rightarrow> No_message c e
      | Read_ok hdr evs1 \<Rightarrow>
          let len = ntohl (drop 1 hdr) in
          (case read_bytes ssl_active evs1 buffer_size (sint (len - 4)) of
             Read_blocked \<Rightarrow> Message_blocked
           | Read_fatal e \<Rightarrow> Message_fatal e
           | Read_error c e \<Rightarrow> No_message c e
           | Read_ok dat evs2 \<Rightarrow>
               if buffer_size < 5 + int (length dat) then Message_overflow
               else Message \<lparr>mtype = hd hdr, mlength = drop 1 hdr, mdata = dat\<rparr> evs2))"

section \<open>Sending\<close>

text \<open>
  The events of \<open>send\<close>: the socket takes some bytes, or the call fails. The result has the bytes that
  went out.
\<close>

datatype send_event = Accepted nat | Send_failed errno

datatype send_result =
    Send_status int string
  | Send_fatal octo_error string
  | Send_blocked string

fun after_sending :: "string \<Rightarrow> send_result \<Rightarrow> send_result" where
  "after_sending bs (Send_status c s) = Send_status c (bs @ s)"
| "after_sending bs (Send_fatal e s) = Send_fatal e (bs @ s)"
| "after_sending bs (Send_blocked s) = Send_blocked (bs @ s)"

fun send_loop :: "send_event list \<Rightarrow> string \<Rightarrow> send_result" where
  "send_loop evs [] = Send_status 0 []"
| "send_loop [] (c # cs) = Send_blocked []"
| "send_loop (Accepted k # evs) (c # cs) =
     after_sending (take k (c # cs)) (send_loop evs (drop k (c # cs)))"
| "send_loop (Send_failed e # evs) (c # cs) =
     (if e = EINTR then send_loop evs (c # cs)
      else if e = ECONNRESET \<or> e = EPIPE then Send_status 1 []
      else Send_fatal (System ERR_SYSCALL) [])"

text \<open>
  With TLS there is one call of \<open>gtm_tls_send\<close>, whose result and error number are parameters
  (\<open>None\<close> stands for the library's own error, which it reports as the error number -1).
\<close>

definition tls_send_bytes :: "int \<Rightarrow> errno option \<Rightarrow> string \<Rightarrow> send_result" where
  "tls_send_bytes result tls_errno message =
     (if result \<le> 0 then
        (if result = -1 then
           (case tls_errno of
              None \<Rightarrow> Send_fatal (Internal ERR_ROCTO_TLS_WRITE_FAILED) []
            | Some e \<Rightarrow> if e = ECONNRESET \<or> e = EPIPE then Send_status 1 []
                        else Send_fatal (System ERR_SYSCALL) [])
         else Send_status 1 [])
      else Send_status 0 (take (nat result) message))"

definition send_bytes :: "send_event list \<Rightarrow> string \<Rightarrow> u64 \<Rightarrow> (unit, send_result) outcome" where
  "send_bytes evs message len =
     (let to_write = sint (ucast len :: i32) in
      if int (length message) < to_write then Undefined
      else Done (send_loop evs (take (nat to_write) message)))"

text \<open>\<open>ntohl (length) + 1\<close> is an \<open>unsigned int\<close>.\<close>

definition send_message :: "send_event list \<Rightarrow> BaseMessage \<Rightarrow> (unit, send_result) outcome" where
  "send_message evs m = send_bytes evs (wire_image m) (ucast (ntohl (mlength m) + 1))"

section \<open>What the loops do\<close>

text \<open>
  The bytes that arrive before the connection ends, and how it ends. \<open>ends\<close> tells which event ends
  a connection for each kind of socket.
\<close>

definition ends :: "bool \<Rightarrow> net_event \<Rightarrow> bool" where
  "ends tls ev = (case ev of
     Received _ \<Rightarrow> False | Want_read \<Rightarrow> False | Closed \<Rightarrow> \<not> tls | Net_error e \<Rightarrow> e \<noteq> EINTR)"

fun incoming :: "bool \<Rightarrow> net_event list \<Rightarrow> string" where
  "incoming tls [] = []"
| "incoming tls (ev # evs) =
     (if ends tls ev then []
      else (case ev of Received bs \<Rightarrow> bs @ incoming tls evs | _ \<Rightarrow> incoming tls evs))"

definition closing :: "bool \<Rightarrow> net_event list \<Rightarrow> net_event option" where
  "closing tls evs = find (ends tls) evs"

definition closing_result :: "bool \<Rightarrow> net_event option \<Rightarrow> read_result" where
  "closing_result tls ev = (case ev of
     None \<Rightarrow> Read_blocked
   | Some (Net_error e) \<Rightarrow>
       if tls then
         (if e = ECONNRESET then Read_error (-2) (Trace ERR_ROCTO_CLEAN_DISCONNECT)
          else Read_fatal (Internal ERR_ROCTO_TLS_READ_FAILED))
       else Read_error (-1) (System ERR_SYSCALL)
   | Some _ \<Rightarrow> Read_error (-2) (Trace ERR_ROCTO_CLEAN_DISCONNECT))"

lemma prepend_closing [simp]: "prepend_bytes bs (closing_result tls ev) = closing_result tls ev"
  by (auto simp: closing_result_def split: option.splits net_event.splits)

lemma closing_simps [simp]:
  "closing tls [] = None"
  "closing tls (ev # evs) = (if ends tls ev then Some ev else closing tls evs)"
  by (simp_all add: closing_def)

lemma closing_result_simps [simp]:
  "closing_result tls None = Read_blocked"
  "closing_result tls (Some Closed) = Read_error (-2) (Trace ERR_ROCTO_CLEAN_DISCONNECT)"
  by (simp_all add: closing_result_def)

lemma recv_loop_short:
  "length (incoming tls evs) < n \<Longrightarrow> recv_loop tls evs n = closing_result tls (closing tls evs)"
proof (induction tls evs n rule: recv_loop.induct)
  case (5 tls e evs n)
  then show ?case by (simp add: ends_def closing_result_def split: if_splits)
qed (simp_all add: ends_def split: if_splits)

lemma recv_loop_enough:
  "n \<le> length (incoming tls evs) \<Longrightarrow>
   \<exists>evs'. recv_loop tls evs n = Read_ok (take n (incoming tls evs)) evs' \<and>
     incoming tls evs' = drop n (incoming tls evs) \<and> closing tls evs' = closing tls evs"
proof (induction tls evs n rule: recv_loop.induct)
  case (6 tls bs evs n)
  show ?case
  proof (cases "length bs \<le> Suc n")
    case True
    with 6 show ?thesis by (fastforce simp: ends_def)
  next
    case False
    then show ?thesis by (simp add: ends_def)
  qed
qed (auto simp: ends_def split: if_splits)

lemma read_bytes_enough:
  assumes "0 \<le> n" and "n \<le> bsize" and "nat n \<le> length (incoming tls evs)"
  obtains evs' where "read_bytes tls evs bsize n = Read_ok (take (nat n) (incoming tls evs)) evs'"
    and "incoming tls evs' = drop (nat n) (incoming tls evs)" and "closing tls evs' = closing tls evs"
  using recv_loop_enough [OF assms(3)] assms(1,2) that by (auto simp: read_bytes_def)

lemma send_loop_prefix:
  "\<exists>k. (send_loop evs m = Send_status 0 m \<or>
        (\<exists>r \<in> {Send_status 1, Send_fatal (System ERR_SYSCALL), Send_blocked}.
           send_loop evs m = r (take k m)))"
proof (induction evs m rule: send_loop.induct)
  case (3 k evs c cs)
  let ?m = "c # cs"
  from 3 obtain j where j: "send_loop evs (drop k ?m) = Send_status 0 (drop k ?m) \<or>
      (\<exists>r \<in> {Send_status 1, Send_fatal (System ERR_SYSCALL), Send_blocked}.
         send_loop evs (drop k ?m) = r (take j (drop k ?m)))" by blast
  have "take k ?m @ take j (drop k ?m) = take (k + j) ?m" by (simp only: take_add)
  with j have "after_sending (take k ?m) (send_loop evs (drop k ?m)) = Send_status 0 ?m \<or>
      (\<exists>r \<in> {Send_status 1, Send_fatal (System ERR_SYSCALL), Send_blocked}.
         after_sending (take k ?m) (send_loop evs (drop k ?m)) = r (take (k + j) ?m))"
    by (elim disjE bexE insertE emptyE)
      (simp_all only: after_sending.simps append_take_drop_id, simp_all)
  then show ?case unfolding send_loop.simps by blast
next
  case (4 e evs c cs)
  then show ?case by (auto intro: exI [of _ 0])
qed auto

text \<open>What the socket is ready to take before the first failure that is not an interruption.\<close>

fun acceptance :: "send_event list \<Rightarrow> nat" where
  "acceptance [] = 0"
| "acceptance (Accepted k # evs) = k + acceptance evs"
| "acceptance (Send_failed e # evs) = (if e = EINTR then acceptance evs else 0)"

lemma send_loop_complete: "length m \<le> acceptance evs \<Longrightarrow> send_loop evs m = Send_status 0 m"
proof (induction evs m rule: send_loop.induct)
  case (3 k evs c cs)
  then have "send_loop evs (drop k (c # cs)) = Send_status 0 (drop k (c # cs))" by simp
  then show ?case by (simp del: drop_Cons take_Cons)
qed (auto split: if_splits)

section \<open>Messages over the network\<close>

lemma sint_payload:
  fixes w :: u32
  assumes "unat w = n + 4" and "n < 2 ^ 31"
  shows "sint (w - 4) = int n"
proof -
  have "unat (w - 4) = n" using assms by (simp add: unat_sub_if')
  with assms(2) show ?thesis using sint_u32_small [of "w - 4"] by simp
qed

text \<open>
  Whatever the chunks are, \<open>read_message\<close> returns exactly the next message of the stream and leaves
  what follows it.
\<close>

lemma read_message_next:
  assumes fr: "framed m" and str: "incoming tls evs = wire_image m @ rest"
    and fit: "int (length (wire_image m)) \<le> bsize" and small: "bsize < 2 ^ 31"
  obtains evs' where "read_message tls evs bsize = Message m evs'"
    and "incoming tls evs' = rest" and "closing tls evs' = closing tls evs"
proof -
  have hl: "length (mlength m) = 4" and dl: "unat (ntohl (mlength m)) = length (mdata m) + 4"
    using fr by (simp_all add: framed_def)
  have im: "int (length (mdata m)) + 5 \<le> bsize" using fit hl by (simp add: wire_image_def)
  from read_bytes_enough [of 5 bsize tls evs] im str hl obtain evs1
    where r1: "read_bytes tls evs bsize 5 = Read_ok (take 5 (incoming tls evs)) evs1"
      and s1: "incoming tls evs1 = drop 5 (incoming tls evs)"
      and c1: "closing tls evs1 = closing tls evs"
    by (auto simp: wire_image_def)
  have hdr: "take 5 (incoming tls evs) = mtype m # mlength m"
    and str1: "incoming tls evs1 = mdata m @ rest"
    using str s1 hl by (simp_all add: wire_image_def)
  have len: "sint (ntohl (mlength m) - 4) = int (length (mdata m))"
    using dl im small by (intro sint_payload) auto
  from read_bytes_enough [of "int (length (mdata m))" bsize tls evs1] im str1 obtain evs2
    where "read_bytes tls evs1 bsize (int (length (mdata m))) = Read_ok (mdata m) evs2"
      and "incoming tls evs2 = rest" and "closing tls evs2 = closing tls evs1"
    by auto
  with r1 hdr len im c1 show thesis by (intro that [of evs2]) (simp_all add: read_message_def)
qed

text \<open>Several messages in a row.\<close>

fun read_messages :: "bool \<Rightarrow> int \<Rightarrow> nat \<Rightarrow> net_event list \<Rightarrow> BaseMessage list option" where
  "read_messages tls bsize 0 evs = Some []"
| "read_messages tls bsize (Suc n) evs =
     (case read_message tls evs bsize of
        Message m evs' \<Rightarrow> map_option ((#) m) (read_messages tls bsize n evs')
      | _ \<Rightarrow> None)"

lemma read_messages_stream:
  assumes "bsize < 2 ^ 31"
    and "\<forall>m \<in> set ms. framed m \<and> int (length (wire_image m)) \<le> bsize"
    and "incoming tls evs = concat (map wire_image ms) @ rest"
  shows "read_messages tls bsize (length ms) evs = Some ms"
  using assms(2,3)
proof (induction ms arbitrary: evs)
  case (Cons m ms)
  then have "incoming tls evs = wire_image m @ (concat (map wire_image ms) @ rest)" by simp
  from read_message_next [OF _ this _ assms(1)] Cons.prems obtain evs'
    where "read_message tls evs bsize = Message m evs'"
      and "incoming tls evs' = concat (map wire_image ms) @ rest" by auto
  with Cons show ?case by simp
qed simp

lemma send_message_bytes:
  assumes fr: "framed m" and small: "length (wire_image m) < 2 ^ 31"
  shows "send_message evs m = Done (send_loop evs (wire_image m))"
proof -
  let ?w = "ntohl (mlength m)"
  have len: "length (wire_image m) = unat ?w + 1" by (rule framed_image_length [OF fr])
  with small have w1: "unat (?w + 1) = unat ?w + 1"
    by (subst unat_plus_simple [THEN iffD1]) (simp_all add: no_olen_add_nat)
  have "ucast (ucast (?w + 1) :: u64) = (?w + 1 :: i32)" by (rule bit_word_eqI) (simp add: bit_simps)
  moreover have "sint (?w + 1) = int (length (wire_image m))"
    using sint_u32_small [of "?w + 1"] w1 len small by simp
  ultimately show ?thesis by (simp add: send_message_def send_bytes_def Let_def)
qed

section \<open>Delivery\<close>

text \<open>
  A message of a codec that is written to one end of a connection and arrives at the other, in
  chunks of any size, is decoded to what was encoded.
\<close>

context wire_codec
begin

lemma delivered:
  assumes "valid x" and enc: "enc x = Done m"
    and fit: "int (length (wire_image m)) \<le> bsize" and small: "bsize < 2 ^ 31"
    and acc: "length (wire_image m) \<le> acceptance sevs"
  shows "\<exists>sent. send_message sevs m = Done (Send_status 0 sent) \<and>
    (\<forall>evs rest. incoming tls evs = sent @ rest \<longrightarrow>
      (\<exists>evs' r. read_message tls evs bsize = Message m evs' \<and> incoming tls evs' = rest \<and>
        dec m = Done r \<and> view r = meaning x))"
proof -
  from enc_framed [OF assms(1)] enc have fr: "framed m" by auto
  from dec_enc [OF assms(1) enc] obtain r where r: "dec m = Done r" "view r = meaning x" by blast
  have "send_message sevs m = Done (Send_status 0 (wire_image m))"
    using send_message_bytes [OF fr] send_loop_complete [OF acc] fit small by simp
  moreover have "\<exists>evs' r. read_message tls evs bsize = Message m evs' \<and> incoming tls evs' = rest \<and>
      dec m = Done r \<and> view r = meaning x" if "incoming tls evs = wire_image m @ rest" for evs rest
    using read_message_next [OF fr that fit small] r by metis
  ultimately show ?thesis by blast
qed

end

section \<open>Properties\<close>

text \<open>C11. However the network cuts a stream into chunks, and whether or not calls are interrupted,
  \<open>read_message\<close> called repeatedly returns the messages of the stream one by one, unchanged and in
  order, provided each is framed and fits the buffer together with its header.\<close>

theorem stream_is_read_in_order:
  assumes "bsize < 2 ^ 31"
    and "\<forall>m \<in> set ms. framed m \<and> int (length (wire_image m)) \<le> bsize"
    and "incoming tls evs = concat (map wire_image ms) @ rest"
  shows "read_messages tls bsize (length ms) evs = Some ms"
  by (rule read_messages_stream [OF assms])

theorem stream_is_read_in_order_witness:
  "read_messages False 64 2 [Received (''Z'' @ htonl 5), Net_error EINTR, Received ''I2'',
     Received (htonl 4), Closed] =
   Some [make_ready_for_query PSQL_TransactionStatus_IDLE, make_bind_complete]"
proof -
  let ?ms = "[make_ready_for_query PSQL_TransactionStatus_IDLE, make_bind_complete]"
  have fit: "\<forall>m \<in> set ?ms. framed m \<and> int (length (wire_image m)) \<le> 64"
    by (simp add: wire_defs framed_def wire_image_def)
  have str: "incoming False [Received (''Z'' @ htonl 5), Net_error EINTR, Received ''I2'',
      Received (htonl 4), Closed] = concat (map wire_image ?ms) @ []"
    by (simp add: wire_defs wire_image_def ends_def)
  have two: "length ?ms = 2" by simp
  show ?thesis using stream_is_read_in_order [OF _ fit str] unfolding two by simp
qed

text \<open>C25. \<open>read_bytes\<close> on every stream: with enough bytes before the connection ends it returns exactly
  the bytes asked for and leaves the rest; otherwise its result is the one for the way the
  connection ended (-2 for a closed connection, -1 for a failed call, the end of the process for a
  TLS failure).\<close>

theorem read_bytes_correct:
  assumes "0 \<le> n" and "n \<le> bsize"
  shows "if nat n \<le> length (incoming tls evs)
    then \<exists>evs'. read_bytes tls evs bsize n = Read_ok (take (nat n) (incoming tls evs)) evs' \<and>
           incoming tls evs' = drop (nat n) (incoming tls evs)
    else read_bytes tls evs bsize n = closing_result tls (closing tls evs)"
proof (cases "nat n \<le> length (incoming tls evs)")
  case True
  from read_bytes_enough [OF assms this] show ?thesis using True by metis
next
  case False
  then show ?thesis using recv_loop_short [of tls evs "nat n"] assms by (simp add: read_bytes_def)
qed

theorem read_bytes_correct_witness:
  "read_bytes False [Received ''ab'', Closed] 8 3 = Read_error (-2) (Trace ERR_ROCTO_CLEAN_DISCONNECT)"
  using read_bytes_correct [of 3 8 False "[Received ''ab'', Closed]"]
  by (simp add: ends_def)



text \<open>C23. A data row that is built, sent and received in chunks of any size arrives with the same
  column values.\<close>

theorem data_row_delivered:
  assumes "fits (DataRow ps n)" and "make_data_row ps n = Done m"
    and "int (length (wire_image m)) \<le> bsize" and "bsize < 2 ^ 31"
    and "length (wire_image m) \<le> acceptance sevs"
  shows "\<exists>sent. send_message sevs m = Done (Send_status 0 sent) \<and>
    (\<forall>evs rest. incoming tls evs = sent @ rest \<longrightarrow>
      (\<exists>evs' r. read_message tls evs bsize = Message m evs' \<and> incoming tls evs' = rest \<and>
        read_data_row m = Done r \<and> dr_num_columns r = n \<and>
        data_row_values r = map (\<lambda>p. take (unat (dp_length p)) (dp_value p)) (take (short_count n) ps)))"
  using data_row_codec.delivered [of "(ps, n)" m bsize sevs tls] assms by auto

theorem data_row_delivered_witness:
  "\<exists>m sent. make_data_row [\<lparr>dp_length = 2, dp_value = ''hi''\<rparr>] 1 = Done m \<and>
     send_message [Accepted 3, Accepted 30] m = Done (Send_status 0 sent)"
proof -
  have fits: "fits (DataRow [\<lparr>dp_length = 2, dp_value = ''hi''\<rparr>] 1)"
    by (simp add: data_row_parm_ok_def data_row_size_def)
  have made: "make_data_row [\<lparr>dp_length = 2, dp_value = ''hi''\<rparr>] 1 =
      Done \<lparr>mtype = PSQL_DataRow, mlength = htonl 12, mdata = htons 1 @ htonl 2 @ ''hi''\<rparr>"
    by (simp add: make_data_row_def data_row_parm_ok_def)
  from data_row_delivered [OF fits made, of 100 "[Accepted 3, Accepted 30]" False] made
  show ?thesis by (auto simp: wire_image_def)
qed

text \<open>C29. \<open>read_message\<close> bounds the second read by the size of the whole buffer although five bytes of
  it hold the header: every framed message that is at most five bytes too long for the buffer is
  accepted and written past its end.\<close>

theorem read_message_overflows:
  assumes "framed m" and "incoming tls evs = wire_image m" and "5 \<le> bsize" and "bsize < 2 ^ 31"
    and "bsize < int (length (wire_image m))" and "int (length (wire_image m)) \<le> bsize + 5"
  shows "read_message tls evs bsize = Message_overflow"
proof -
  have hl: "length (mlength m) = 4" and dl: "unat (ntohl (mlength m)) = length (mdata m) + 4"
    using assms(1) by (simp_all add: framed_def)
  have im: "int (length (mdata m)) \<le> bsize" "bsize < 5 + int (length (mdata m))"
    using assms(5,6) hl by (simp_all add: wire_image_def)
  have "5 \<le> length (incoming tls evs)" using assms(2) hl by (simp add: wire_image_def)
  with read_bytes_enough [of 5 bsize tls evs] assms(3) obtain evs1
    where r1: "read_bytes tls evs bsize 5 = Read_ok (take 5 (incoming tls evs)) evs1"
      and s1: "incoming tls evs1 = drop 5 (incoming tls evs)" by auto
  have hdr: "take 5 (incoming tls evs) = mtype m # mlength m" and str1: "incoming tls evs1 = mdata m"
    using assms(2) s1 hl by (simp_all add: wire_image_def)
  have len: "sint (ntohl (mlength m) - 4) = int (length (mdata m))"
    using dl im assms(4) by (intro sint_payload) auto
  from read_bytes_enough [of "int (length (mdata m))" bsize tls evs1] im str1 obtain evs2
    where "read_bytes tls evs1 bsize (int (length (mdata m))) = Read_ok (mdata m) evs2" by auto
  with r1 hdr len im show ?thesis by (simp add: read_message_def)
qed

theorem read_message_overflows_witness:
  "framed \<lparr>mtype = PSQL_Query, mlength = htonl 12, mdata = ''select 1''\<rparr> \<and>
   read_message False [Received (''Q'' @ htonl 12 @ ''select 1'')] 8 = Message_overflow"
proof -
  let ?m = "\<lparr>mtype = PSQL_Query, mlength = htonl 12, mdata = ''select 1''\<rparr>"
  have fr: "framed ?m" by (simp add: framed_def)
  have "incoming False [Received (''Q'' @ htonl 12 @ ''select 1'')] = wire_image ?m"
    by (simp add: wire_image_def ends_def)
  from read_message_overflows [OF fr this, of 8] fr show ?thesis by (simp add: wire_image_def)
qed

end
