(* ===== verification/Wire_Readers.thy ===== *)
theory Wire_Readers
  imports Session_IO
begin

text \<open>
  The readers of the client's messages: \<open>read_parse\<close>, \<open>read_execute\<close>, \<open>read_query\<close>,
  \<open>read_describe\<close>, \<open>read_close\<close>, \<open>read_password_message\<close>, \<open>read_flush\<close>, \<open>read_sync\<close> and
  \<open>read_terminate\<close> of \<open>src/rocto\<close> (\<open>read_bind\<close> has a theory of its own). Each copies the message into
  a fresh allocation and walks over it; how many bytes lie behind the copied data, all of them
  zero, is different from reader to reader, and a read behind them is \<open>Undefined\<close>. A message is
  accepted exactly if it has the form the PostgreSQL protocol prescribes, which is the contract
  \<open>frontend_reader\<close> at the end.
\<close>

section \<open>Errors\<close>

text \<open>
  A reader reports an error with \<open>format_error_string\<close> on a fresh buffer, followed by
  \<open>make_error_response\<close> without further arguments.
\<close>

record reader_error =
  re_severity :: PSQL_ErrorSeverity
  re_code :: PSQL_SQLSTATECode
  re_error :: octo_error
  re_args :: "fmt_arg list"

abbreviation protocol_error :: "octo_error \<Rightarrow> fmt_arg list \<Rightarrow> reader_error" where
  "protocol_error e args \<equiv> \<lparr>re_severity = PSQL_Error_ERROR, re_code = PSQL_Code_Protocol_Violation,
     re_error = e, re_args = args\<rparr>"

abbreviation protocol_warning :: "octo_error \<Rightarrow> fmt_arg list \<Rightarrow> reader_error" where
  "protocol_warning e args \<equiv> \<lparr>re_severity = PSQL_Error_WARNING, re_code = PSQL_Code_Protocol_Violation,
     re_error = e, re_args = args\<rparr>"

abbreviation syntax_report :: "octo_error \<Rightarrow> fmt_arg list \<Rightarrow> reader_error" where
  "syntax_report e args \<equiv> \<lparr>re_severity = PSQL_Error_ERROR, re_code = PSQL_Code_Syntax_Error,
     re_error = e, re_args = args\<rparr>"

abbreviation "INVALID_TYPE \<equiv> Connection ERR_ROCTO_INVALID_TYPE"
abbreviation "TRAILING_CHARS \<equiv> Connection ERR_ROCTO_TRAILING_CHARS"
abbreviation "MISSING_NULL \<equiv> Data ERR_ROCTO_MISSING_NULL"
abbreviation "MISSING_DATA \<equiv> Data ERR_ROCTO_MISSING_DATA"
abbreviation "INVALID_NUMBER \<equiv> Data ERR_ROCTO_INVALID_NUMBER"
abbreviation "INVALID_CHAR_VALUE \<equiv> Data ERR_ROCTO_INVALID_CHAR_VALUE"
abbreviation "INVALID_INT_VALUE \<equiv> Data ERR_ROCTO_INVALID_INT_VALUE"
abbreviation "TOO_MANY_VALUES \<equiv> Data ERR_ROCTO_TOO_MANY_VALUES"
abbreviation "TOO_FEW_VALUES \<equiv> Data ERR_ROCTO_TOO_FEW_VALUES"

definition reader_error_response ::
  "nat \<Rightarrow> ErrorBuffer \<Rightarrow> reader_error \<Rightarrow> (unit, ErrorResponse) outcome" where
  "reader_error_response max_str_const eb e =
     (case format_error_string max_str_const (eb\<lparr>eb_offset := 0\<rparr>) (re_error e) (re_args e) of
        Undefined \<Rightarrow> Undefined
      | Failed f \<Rightarrow> Failed f
      | Done (p, eb') \<Rightarrow>
          make_error_response (re_severity e) (re_code e) (error_text eb' p) [])"

section \<open>The copied data\<close>

text \<open>
  The declared length, whether the message holds what it declares, and the data behind the length
  field.
\<close>

definition declared :: "BaseMessage \<Rightarrow> nat" where
  "declared m = unat (ntohl (mlength m))"

definition copyable :: "BaseMessage \<Rightarrow> bool" where
  "copyable m \<longleftrightarrow> declared m \<le> length (mdata m) + 4"

definition body :: "BaseMessage \<Rightarrow> string" where
  "body m = take (declared m - 4) (mdata m)"

lemma framed_body:
  assumes "framed m"
  shows "copyable m" and "body m = mdata m" and "declared m = length (mdata m) + 4"
  using assms by (simp_all add: framed_def copyable_def body_def declared_def)

section \<open>Parse\<close>

record Parse =
  p_dest :: string
  p_query :: string
  p_num_parm_data_types :: i16
  p_parm_data_types :: "u32 list"

definition read_parse :: "BaseMessage \<Rightarrow> (reader_error, Parse) outcome" where
  "read_parse m =
     (if \<not> copyable m then Undefined
      else if mtype m \<noteq> PSQL_Parse then
        Failed (protocol_error INVALID_TYPE [ArgS ''Parse'', ArgC (mtype m), ArgC PSQL_Parse])
      else if declared m < 4 then Undefined
      else
        let d = body m; dest_end = scan_nul d in
        if dest_end = length d then
          Failed (protocol_error MISSING_NULL [ArgS ''Parse'', ArgS ''destination''])
        else if dest_end + 1 = length d then
          Failed (protocol_error MISSING_DATA [ArgS ''Parse'', ArgS ''destination or query''])
        else
          let query = dest_end + 1; query_len = scan_nul (drop query d) in
          if query + query_len = length d then
            Failed (protocol_error MISSING_NULL [ArgS ''Parse'', ArgS ''query''])
          else
            let cur = query + query_len + 1 in
            if cur = length d then
              Failed (protocol_error MISSING_DATA
                [ArgS ''Parse'', ArgS ''number of parameter data types''])
            else
              let num = ntohs (drop cur (d @ replicate 4 NUL)) in
              if sint num < 0 then
                Failed (protocol_error INVALID_NUMBER [ArgS ''Parse'', ArgS ''parameter data types''])
              else
                let types = cur + 2; types_end = types + 4 * short_count num in
                if types_end < length d then
                  Failed (protocol_error TOO_MANY_VALUES
                    [ArgS ''Parse'', ArgS ''parameter data types''])
                else if types_end > length d then
                  Failed (protocol_error MISSING_DATA
                    [ArgS ''Parse'', ArgS ''parameter data types''])
                else Done \<lparr>p_dest = take dest_end d, p_query = take query_len (drop query d),
                  p_num_parm_data_types = num,
                  p_parm_data_types = map (\<lambda>i. ntohl (drop (types + 4 * i) d)) [0..<short_count num]\<rparr>)"

section \<open>Execute\<close>

record Execute =
  e_source :: string
  e_rows_to_return :: u32

definition read_execute :: "BaseMessage \<Rightarrow> (reader_error, Execute) outcome" where
  "read_execute m =
     (if \<not> copyable m then Undefined
      else if mtype m \<noteq> PSQL_Execute then
        Failed (protocol_error INVALID_TYPE [ArgS ''Execute'', ArgC (mtype m), ArgC PSQL_Execute])
      else if declared m < 4 then Undefined
      else
        let d = body m; n = scan_nul d in
        if n = length d then Failed (protocol_error MISSING_NULL [ArgS ''Execute'', ArgS ''source''])
        else
          let cur = n + 1 in
          if cur + 4 > length d then
            Failed (protocol_error MISSING_DATA [ArgS ''Execute'', ArgS ''number of rows to return''])
          else if cur \<noteq> length d - 4 then
            Failed (protocol_error TRAILING_CHARS [ArgS ''Execute''])
          else Done \<lparr>e_source = take n d, e_rows_to_return = ntohl (drop cur d)\<rparr>)"

section \<open>Query and PasswordMessage\<close>

text \<open>
  Both copy \<open>length - 4\<close> bytes before they look at the type, so a length below four is undefined
  whatever the type is.
\<close>

record Query =
  q_query :: string

definition read_query :: "BaseMessage \<Rightarrow> (reader_error, Query) outcome" where
  "read_query m =
     (if declared m < 4 \<or> \<not> copyable m then Undefined
      else
        let d = body m in
        if mtype m \<noteq> PSQL_Query then
          Failed (syntax_report INVALID_TYPE [ArgS ''Query'', ArgC (mtype m), ArgC PSQL_Query])
        else
          let c = scan_nul d in
          if c = length d then
            (if declared m = 4 then Failed (syntax_report MISSING_DATA [ArgS ''Query'', ArgS ''query''])
             else Failed (syntax_report MISSING_NULL [ArgS ''Query'', ArgS ''query'']))
          else if c < length d - 1 then Failed (syntax_report TRAILING_CHARS [ArgS ''Query''])
          else Done \<lparr>q_query = take c d\<rparr>)"

record PasswordMessage =
  pm_password :: string

definition read_password_message :: "BaseMessage \<Rightarrow> (reader_error, PasswordMessage) outcome" where
  "read_password_message m =
     (if declared m < 4 \<or> \<not> copyable m then Undefined
      else
        let d = body m in
        if mtype m \<noteq> PSQL_PasswordMessage then
          Failed (syntax_report INVALID_TYPE
            [ArgS ''PasswordMessage'', ArgC (mtype m), ArgC PSQL_PasswordMessage])
        else
          let c = scan_nul d in
          if c = length d then
            (if declared m = 4 then
               Failed (syntax_report MISSING_DATA [ArgS ''PasswordMessage'', ArgS ''password''])
             else Failed (syntax_report MISSING_NULL [ArgS ''PasswordMessage'', ArgS ''password'']))
          else if c < length d - 1 then
            Failed (syntax_report TRAILING_CHARS [ArgS ''PasswordMessage''])
          else Done \<lparr>pm_password = take c d\<rparr>)"

section \<open>Describe and Close\<close>

text \<open>
  \<open>Describe\<close> has five zero bytes behind the message: the byte after an empty message is the \<open>item\<close>
  it reads, and its search for the end of the name, which has no bound, stops there at the latest.
  \<open>Close\<close> allocates the message and nothing more: with no data, its \<open>item\<close> lies outside.
\<close>

record Describe =
  d_item :: char
  d_name :: string

definition read_describe :: "BaseMessage \<Rightarrow> (reader_error, Describe) outcome" where
  "read_describe m =
     (if \<not> copyable m then Undefined
      else if mtype m \<noteq> PSQL_Describe then
        Failed (protocol_warning INVALID_TYPE [ArgS ''Describe'', ArgC (mtype m), ArgC PSQL_Describe])
      else
        let item = hd (body m @ [NUL]); name = tl (body m) in
        if item \<noteq> CHR ''S'' \<and> item \<noteq> CHR ''P'' then
          Failed (protocol_warning INVALID_CHAR_VALUE
            [ArgS ''Describe'', ArgS ''item'', ArgC item,
             ArgS ([CHR 0x27] @ ''S'' @ [CHR 0x27] @ '' or '' @ [CHR 0x27] @ ''P'' @ [CHR 0x27])])
        else
          let n = scan_nul name; cur = n + 1 in
          if cur > length name then
            Failed (protocol_warning MISSING_NULL [ArgS ''Describe'', ArgS ''name''])
          else if cur < length name then
            Failed (protocol_warning TRAILING_CHARS [ArgS ''Describe''])
          else Done \<lparr>d_item = item, d_name = take n name\<rparr>)"

record Close =
  c_item :: char
  c_data :: string

definition read_close :: "BaseMessage \<Rightarrow> (reader_error, Close) outcome" where
  "read_close m =
     (if \<not> copyable m then Undefined
      else if mtype m \<noteq> PSQL_Close then
        Failed (protocol_warning INVALID_TYPE [ArgS ''Close'', ArgC (mtype m), ArgC PSQL_Close])
      else
        (case body m of
           [] \<Rightarrow> Undefined
         | item # name \<Rightarrow>
             if item \<noteq> CHR ''S'' \<and> item \<noteq> CHR ''P'' then
               Failed (protocol_warning INVALID_CHAR_VALUE
                 [ArgS ''Close'', ArgS ''item'', ArgC item,
                  ArgS ([CHR 0x27] @ ''S'' @ [CHR 0x27] @ '' or '' @ [CHR 0x27] @ ''P'' @ [CHR 0x27])])
             else
               let n = scan_nul name; cur = n + 1 in
               if cur > length name then
                 Failed (protocol_warning MISSING_NULL [ArgS ''Close'', ArgS ''data''])
               else if cur < length name then
                 Failed (protocol_warning TRAILING_CHARS [ArgS ''Close''])
               else Done \<lparr>c_item = item, c_data = take n name\<rparr>))"

section \<open>Flush, Sync and Terminate\<close>

text \<open>These look at the type only.\<close>

definition read_flush :: "BaseMessage \<Rightarrow> (reader_error, Frame) outcome" where
  "read_flush m =
     (if mtype m \<noteq> PSQL_Flush then
        Failed (protocol_warning INVALID_TYPE [ArgS ''Flush'', ArgC (mtype m), ArgC PSQL_Flush])
      else Done \<lparr>f_type = PSQL_Flush, f_length = 4\<rparr>)"

definition read_sync :: "BaseMessage \<Rightarrow> (reader_error, Frame) outcome" where
  "read_sync m =
     (if mtype m \<noteq> PSQL_Sync then
        Failed (protocol_warning INVALID_TYPE [ArgS ''Sync'', ArgC (mtype m), ArgC PSQL_Sync])
      else Done \<lparr>f_type = PSQL_Sync, f_length = 4\<rparr>)"

definition read_terminate :: "BaseMessage \<Rightarrow> (reader_error, Frame) outcome" where
  "read_terminate m =
     (if mtype m \<noteq> PSQL_Terminate then
        Failed (protocol_warning INVALID_TYPE [ArgS ''Terminate'', ArgC (mtype m), ArgC PSQL_Terminate])
      else Done \<lparr>f_type = PSQL_Terminate, f_length = 4\<rparr>)"

section \<open>The protocol's view of the messages\<close>

text \<open>
  The data of each message as the protocol defines it: strings end with a zero byte, numbers are in
  network byte order.
\<close>

fun u32s_image :: "u32 list \<Rightarrow> string" where
  "u32s_image [] = []"
| "u32s_image (w # ws) = htonl w @ u32s_image ws"

definition parse_image :: "Parse \<Rightarrow> string" where
  "parse_image p =
     p_dest p @ NUL # p_query p @ NUL # htons (p_num_parm_data_types p) @ u32s_image (p_parm_data_types p)"

definition parse_wf :: "Parse \<Rightarrow> bool" where
  "parse_wf p \<longleftrightarrow> nul_free (p_dest p) \<and> nul_free (p_query p) \<and>
     int (length (p_parm_data_types p)) = sint (p_num_parm_data_types p)"

definition execute_image :: "Execute \<Rightarrow> string" where
  "execute_image e = e_source e @ NUL # htonl (e_rows_to_return e)"

definition query_image :: "Query \<Rightarrow> string" where
  "query_image q = q_query q @ [NUL]"

definition password_image :: "PasswordMessage \<Rightarrow> string" where
  "password_image p = pm_password p @ [NUL]"

definition describe_image :: "Describe \<Rightarrow> string" where
  "describe_image d = d_item d # d_name d @ [NUL]"

definition describe_wf :: "Describe \<Rightarrow> bool" where
  "describe_wf d \<longleftrightarrow> d_item d \<in> {CHR ''S'', CHR ''P''} \<and> nul_free (d_name d)"

definition close_image :: "Close \<Rightarrow> string" where
  "close_image c = c_item c # c_data c @ [NUL]"

definition close_wf :: "Close \<Rightarrow> bool" where
  "close_wf c \<longleftrightarrow> c_item c \<in> {CHR ''S'', CHR ''P''} \<and> nul_free (c_data c)"

section \<open>Words in an array\<close>

lemma length_u32s_image [simp]: "length (u32s_image ws) = 4 * length ws"
  by (induction ws) auto

lemma u32s_read:
  "map (\<lambda>i. ntohl (drop (length pre + 4 * i) (pre @ u32s_image ws))) [0..<length ws] = ws"
proof (induction ws arbitrary: pre)
  case (Cons w ws)
  have "[0..<length (w # ws)] = 0 # map Suc [0..<length ws]"
    by (simp add: upt_conv_Cons map_Suc_upt del: upt_Suc)
  moreover have "map (\<lambda>i. ntohl (drop (length pre + 4 * Suc i) (pre @ u32s_image (w # ws))))
      [0..<length ws] = ws"
    using Cons.IH [of "pre @ htonl w"] by (simp add: add.assoc)
  ultimately show ?case by (simp add: comp_def)
qed simp

lemma u32s_image_read:
  "length s = 4 * n \<Longrightarrow> u32s_image (map (\<lambda>i. ntohl (drop (4 * i) s)) [0..<n]) = s"
proof (induction n arbitrary: s)
  case (Suc n)
  have "[0..<Suc n] = 0 # map Suc [0..<n]"
    by (simp add: upt_conv_Cons map_Suc_upt del: upt_Suc)
  moreover have "u32s_image (map (\<lambda>i. ntohl (drop (4 * i) (drop 4 s))) [0..<n]) = drop 4 s"
    using Suc.IH [of "drop 4 s"] Suc.prems by (simp del: drop_drop)
  ultimately show ?case using Suc.prems by (simp add: comp_def add.commute)
qed simp

section \<open>Acceptance is conformance\<close>

lemma read_query_iff:
  assumes "framed m" and "mtype m = PSQL_Query"
  shows "read_query m = Done q \<longleftrightarrow> nul_free (q_query q) \<and> mdata m = query_image q"
proof
  assume r: "read_query m = Done q"
  let ?d = "mdata m"
  from r framed_body [OF assms(1)] assms(2) have "scan_nul ?d \<noteq> length ?d"
    and "\<not> scan_nul ?d < length ?d - 1" and q: "q = \<lparr>q_query = take (scan_nul ?d) ?d\<rparr>"
    by (auto simp: read_query_def Let_def split: if_splits)
  then have "scan_nul ?d < length ?d" and "length ?d = Suc (scan_nul ?d)"
    using scan_nul_le [of ?d] by simp_all
  then have "?d = cstr ?d @ [NUL]" using scan_nul_split [of ?d] by simp
  then show "nul_free (q_query q) \<and> ?d = query_image q"
    using q by (simp add: query_image_def take_scan_nul)
next
  assume "nul_free (q_query q) \<and> mdata m = query_image q"
  then show "read_query m = Done q"
    using framed_body [OF assms(1)] assms(2) by (simp add: read_query_def query_image_def)
qed

lemma read_password_iff:
  assumes "framed m" and "mtype m = PSQL_PasswordMessage"
  shows "read_password_message m = Done q \<longleftrightarrow> nul_free (pm_password q) \<and> mdata m = password_image q"
proof
  assume r: "read_password_message m = Done q"
  let ?d = "mdata m"
  from r framed_body [OF assms(1)] assms(2) have "scan_nul ?d \<noteq> length ?d"
    and "\<not> scan_nul ?d < length ?d - 1" and q: "q = \<lparr>pm_password = take (scan_nul ?d) ?d\<rparr>"
    by (auto simp: read_password_message_def Let_def split: if_splits)
  then have "scan_nul ?d < length ?d" and "length ?d = Suc (scan_nul ?d)"
    using scan_nul_le [of ?d] by simp_all
  then have "?d = cstr ?d @ [NUL]" using scan_nul_split [of ?d] by simp
  then show "nul_free (pm_password q) \<and> ?d = password_image q"
    using q by (simp add: password_image_def take_scan_nul)
next
  assume "nul_free (pm_password q) \<and> mdata m = password_image q"
  then show "read_password_message m = Done q"
    using framed_body [OF assms(1)] assms(2)
    by (simp add: read_password_message_def password_image_def)
qed

lemma read_execute_iff:
  assumes "framed m" and "mtype m = PSQL_Execute"
  shows "read_execute m = Done e \<longleftrightarrow> nul_free (e_source e) \<and> mdata m = execute_image e"
proof
  assume r: "read_execute m = Done e"
  let ?d = "mdata m" and ?n = "scan_nul (mdata m)"
  from r framed_body [OF assms(1)] assms(2)
  have n: "?n < length ?d" and len: "length ?d = ?n + 5"
    and e: "e = \<lparr>e_source = take ?n ?d, e_rows_to_return = ntohl (drop (?n + 1) ?d)\<rparr>"
    using scan_nul_le [of ?d] by (auto simp: read_execute_def Let_def split: if_splits)
  have "?d = cstr ?d @ NUL # drop (Suc ?n) ?d" by (rule scan_nul_split [OF n])
  moreover have "htonl (ntohl (drop (Suc ?n) ?d)) = drop (Suc ?n) ?d" using len by simp
  ultimately show "nul_free (e_source e) \<and> ?d = execute_image e"
    using e by (simp add: execute_image_def take_scan_nul)
next
  assume "nul_free (e_source e) \<and> mdata m = execute_image e"
  then show "read_execute m = Done e"
    using framed_body [OF assms(1)] assms(2) by (simp add: read_execute_def execute_image_def)
qed

lemma name_split:
  assumes "scan_nul s + 1 = length s"
  shows "s = take (scan_nul s) s @ [NUL]"
  using assms scan_nul_split [of s] by (simp add: take_scan_nul)

lemma read_describe_iff:
  assumes "framed m" and "mtype m = PSQL_Describe"
  shows "read_describe m = Done x \<longleftrightarrow> describe_wf x \<and> mdata m = describe_image x"
proof
  assume r: "read_describe m = Done x"
  then obtain i s where d: "mdata m = i # s"
    using framed_body [OF assms(1)] assms(2)
    by (cases "mdata m") (auto simp: read_describe_def Let_def split: if_splits)
  with r framed_body [OF assms(1)] assms(2)
  have "i \<in> {CHR ''S'', CHR ''P''}" and "scan_nul s + 1 = length s"
    and "x = \<lparr>d_item = i, d_name = take (scan_nul s) s\<rparr>"
    by (auto simp: read_describe_def Let_def split: if_splits)
  with d name_split [of s] show "describe_wf x \<and> mdata m = describe_image x"
    by (simp add: describe_wf_def describe_image_def take_scan_nul)
next
  assume "describe_wf x \<and> mdata m = describe_image x"
  then show "read_describe m = Done x"
    using framed_body [OF assms(1)] assms(2)
    by (auto simp: read_describe_def describe_wf_def describe_image_def)
qed

lemma read_close_iff:
  assumes "framed m" and "mtype m = PSQL_Close"
  shows "read_close m = Done x \<longleftrightarrow> close_wf x \<and> mdata m = close_image x"
proof
  assume r: "read_close m = Done x"
  then obtain i s where d: "mdata m = i # s"
    using framed_body [OF assms(1)] assms(2)
    by (cases "mdata m") (auto simp: read_close_def)
  with r framed_body [OF assms(1)] assms(2)
  have "i \<in> {CHR ''S'', CHR ''P''}" and "scan_nul s + 1 = length s"
    and "x = \<lparr>c_item = i, c_data = take (scan_nul s) s\<rparr>"
    by (auto simp: read_close_def Let_def split: if_splits)
  with d name_split [of s] show "close_wf x \<and> mdata m = close_image x"
    by (simp add: close_wf_def close_image_def take_scan_nul)
next
  assume "close_wf x \<and> mdata m = close_image x"
  then show "read_close m = Done x"
    using framed_body [OF assms(1)] assms(2)
    by (auto simp: read_close_def close_wf_def close_image_def)
qed

text \<open>The walk of \<open>read_parse\<close> over a message, as two splits at a zero byte.\<close>

lemma read_parse_split:
  assumes fr: "framed m" and ty: "mtype m = PSQL_Parse" and r: "read_parse m = Done p"
  obtains r1 r2 where "mdata m = p_dest p @ NUL # r1" and "r1 = p_query p @ NUL # r2"
    and "nul_free (p_dest p)" and "nul_free (p_query p)"
    and "p_num_parm_data_types p = ntohs (r2 @ replicate 4 NUL)"
    and "0 \<le> sint (p_num_parm_data_types p)"
    and "length r2 = 2 + 4 * short_count (p_num_parm_data_types p)"
    and "p_parm_data_types p =
      map (\<lambda>i. ntohl (drop (4 * i) (drop 2 r2))) [0..<short_count (p_num_parm_data_types p)]"
proof -
  let ?d = "mdata m"
  define n where "n = scan_nul ?d"
  define k where "k = scan_nul (drop (n + 1) ?d)"
  define c where "c = n + 1 + k + 1"
  define num where "num = ntohs (drop c (?d @ replicate 4 NUL))"
  note steps = r [unfolded read_parse_def Let_def framed_body [OF fr], folded n_def, folded k_def,
    folded c_def, folded num_def]
  from steps fr ty have n: "n \<noteq> length ?d" and k: "n + 1 + k \<noteq> length ?d"
    and num: "0 \<le> sint num" and len: "c + 2 + 4 * short_count num = length ?d"
    and p: "p = \<lparr>p_dest = take n ?d, p_query = take k (drop (n + 1) ?d), p_num_parm_data_types = num,
      p_parm_data_types = map (\<lambda>i. ntohl (drop (c + 2 + 4 * i) ?d)) [0..<short_count num]\<rparr>"
    by (auto simp: framed_body split: if_splits)
  define r1 where "r1 = drop (n + 1) ?d"
  define r2 where "r2 = drop c ?d"
  have n': "n < length ?d" using n scan_nul_le [of ?d] by (simp add: n_def)
  have d: "?d = take n ?d @ NUL # r1" and free1: "nul_free (take n ?d)"
    using scan_nul_split [of ?d] n' by (simp_all add: n_def r1_def take_scan_nul)
  have k': "k < length r1" using k n' scan_nul_le [of r1] by (simp add: k_def r1_def)
  have r1: "r1 = take k r1 @ NUL # r2" and free2: "nul_free (take k r1)"
    using scan_nul_split [of r1] k'
    by (simp_all add: k_def r1_def r2_def c_def take_scan_nul add.commute add.left_commute)
  have "num = ntohs (r2 @ replicate 4 NUL)" using len by (simp add: num_def r2_def)
  moreover have "length r2 = 2 + 4 * short_count num" using len by (simp add: r2_def)
  moreover have "drop (4 * i) (drop 2 r2) = drop (c + 2 + 4 * i) ?d" for i
    by (simp add: r2_def add.commute add.left_commute)
  ultimately show thesis
    using d r1 free1 free2 num by (intro that [of r1 r2]) (simp_all add: p r1_def)
qed

lemma read_parse_iff:
  assumes fr: "framed m" and ty: "mtype m = PSQL_Parse"
  shows "read_parse m = Done p \<longleftrightarrow> parse_wf p \<and> mdata m = parse_image p"
proof
  assume "read_parse m = Done p"
  then show "parse_wf p \<and> mdata m = parse_image p"
  proof (rule read_parse_split [OF fr ty])
    fix r1 r2
    let ?num = "p_num_parm_data_types p"
    assume d: "mdata m = p_dest p @ NUL # r1" "r1 = p_query p @ NUL # r2"
      and free: "nul_free (p_dest p)" "nul_free (p_query p)"
      and num: "?num = ntohs (r2 @ replicate 4 NUL)" "0 \<le> sint ?num"
      and len: "length r2 = 2 + 4 * short_count ?num"
      and types: "p_parm_data_types p =
        map (\<lambda>i. ntohl (drop (4 * i) (drop 2 r2))) [0..<short_count ?num]"
    have "u32s_image (p_parm_data_types p) = drop 2 r2"
      unfolding types using len by (intro u32s_image_read) simp
    moreover have "htons ?num = take 2 r2" using num(1) len by simp
    ultimately show ?thesis using d free num(2) types
      by (simp add: parse_wf_def parse_image_def)
  qed
next
  assume p: "parse_wf p \<and> mdata m = parse_image p"
  let ?num = "p_num_parm_data_types p" and ?ws = "p_parm_data_types p"
  from p have free: "nul_free (p_dest p)" "nul_free (p_query p)"
    and len: "int (length ?ws) = sint ?num" by (simp_all add: parse_wf_def)
  let ?pre = "p_dest p @ NUL # p_query p @ NUL # htons ?num"
  have d: "mdata m = ?pre @ u32s_image ?ws" using p by (simp add: parse_image_def)
  have cnt: "short_count ?num = length ?ws" using len by simp
  have "map (\<lambda>i. ntohl (drop (length ?pre + 4 * i) (mdata m))) [0..<length ?ws] = ?ws"
    unfolding d by (rule u32s_read)
  then show "read_parse m = Done p"
    using framed_body [OF fr] ty free len cnt d by (simp add: read_parse_def Let_def)
qed

section \<open>The contract of a reader\<close>

text \<open>
  A reader accepts exactly the framed messages that carry its tag and the image of a well-formed
  value, and returns that value. A safe reader moreover never leaves its memory: every other framed
  message is an error it reports.
\<close>

definition client_message :: "char \<Rightarrow> string \<Rightarrow> BaseMessage" where
  "client_message tag s = \<lparr>mtype = tag, mlength = htonl (of_nat (length s + 4)), mdata = s\<rparr>"

lemma framed_client_message: "length s + 4 < 2 ^ 32 \<Longrightarrow> framed (client_message tag s)"
  by (simp add: client_message_def framed_def)

locale frontend_reader =
  fixes reader :: "BaseMessage \<Rightarrow> (reader_error, 'a) outcome"
    and tag :: char
    and image :: "'a \<Rightarrow> string"
    and wf :: "'a \<Rightarrow> bool"
  assumes reader_iff: "framed m \<Longrightarrow> mtype m = tag \<Longrightarrow> reader m = Done x \<longleftrightarrow> wf x \<and> mdata m = image x"
    and reader_tag: "framed m \<Longrightarrow> mtype m \<noteq> tag \<Longrightarrow> \<exists>e. reader m = Failed e"
begin

lemma reads_client_message:
  "wf x \<Longrightarrow> length (image x) + 4 < 2 ^ 32 \<Longrightarrow> reader (client_message tag (image x)) = Done x"
  using reader_iff [OF framed_client_message, of "image x" tag x] by (simp add: client_message_def)

lemma image_inj:
  "wf x \<Longrightarrow> wf y \<Longrightarrow> image x = image y \<Longrightarrow> length (image x) + 4 < 2 ^ 32 \<Longrightarrow> x = y"
  using reads_client_message [of x] reads_client_message [of y] by (metis outcome.inject(2))

lemma accepts_iff:
  "framed m \<Longrightarrow> (\<exists>x. reader m = Done x) \<longleftrightarrow> mtype m = tag \<and> (\<exists>x. wf x \<and> mdata m = image x)"
  using reader_iff [of m] reader_tag [of m] by fastforce

text \<open>The value sent by a client, in chunks of any size, is the value the server works on.\<close>

lemma received:
  assumes "wf x" and fit: "int (length (image x)) + 5 \<le> bsize" and small: "bsize < 2 ^ 31"
    and str: "incoming tls evs = wire_image (client_message tag (image x)) @ rest"
  shows "\<exists>m evs'. read_message tls evs bsize = Message m evs' \<and> reader m = Done x \<and>
    incoming tls evs' = rest"
proof -
  let ?m = "client_message tag (image x)"
  have len: "length (image x) + 4 < 2 ^ 32" using fit small by simp
  have "int (length (wire_image ?m)) \<le> bsize"
    using fit by (simp add: wire_image_def client_message_def)
  from read_message_next [OF framed_client_message [OF len] str this small]
  show ?thesis using reads_client_message [OF assms(1) len] by metis
qed

end

locale safe_frontend_reader = frontend_reader +
  assumes reader_safe: "framed m \<Longrightarrow> reader m \<noteq> Undefined"
begin

lemma rejects_iff:
  assumes "framed m"
  shows "(\<exists>e. reader m = Failed e) \<longleftrightarrow> \<not> (mtype m = tag \<and> (\<exists>x. wf x \<and> mdata m = image x))"
  using accepts_iff [OF assms] reader_safe [OF assms] by (cases "reader m") auto

end

interpretation parse_reader: safe_frontend_reader read_parse PSQL_Parse parse_image parse_wf
proof unfold_locales
  show "framed m \<Longrightarrow> mtype m = PSQL_Parse \<Longrightarrow>
      read_parse m = Done x \<longleftrightarrow> parse_wf x \<and> mdata m = parse_image x" for m x
    by (rule read_parse_iff)
  show "framed m \<Longrightarrow> mtype m \<noteq> PSQL_Parse \<Longrightarrow> \<exists>e. read_parse m = Failed e" for m
    by (simp add: read_parse_def framed_body)
  show "framed m \<Longrightarrow> read_parse m \<noteq> Undefined" for m
    by (simp add: read_parse_def framed_body Let_def)
qed

interpretation execute_reader: safe_frontend_reader read_execute PSQL_Execute execute_image
  "\<lambda>e. nul_free (e_source e)"
proof unfold_locales
  show "framed m \<Longrightarrow> mtype m = PSQL_Execute \<Longrightarrow>
      read_execute m = Done x \<longleftrightarrow> nul_free (e_source x) \<and> mdata m = execute_image x" for m x
    by (rule read_execute_iff)
  show "framed m \<Longrightarrow> mtype m \<noteq> PSQL_Execute \<Longrightarrow> \<exists>e. read_execute m = Failed e" for m
    by (simp add: read_execute_def framed_body)
  show "framed m \<Longrightarrow> read_execute m \<noteq> Undefined" for m
    by (simp add: read_execute_def framed_body Let_def)
qed

interpretation query_reader: safe_frontend_reader read_query PSQL_Query query_image
  "\<lambda>q. nul_free (q_query q)"
proof unfold_locales
  show "framed m \<Longrightarrow> mtype m = PSQL_Query \<Longrightarrow>
      read_query m = Done x \<longleftrightarrow> nul_free (q_query x) \<and> mdata m = query_image x" for m x
    by (rule read_query_iff)
  show "framed m \<Longrightarrow> mtype m \<noteq> PSQL_Query \<Longrightarrow> \<exists>e. read_query m = Failed e" for m
    by (simp add: read_query_def framed_body)
  show "framed m \<Longrightarrow> read_query m \<noteq> Undefined" for m
    by (simp add: read_query_def framed_body Let_def)
qed

interpretation password_reader: safe_frontend_reader read_password_message PSQL_PasswordMessage
  password_image "\<lambda>p. nul_free (pm_password p)"
proof unfold_locales
  show "framed m \<Longrightarrow> mtype m = PSQL_PasswordMessage \<Longrightarrow> read_password_message m = Done x \<longleftrightarrow>
      nul_free (pm_password x) \<and> mdata m = password_image x" for m x
    by (rule read_password_iff)
  show "framed m \<Longrightarrow> mtype m \<noteq> PSQL_PasswordMessage \<Longrightarrow> \<exists>e. read_password_message m = Failed e" for m
    by (simp add: read_password_message_def framed_body)
  show "framed m \<Longrightarrow> read_password_message m \<noteq> Undefined" for m
    by (simp add: read_password_message_def framed_body Let_def)
qed

interpretation describe_reader: safe_frontend_reader read_describe PSQL_Describe describe_image
  describe_wf
proof unfold_locales
  show "framed m \<Longrightarrow> mtype m = PSQL_Describe \<Longrightarrow>
      read_describe m = Done x \<longleftrightarrow> describe_wf x \<and> mdata m = describe_image x" for m x
    by (rule read_describe_iff)
  show "framed m \<Longrightarrow> mtype m \<noteq> PSQL_Describe \<Longrightarrow> \<exists>e. read_describe m = Failed e" for m
    by (simp add: read_describe_def framed_body)
  show "framed m \<Longrightarrow> read_describe m \<noteq> Undefined" for m
    by (simp add: read_describe_def framed_body Let_def)
qed

text \<open>\<open>read_close\<close> meets the first contract only: it reads outside its memory when there is no data.\<close>

interpretation close_reader: frontend_reader read_close PSQL_Close close_image close_wf
proof unfold_locales
  show "framed m \<Longrightarrow> mtype m = PSQL_Close \<Longrightarrow>
      read_close m = Done x \<longleftrightarrow> close_wf x \<and> mdata m = close_image x" for m x
    by (rule read_close_iff)
  show "framed m \<Longrightarrow> mtype m \<noteq> PSQL_Close \<Longrightarrow> \<exists>e. read_close m = Failed e" for m
    by (simp add: read_close_def framed_body)
qed

lemma read_close_undefined_iff:
  "framed m \<Longrightarrow> read_close m = Undefined \<longleftrightarrow> mtype m = PSQL_Close \<and> mdata m = []"
  by (simp add: read_close_def framed_body Let_def split: list.split)

section \<open>Properties\<close>

text \<open>C12. \<open>read_parse\<close> returns exactly the conforming messages: a framed message is accepted if and only
  if it has the type of \<open>Parse\<close> and its data is the protocol's image of a well-formed value, which is
  then the value returned; every other framed message is reported as an error, and none makes the
  reader leave its memory.\<close>

theorem read_parse_correct:
  assumes "framed m"
  shows "(read_parse m = Done p \<longleftrightarrow> mtype m = PSQL_Parse \<and> parse_wf p \<and> mdata m = parse_image p) \<and>
    ((\<exists>e. read_parse m = Failed e) \<longleftrightarrow>
      \<not> (mtype m = PSQL_Parse \<and> (\<exists>q. parse_wf q \<and> mdata m = parse_image q)))"
proof (cases "mtype m = PSQL_Parse")
  case True
  then show ?thesis
    using parse_reader.reader_iff [OF assms True] parse_reader.rejects_iff [OF assms] by simp
next
  case False
  then show ?thesis
    using parse_reader.reader_tag [OF assms False] parse_reader.rejects_iff [OF assms] by auto
qed

theorem read_parse_correct_witness:
  "framed (client_message PSQL_Parse (''s'' @ NUL # ''q'' @ NUL # htons 1 @ htonl 23)) \<and>
   read_parse (client_message PSQL_Parse (''s'' @ NUL # ''q'' @ NUL # htons 1 @ htonl 23)) =
     Done \<lparr>p_dest = ''s'', p_query = ''q'', p_num_parm_data_types = 1, p_parm_data_types = [23]\<rparr>"
proof -
  let ?m = "client_message PSQL_Parse (''s'' @ NUL # ''q'' @ NUL # htons 1 @ htonl 23)"
  have fr: "framed ?m" by (rule framed_client_message) simp
  show ?thesis
    using read_parse_correct [OF fr,
        of "\<lparr>p_dest = ''s'', p_query = ''q'', p_num_parm_data_types = 1, p_parm_data_types = [23]\<rparr>"] fr
    by (simp add: client_message_def parse_wf_def parse_image_def)
qed

text \<open>C18. The same for \<open>read_execute\<close>, \<open>read_query\<close>, \<open>read_password_message\<close> and \<open>read_describe\<close>.\<close>

theorem simple_readers_correct:
  assumes "framed m"
  shows "(read_execute m = Done e \<longleftrightarrow>
        mtype m = PSQL_Execute \<and> nul_free (e_source e) \<and> mdata m = execute_image e) \<and>
    (read_query m = Done q \<longleftrightarrow>
        mtype m = PSQL_Query \<and> nul_free (q_query q) \<and> mdata m = query_image q) \<and>
    (read_password_message m = Done p \<longleftrightarrow>
        mtype m = PSQL_PasswordMessage \<and> nul_free (pm_password p) \<and> mdata m = password_image p) \<and>
    (read_describe m = Done d \<longleftrightarrow>
        mtype m = PSQL_Describe \<and> describe_wf d \<and> mdata m = describe_image d) \<and>
    read_execute m \<noteq> Undefined \<and> read_query m \<noteq> Undefined \<and>
    read_password_message m \<noteq> Undefined \<and> read_describe m \<noteq> Undefined"
proof (intro conjI)
  show "read_execute m = Done e \<longleftrightarrow>
      mtype m = PSQL_Execute \<and> nul_free (e_source e) \<and> mdata m = execute_image e"
    using execute_reader.reader_iff [OF assms] execute_reader.reader_tag [OF assms] by force
  show "read_query m = Done q \<longleftrightarrow>
      mtype m = PSQL_Query \<and> nul_free (q_query q) \<and> mdata m = query_image q"
    using query_reader.reader_iff [OF assms] query_reader.reader_tag [OF assms] by force
  show "read_password_message m = Done p \<longleftrightarrow>
      mtype m = PSQL_PasswordMessage \<and> nul_free (pm_password p) \<and> mdata m = password_image p"
    using password_reader.reader_iff [OF assms] password_reader.reader_tag [OF assms] by force
  show "read_describe m = Done d \<longleftrightarrow>
      mtype m = PSQL_Describe \<and> describe_wf d \<and> mdata m = describe_image d"
    using describe_reader.reader_iff [OF assms] describe_reader.reader_tag [OF assms] by force
qed (use execute_reader.reader_safe [OF assms] query_reader.reader_safe [OF assms]
  password_reader.reader_safe [OF assms] describe_reader.reader_safe [OF assms] in auto)

theorem simple_readers_correct_witness:
  "framed (client_message PSQL_Execute (''p'' @ NUL # htonl 10)) \<and>
   read_execute (client_message PSQL_Execute (''p'' @ NUL # htonl 10)) =
     Done \<lparr>e_source = ''p'', e_rows_to_return = 10\<rparr>"
proof -
  let ?m = "client_message PSQL_Execute (''p'' @ NUL # htonl 10)"
  have fr: "framed ?m" by (rule framed_client_message) simp
  show ?thesis
    using simple_readers_correct [OF fr, of "\<lparr>e_source = ''p'', e_rows_to_return = 10\<rparr>"] fr
    by (simp add: client_message_def execute_image_def)
qed

text \<open>C27. \<open>read_close\<close> accepts exactly the conforming messages too, but it reads its \<open>item\<close> outside the
  allocation when the message has no data, and only then.\<close>

theorem read_close_correct:
  assumes "framed m"
  shows "(read_close m = Done c \<longleftrightarrow> mtype m = PSQL_Close \<and> close_wf c \<and> mdata m = close_image c) \<and>
    (read_close m = Undefined \<longleftrightarrow> mtype m = PSQL_Close \<and> mdata m = [])"
proof (cases "mtype m = PSQL_Close")
  case True
  then show ?thesis
    using close_reader.reader_iff [OF assms True] read_close_undefined_iff [OF assms] by simp
next
  case False
  then show ?thesis
    using close_reader.reader_tag [OF assms False] read_close_undefined_iff [OF assms] by auto
qed

theorem read_close_correct_witness:
  "framed (client_message PSQL_Close []) \<and> read_close (client_message PSQL_Close []) = Undefined"
proof -
  have fr: "framed (client_message PSQL_Close [])" by (rule framed_client_message) simp
  show ?thesis using read_close_correct [OF fr, of undefined] fr by (simp add: client_message_def)
qed

end
