(* ===== verification/Bind_Reader.thy ===== *)
theory Bind_Reader
  imports Wire_Readers
begin

text \<open>
  \<open>read_bind\<close>, the reader of the message that gives a prepared statement its parameters. It works in
  place: pointers into the copied data are offsets here, the format codes are converted to host
  byte order where they lie (the host is little-endian, as the read of a parameter length through a
  \<open>long\<close> pointer requires), and the data is followed by four zero bytes. Parameter lengths are
  signed, so the position may move backwards; a position outside the data is \<open>Undefined\<close>. The
  pointer to an empty array of format codes, which the source leaves null, is never followed.
\<close>

section \<open>State\<close>

record Bind =
  b_dest :: nat
  b_source :: nat
  b_num_parm_format_codes :: i16
  b_parm_format_codes :: int
  b_num_parms :: i16
  b_parms :: "(i32 \<times> int) list"
  b_num_result_col_format_codes :: i16
  b_result_col_format_codes :: int
  b_data :: string

definition in_buf :: "int \<Rightarrow> int \<Rightarrow> string \<Rightarrow> bool" where
  "in_buf p n buf \<longleftrightarrow> 0 \<le> p \<and> p + n \<le> int (length buf)"

section \<open>The loops\<close>

text \<open>Conversion and check of an array of format codes.\<close>

fun swap_codes :: "string \<Rightarrow> nat \<Rightarrow> int \<Rightarrow> string \<Rightarrow> (reader_error, string) outcome" where
  "swap_codes what 0 p buf = Done buf"
| "swap_codes what (Suc k) p buf =
     (if \<not> in_buf p 2 buf then Undefined
      else
        let code = ntohs (drop (nat p) buf);
            buf' = overwrite (nat p) (rev (htons code)) buf
        in if code \<noteq> 0 \<and> code \<noteq> 1 then
             Failed (protocol_error INVALID_INT_VALUE
               [ArgS ''Bind'', ArgS what, ArgD (scast code), ArgS ''0 (text) or 1 (binary)''])
           else swap_codes what k (p + 2) buf')"

text \<open>
  The parameters: a length and that many bytes each. The length is read through a \<open>long\<close> pointer,
  which touches eight bytes and uses the first four.
\<close>

fun bind_parms_loop ::
  "nat \<Rightarrow> int \<Rightarrow> int \<Rightarrow> string \<Rightarrow> (reader_error, (i32 \<times> int) list \<times> int) outcome" where
  "bind_parms_loop 0 cur last_byte buf = Done ([], cur)"
| "bind_parms_loop (Suc k) cur last_byte buf =
     (let value = cur + 4 in
      if value > last_byte then Failed (protocol_error MISSING_DATA [ArgS ''Bind'', ArgS ''parameters''])
      else if \<not> in_buf cur 8 buf then Undefined
      else
        let len = ntohl (drop (nat cur) buf); cur' = value + sint len in
        if cur' > last_byte then
          Failed (protocol_error MISSING_DATA [ArgS ''Bind'', ArgS ''parameters''])
        else and_then (bind_parms_loop k cur' last_byte buf)
          (\<lambda>(ps, e). Done ((len, value) # ps, e)))"

section \<open>The reader\<close>

text \<open>
  The last part: result column format codes and the test that the whole message was read. A
  mismatch there sets the error but still returns the message.
\<close>

definition read_bind_results ::
  "Bind \<Rightarrow> int \<Rightarrow> int \<Rightarrow> string \<Rightarrow> (reader_error, Bind \<times> reader_error option) outcome" where
  "read_bind_results ret cur last_byte buf =
     (if \<not> in_buf cur 2 buf then Undefined
      else
        let num = ntohs (drop (nat cur) buf) in
        if sint num < 0 then
          Failed (protocol_error INVALID_NUMBER [ArgS ''Bind'', ArgS ''result column format codes''])
        else
          let codes = cur + 2; cur' = codes + 2 * sint num in
          if sint num > 0 \<and> cur' > last_byte then
            Failed (protocol_error MISSING_DATA [ArgS ''Bind'', ArgS ''result column format codes''])
          else and_then (swap_codes ''result column format code'' (short_count num) codes buf)
            (\<lambda>buf'. Done
              (ret\<lparr>b_num_result_col_format_codes := num, b_result_col_format_codes := codes,
                   b_data := buf'\<rparr>,
               if cur' \<noteq> last_byte then Some (protocol_warning TRAILING_CHARS [ArgS ''Bind''])
               else None)))"

text \<open>The middle part: the number of parameters and the parameters.\<close>

definition read_bind_parms ::
  "Bind \<Rightarrow> int \<Rightarrow> int \<Rightarrow> string \<Rightarrow> (reader_error, Bind \<times> reader_error option) outcome" where
  "read_bind_parms ret cur last_byte buf =
     (if \<not> in_buf cur 2 buf then Undefined
      else
        let num = ntohs (drop (nat cur) buf); formats = b_num_parm_format_codes ret; cur1 = cur + 2 in
        if sint num < 0 then
          Failed (protocol_error INVALID_NUMBER [ArgS ''Bind'', ArgS ''parameters''])
        else if sint formats > sint num then
          Failed (protocol_error TOO_MANY_VALUES [ArgS ''Bind'', ArgS ''parameter format codes''])
        else if sint formats > 1 \<and> formats \<noteq> num then
          Failed (protocol_error TOO_FEW_VALUES [ArgS ''Bind'', ArgS ''parameter format codes''])
        else if cur1 > last_byte then
          Failed (protocol_error MISSING_DATA [ArgS ''Bind'', ArgS ''parameters''])
        else and_then (bind_parms_loop (short_count num) cur1 last_byte buf)
          (\<lambda>(ps, cur2).
             read_bind_results (ret\<lparr>b_num_parms := num, b_parms := ps\<rparr>) cur2 last_byte buf))"

text \<open>The part before it: the parameter format codes.\<close>

definition read_bind_formats ::
  "Bind \<Rightarrow> int \<Rightarrow> int \<Rightarrow> string \<Rightarrow> (reader_error, Bind \<times> reader_error option) outcome" where
  "read_bind_formats ret cur last_byte buf =
     (if \<not> in_buf cur 2 buf then Undefined
      else
        let num = ntohs (drop (nat cur) buf); codes = cur + 2 in
        if sint num < 0 then
          Failed (protocol_error INVALID_NUMBER [ArgS ''Bind'', ArgS ''parameter format codes''])
        else if codes > last_byte then
          Failed (protocol_error MISSING_DATA [ArgS ''Bind'', ArgS ''number of parameter format codes''])
        else if codes + 2 * sint num > last_byte then
          Failed (protocol_error MISSING_DATA [ArgS ''Bind'', ArgS ''parameter format codes''])
        else and_then (swap_codes ''parameter format code'' (short_count num) codes buf)
          (\<lambda>buf'. read_bind_parms
             (ret\<lparr>b_num_parm_format_codes := num, b_parm_format_codes := codes\<rparr>)
             (codes + 2 * sint num) last_byte buf'))"

definition read_bind :: "BaseMessage \<Rightarrow> (reader_error, Bind \<times> reader_error option) outcome" where
  "read_bind m =
     (if \<not> copyable m then Undefined
      else if mtype m \<noteq> PSQL_Bind then
        Failed (protocol_error INVALID_TYPE [ArgS ''Bind'', ArgC (mtype m), ArgC PSQL_Bind])
      else if declared m < 4 then Undefined
      else
        let d = body m; last_byte = int (length d); buf = d @ replicate 4 NUL; dest_end = scan_nul d in
        if dest_end = length d then
          Failed (protocol_error MISSING_NULL [ArgS ''Bind'', ArgS ''destination''])
        else
          let source = dest_end + 1; source_len = scan_nul (drop source d) in
          if source + source_len = length d then
            Failed (protocol_error MISSING_NULL [ArgS ''Bind'', ArgS ''source''])
          else read_bind_formats
            \<lparr>b_dest = 0, b_source = source, b_num_parm_format_codes = 0, b_parm_format_codes = 0,
             b_num_parms = 0, b_parms = [], b_num_result_col_format_codes = 0,
             b_result_col_format_codes = 0, b_data = buf\<rparr>
            (int (source + source_len + 1)) last_byte buf)"

section \<open>The protocol's view\<close>

text \<open>What the pointers of the struct show.\<close>

record bind_message =
  bm_dest :: string
  bm_source :: string
  bm_formats :: "i16 list"
  bm_parms :: "string list"
  bm_results :: "i16 list"

definition host_codes :: "nat \<Rightarrow> int \<Rightarrow> string \<Rightarrow> i16 list" where
  "host_codes n p buf = map (\<lambda>i. ntohs (rev (take 2 (drop (nat p + 2 * i) buf)))) [0..<n]"

definition bind_view :: "Bind \<Rightarrow> bind_message" where
  "bind_view b =
     \<lparr>bm_dest = cstr (drop (b_dest b) (b_data b)), bm_source = cstr (drop (b_source b) (b_data b)),
      bm_formats = host_codes (short_count (b_num_parm_format_codes b)) (b_parm_format_codes b) (b_data b),
      bm_parms = map (\<lambda>(len, p). take (nat (sint len)) (drop (nat p) (b_data b))) (b_parms b),
      bm_results = host_codes (short_count (b_num_result_col_format_codes b))
        (b_result_col_format_codes b) (b_data b)\<rparr>"

fun codes_image :: "i16 list \<Rightarrow> string" where
  "codes_image [] = []"
| "codes_image (c # cs) = htons c @ codes_image cs"

fun parms_image :: "string list \<Rightarrow> string" where
  "parms_image [] = []"
| "parms_image (v # vs) = htonl (of_nat (length v)) @ v @ parms_image vs"

definition bind_image :: "bind_message \<Rightarrow> string" where
  "bind_image x =
     bm_dest x @ NUL # bm_source x @ NUL # htons (of_nat (length (bm_formats x))) @
     codes_image (bm_formats x) @ htons (of_nat (length (bm_parms x))) @ parms_image (bm_parms x) @
     htons (of_nat (length (bm_results x))) @ codes_image (bm_results x)"

definition bind_wf :: "bind_message \<Rightarrow> bool" where
  "bind_wf x \<longleftrightarrow>
     nul_free (bm_dest x) \<and> nul_free (bm_source x) \<and> set (bm_formats x) \<subseteq> {0, 1} \<and>
     set (bm_results x) \<subseteq> {0, 1} \<and> length (bm_parms x) < 2 ^ 15 \<and> length (bm_results x) < 2 ^ 15 \<and>
     (length (bm_formats x) \<le> 1 \<and> length (bm_formats x) \<le> length (bm_parms x) \<or>
      length (bm_formats x) = length (bm_parms x)) \<and>
     (\<forall>v \<in> set (bm_parms x). length v < 2 ^ 31)"

section \<open>Format codes\<close>

fun host_image :: "i16 list \<Rightarrow> string" where
  "host_image [] = []"
| "host_image (c # cs) = rev (htons c) @ host_image cs"

lemma length_codes_image [simp]: "length (codes_image cs) = 2 * length cs"
  by (induction cs) auto

lemma length_host_image [simp]: "length (host_image cs) = 2 * length cs"
  by (induction cs) auto

lemma overwrite_append [simp]:
  "n = length pre \<Longrightarrow> length new = length old \<Longrightarrow> overwrite n new (pre @ old @ post) = pre @ new @ post"
  by (simp add: overwrite_def)

lemma in_buf_append [simp]:
  "in_buf (int (length pre)) n (pre @ rest) \<longleftrightarrow> n \<le> int (length rest)"
  by (simp add: in_buf_def)

lemma swap_codes_image:
  "set cs \<subseteq> {0, 1} \<Longrightarrow>
   swap_codes what (length cs) (int (length pre)) (pre @ codes_image cs @ post) =
     Done (pre @ host_image cs @ post)"
proof (induction cs arbitrary: pre)
  case (Cons c cs)
  from Cons.IH [of "pre @ rev (htons c)"] Cons.prems
  have "swap_codes what (length cs) (int (length pre) + 2) (pre @ rev (htons c) @ codes_image cs @ post) =
      Done (pre @ rev (htons c) @ host_image cs @ post)" by (simp add: add.commute)
  moreover have "overwrite (length pre) (rev (htons c)) (pre @ htons c @ codes_image cs @ post) =
      pre @ rev (htons c) @ codes_image cs @ post" by simp
  ultimately show ?case using Cons.prems by (auto simp: Let_def)
qed simp

lemma swap_codes_Done:
  assumes "swap_codes what n (int (length pre)) (pre @ mid @ post) = Done buf" and "length mid = 2 * n"
  obtains cs where "mid = codes_image cs" and "length cs = n" and "set cs \<subseteq> {0, 1}"
    and "buf = pre @ host_image cs @ post"
  using assms
proof (induction n arbitrary: pre mid thesis)
  case (Suc n)
  define c where "c = ntohs mid"
  have mid: "mid = htons c @ drop 2 mid"
    using Suc.prems(3) by (simp add: c_def)
  have buf: "overwrite (length pre) (rev (htons c)) (pre @ mid @ post) =
      (pre @ rev (htons c)) @ drop 2 mid @ post"
    by (subst mid) simp
  have c: "ntohs (mid @ post) = c" by (subst mid) simp
  from Suc.prems(2) have "c = 0 \<or> c = 1" and
    "swap_codes what n (int (length pre) + 2) ((pre @ rev (htons c)) @ drop 2 mid @ post) = Done buf"
    using buf c Suc.prems(3) by (auto simp: Let_def split: if_splits)
  moreover from this(2) have
    "swap_codes what n (int (length (pre @ rev (htons c)))) ((pre @ rev (htons c)) @ drop 2 mid @ post) =
      Done buf" by (simp add: add.commute)
  then obtain cs where "drop 2 mid = codes_image cs" "length cs = n" "set cs \<subseteq> {0, 1}"
    "buf = (pre @ rev (htons c)) @ host_image cs @ post"
    using Suc.IH Suc.prems(3) by (metis add_diff_cancel_left' length_drop mult_Suc_right)
  ultimately show ?case using mid by (intro Suc.prems(1) [of "c # cs"]) auto
qed simp

lemma host_image_read:
  "map (\<lambda>i. ntohs (rev (take 2 (drop (2 * i) (host_image cs @ post))))) [0..<length cs] = cs"
proof (induction cs)
  case (Cons c cs)
  have "[0..<length (c # cs)] = 0 # map Suc [0..<length cs]"
    by (simp add: upt_conv_Cons map_Suc_upt del: upt_Suc)
  moreover have "drop (2 * Suc i) (host_image (c # cs) @ post) = drop (2 * i) (host_image cs @ post)" for i
    by simp
  ultimately show ?case using Cons.IH by (simp add: comp_def)
qed simp

lemma host_codes_image:
  "host_codes (length cs) (int (length pre)) (pre @ host_image cs @ post) = cs"
  using host_image_read [of cs post] by (simp add: host_codes_def)

section \<open>Parameters\<close>

fun parm_refs :: "nat \<Rightarrow> string list \<Rightarrow> (i32 \<times> int) list" where
  "parm_refs p [] = []"
| "parm_refs p (v # vs) = (of_nat (length v), int p + 4) # parm_refs (p + 4 + length v) vs"

lemma sint_of_length: "length v < 2 ^ 31 \<Longrightarrow> sint (of_nat (length v) :: i32) = int (length v)"
  using sint_u32_small [of "of_nat (length v)"] by simp

lemma bind_parms_loop_image:
  assumes "\<forall>v \<in> set vs. length v < 2 ^ 31"
    and "int (length pre + length (parms_image vs)) \<le> last_byte"
    and "last_byte + 4 = int (length (pre @ parms_image vs @ post))"
  shows "bind_parms_loop (length vs) (int (length pre)) last_byte (pre @ parms_image vs @ post) =
    Done (parm_refs (length pre) vs, int (length pre + length (parms_image vs)))"
  using assms
proof (induction vs arbitrary: pre)
  case (Cons v vs)
  from Cons.IH [of "pre @ htonl (of_nat (length v)) @ v"] Cons.prems
  have "bind_parms_loop (length vs) (int (length pre) + 4 + int (length v)) last_byte
      (pre @ parms_image (v # vs) @ post) =
    Done (parm_refs (length pre + 4 + length v) vs, int (length pre + length (parms_image (v # vs))))"
    by (simp add: add.assoc)
  then show ?case using Cons.prems sint_of_length [of v] by (simp add: Let_def)
qed simp

lemma parm_refs_values:
  "\<forall>v \<in> set vs. length v < 2 ^ 31 \<Longrightarrow>
   map (\<lambda>(len, p). take (nat (sint len)) (drop (nat p) (pre @ parms_image vs @ post)))
     (parm_refs (length pre) vs) = vs"
proof (induction vs arbitrary: pre)
  case (Cons v vs)
  from Cons.IH [of "pre @ htonl (of_nat (length v)) @ v"] Cons.prems
  have "map (\<lambda>(len, p). take (nat (sint len)) (drop (nat p) (pre @ parms_image (v # vs) @ post)))
     (parm_refs (length pre + 4 + length v) vs) = vs" by (simp add: add.assoc)
  moreover have "nat (int (length pre) + 4) = length pre + 4" by simp
  ultimately show ?case using Cons.prems sint_of_length [of v] by simp
qed simp

definition lengths_ok :: "(i32 \<times> int) list \<Rightarrow> bool" where
  "lengths_ok ps \<longleftrightarrow> (\<forall>(len, p) \<in> set ps. 0 \<le> sint len)"

lemma sint_i32_bound: "sint (w :: i32) < 2 ^ 31"
  using sint_lt [of w] by simp

lemma of_nat_nat_sint: "0 \<le> sint (w :: i32) \<Longrightarrow> of_nat (nat (sint w)) = w"
  by (simp only: of_nat_nat of_int_sint scast_id)

lemma bind_parms_loop_Done:
  assumes "bind_parms_loop n (int (length pre)) last_byte (pre @ rest) = Done (ps, e)"
    and "lengths_ok ps" and "last_byte \<le> int (length (pre @ rest))"
  obtains vs post where "rest = parms_image vs @ post" and "length vs = n"
    and "\<forall>v \<in> set vs. length v < 2 ^ 31" and "ps = parm_refs (length pre) vs"
    and "e = int (length pre + length (parms_image vs))"
  using assms
proof (induction n arbitrary: pre rest ps thesis)
  case 0
  from "0.prems" show ?case by (intro "0.prems"(1) [of "[]" rest]) simp_all
next
  case (Suc n)
  define w where "w = ntohl rest"
  from Suc.prems(2) obtain ps' where ps: "ps = (w, int (length pre) + 4) # ps'"
    and fits: "int (length pre) + 4 + sint w \<le> last_byte" "8 \<le> length rest"
    and loop: "bind_parms_loop n (int (length pre) + 4 + sint w) last_byte (pre @ rest) = Done (ps', e)"
    by (cases "bind_parms_loop n (int (length pre) + 4 + sint w) last_byte (pre @ rest)")
      (auto simp: Let_def w_def split: if_splits)
  define k where "k = nat (sint w)"
  have k: "sint w = int k" using Suc.prems(3) by (simp add: lengths_ok_def ps k_def)
  define v where "v = take k (drop 4 rest)"
  have len: "length v = k" using fits(1) k Suc.prems(4) by (simp add: v_def)
  have w: "w = of_nat (length v)" using of_nat_nat_sint [of w] unfolding k len by simp
  have small: "length v < 2 ^ 31" using sint_i32_bound [of w] k len by simp
  let ?pre = "pre @ htonl w @ v" and ?rest = "drop (4 + k) rest"
  have "v @ ?rest = drop 4 rest"
    using append_take_drop_id [of k "drop 4 rest"] by (simp add: v_def add.commute)
  moreover have "htonl w = take 4 rest" using fits(2) by (simp add: w_def)
  ultimately have rest: "htonl w @ v @ ?rest = rest" by simp
  have split: "pre @ rest = ?pre @ ?rest" by (simp add: rest)
  have pos: "int (length pre) + 4 + sint w = int (length ?pre)" using len k by simp
  have loop': "bind_parms_loop n (int (length ?pre)) last_byte (?pre @ ?rest) = Done (ps', e)"
    using loop unfolding split pos .
  have ok': "lengths_ok ps'" using Suc.prems(3) by (simp add: ps lengths_ok_def)
  have bound': "last_byte \<le> int (length (?pre @ ?rest))" using Suc.prems(4) unfolding split .
  obtain vs post where vs: "?rest = parms_image vs @ post" "length vs = n"
    "\<forall>v \<in> set vs. length v < 2 ^ 31" "ps' = parm_refs (length ?pre) vs"
    "e = int (length ?pre + length (parms_image vs))"
    by (rule Suc.IH [OF _ loop' ok' bound'])
  have "rest = parms_image (v # vs) @ post" using rest [symmetric] unfolding vs(1) using w by simp
  moreover have "length (v # vs) = Suc n" using vs(2) by simp
  moreover have "\<forall>u \<in> set (v # vs). length u < 2 ^ 31" using vs(3) small by simp
  moreover have "ps = parm_refs (length pre) (v # vs)"
    unfolding ps vs(4) using w by (simp add: add.assoc)
  moreover have "e = int (length pre + length (parms_image (v # vs)))"
    unfolding vs(5) by simp
  ultimately show ?case by (rule Suc.prems(1))
qed

lemma bind_parms_loop_bound:
  "bind_parms_loop n cur last_byte buf = Done (ps, e) \<Longrightarrow> cur \<le> last_byte \<Longrightarrow> e \<le> last_byte"
proof (induction n arbitrary: cur ps)
  case (Suc n)
  let ?cur = "cur + 4 + sint (ntohl (drop (nat cur) buf))"
  from Suc.prems obtain ps' where "bind_parms_loop n ?cur last_byte buf = Done (ps', e)"
    and "?cur \<le> last_byte"
    by (cases "bind_parms_loop n ?cur last_byte buf") (auto simp: Let_def split: if_splits)
  then show ?case by (rule Suc.IH)
qed simp

section \<open>Conforming messages are read\<close>

lemma sint_count: "n < 2 ^ 15 \<Longrightarrow> sint (of_nat n :: i16) = int n"
  using sint_i16_small [of "of_nat n"] by (simp add: unat_of_nat take_bit_nat_eq_self)

lemma read_bind_results_image:
  assumes "set rs \<subseteq> {0, 1}" and "length rs < 2 ^ 15"
    and "last_byte = int (length pre + 2 + 2 * length rs)"
  shows "read_bind_results ret (int (length pre)) last_byte
      (pre @ htons (of_nat (length rs)) @ codes_image rs @ z) =
    Done (ret\<lparr>b_num_result_col_format_codes := of_nat (length rs),
               b_result_col_format_codes := int (length pre) + 2,
               b_data := pre @ htons (of_nat (length rs)) @ host_image rs @ z\<rparr>, None)"
proof -
  have "swap_codes what (length rs) (int (length pre) + 2)
      (pre @ htons (of_nat (length rs)) @ codes_image rs @ z) =
    Done (pre @ htons (of_nat (length rs)) @ host_image rs @ z)" for what
    using swap_codes_image [OF assms(1), of what "pre @ htons (of_nat (length rs))" z]
    by (simp add: add.commute)
  then show ?thesis
    using assms sint_count [OF assms(2)] by (simp add: read_bind_results_def Let_def)
qed

lemma read_bind_parms_image:
  assumes vs: "\<forall>v \<in> set vs. length v < 2 ^ 31" "length vs < 2 ^ 15"
    and rs: "set rs \<subseteq> {0, 1}" "length rs < 2 ^ 15"
    and fs: "b_num_parm_format_codes ret = of_nat nf" "nf < 2 ^ 15"
      "nf \<le> 1 \<and> nf \<le> length vs \<or> nf = length vs"
    and buf: "buf = pre @ htons (of_nat (length vs)) @ parms_image vs @
      htons (of_nat (length rs)) @ codes_image rs @ replicate 4 NUL"
  shows "read_bind_parms ret (int (length pre)) (int (length buf) - 4) buf =
    Done (ret\<lparr>b_num_parms := of_nat (length vs), b_parms := parm_refs (length pre + 2) vs,
               b_num_result_col_format_codes := of_nat (length rs),
               b_result_col_format_codes := int (length pre + 2 + length (parms_image vs)) + 2,
               b_data := pre @ htons (of_nat (length vs)) @ parms_image vs @
                 htons (of_nat (length rs)) @ host_image rs @ replicate 4 NUL\<rparr>, None)"
proof -
  let ?pre = "pre @ htons (of_nat (length vs))"
  let ?post = "htons (of_nat (length rs)) @ codes_image rs @ replicate 4 NUL"
  have loop: "bind_parms_loop (length vs) (int (length ?pre)) (int (length buf) - 4)
      (?pre @ parms_image vs @ ?post) =
    Done (parm_refs (length ?pre) vs, int (length ?pre + length (parms_image vs)))"
    by (rule bind_parms_loop_image [OF vs(1)]) (simp_all add: buf)
  have res: "read_bind_results r (int (length (?pre @ parms_image vs))) (int (length buf) - 4)
      ((?pre @ parms_image vs) @ htons (of_nat (length rs)) @ codes_image rs @ replicate 4 NUL) =
    Done (r\<lparr>b_num_result_col_format_codes := of_nat (length rs),
             b_result_col_format_codes := int (length (?pre @ parms_image vs)) + 2,
             b_data := (?pre @ parms_image vs) @ htons (of_nat (length rs)) @ host_image rs @
               replicate 4 NUL\<rparr>, None)" for r
    by (rule read_bind_results_image [OF rs]) (simp add: buf)
  have "sint (of_nat nf :: i16) = int nf" "sint (of_nat (length vs) :: i16) = int (length vs)"
    using sint_count fs(2) vs(2) by simp_all
  with fs loop res show ?thesis
    unfolding read_bind_parms_def by (auto simp: Let_def buf add.commute add.left_commute)
qed

text \<open>The struct that a conforming message is read into.\<close>

definition bind_struct :: "bind_message \<Rightarrow> Bind" where
  "bind_struct x =
     (let codes = length (bm_dest x) + 1 + length (bm_source x) + 1 + 2;
          parms = codes + 2 * length (bm_formats x) + 2;
          results = parms + length (parms_image (bm_parms x)) + 2
      in \<lparr>b_dest = 0, b_source = length (bm_dest x) + 1,
          b_num_parm_format_codes = of_nat (length (bm_formats x)), b_parm_format_codes = int codes,
          b_num_parms = of_nat (length (bm_parms x)), b_parms = parm_refs parms (bm_parms x),
          b_num_result_col_format_codes = of_nat (length (bm_results x)),
          b_result_col_format_codes = int results,
          b_data = bm_dest x @ NUL # bm_source x @ NUL # htons (of_nat (length (bm_formats x))) @
            host_image (bm_formats x) @ htons (of_nat (length (bm_parms x))) @
            parms_image (bm_parms x) @ htons (of_nat (length (bm_results x))) @
            host_image (bm_results x) @ replicate 4 NUL\<rparr>)"

lemma read_bind_formats_image:
  assumes wf: "bind_wf x"
    and buf: "buf = pre @ htons (of_nat (length (bm_formats x))) @ codes_image (bm_formats x) @
      htons (of_nat (length (bm_parms x))) @ parms_image (bm_parms x) @
      htons (of_nat (length (bm_results x))) @ codes_image (bm_results x) @ replicate 4 NUL"
  shows "read_bind_formats ret (int (length pre)) (int (length buf) - 4) buf =
    (let codes = length pre + 2; parms = codes + 2 * length (bm_formats x) + 2;
         results = parms + length (parms_image (bm_parms x)) + 2
     in Done (ret\<lparr>b_num_parm_format_codes := of_nat (length (bm_formats x)),
          b_parm_format_codes := int codes, b_num_parms := of_nat (length (bm_parms x)),
          b_parms := parm_refs parms (bm_parms x),
          b_num_result_col_format_codes := of_nat (length (bm_results x)),
          b_result_col_format_codes := int results,
          b_data := pre @ htons (of_nat (length (bm_formats x))) @ host_image (bm_formats x) @
            htons (of_nat (length (bm_parms x))) @ parms_image (bm_parms x) @
            htons (of_nat (length (bm_results x))) @ host_image (bm_results x) @ replicate 4 NUL\<rparr>, None))"
proof -
  let ?fs = "bm_formats x" and ?vs = "bm_parms x" and ?rs = "bm_results x"
  let ?hd = "pre @ htons (of_nat (length ?fs))"
  let ?tl = "htons (of_nat (length ?vs)) @ parms_image ?vs @ htons (of_nat (length ?rs)) @
    codes_image ?rs @ replicate 4 NUL"
  define buf' where "buf' = (?hd @ host_image ?fs) @ ?tl"
  have fs: "set ?fs \<subseteq> {0, 1}" and rs: "set ?rs \<subseteq> {0, 1}" "length ?rs < 2 ^ 15"
    and vs: "\<forall>v \<in> set ?vs. length v < 2 ^ 31" "length ?vs < 2 ^ 15"
    and count: "length ?fs \<le> 1 \<and> length ?fs \<le> length ?vs \<or> length ?fs = length ?vs"
    using wf by (simp_all add: bind_wf_def)
  have nf: "length ?fs < 2 ^ 15" using count vs(2) by auto
  have swap: "swap_codes what (length ?fs) (int (length pre) + 2) buf = Done buf'" for what
    using swap_codes_image [OF fs, of what ?hd ?tl] by (simp add: buf buf'_def add.commute)
  have pos: "int (length pre) + 2 + 2 * int (length ?fs) = int (length (?hd @ host_image ?fs))"
    and len: "int (length buf) - 4 = int (length buf') - 4"
    by (simp_all add: buf buf'_def)
  have num: "ntohs (drop (length pre) buf) = of_nat (length ?fs)"
    and cap: "in_buf (int (length pre)) 2 buf"
      "\<not> int (length pre) + 2 > int (length buf) - 4"
      "\<not> int (length pre) + 2 + 2 * int (length ?fs) > int (length buf) - 4"
    by (simp_all add: buf)
  have "read_bind_formats ret (int (length pre)) (int (length buf) - 4) buf =
    read_bind_parms (ret\<lparr>b_num_parm_format_codes := of_nat (length ?fs),
        b_parm_format_codes := int (length pre) + 2\<rparr>)
      (int (length pre) + 2 + 2 * int (length ?fs)) (int (length buf') - 4) buf'"
    using cap len by (simp add: read_bind_formats_def Let_def num sint_count [OF nf] swap)
  also have "\<dots> = Done (ret\<lparr>b_num_parm_format_codes := of_nat (length ?fs),
        b_parm_format_codes := int (length pre) + 2, b_num_parms := of_nat (length ?vs),
        b_parms := parm_refs (length (?hd @ host_image ?fs) + 2) ?vs,
        b_num_result_col_format_codes := of_nat (length ?rs),
        b_result_col_format_codes :=
          int (length (?hd @ host_image ?fs) + 2 + length (parms_image ?vs)) + 2,
        b_data := (?hd @ host_image ?fs) @ htons (of_nat (length ?vs)) @ parms_image ?vs @
          htons (of_nat (length ?rs)) @ host_image ?rs @ replicate 4 NUL\<rparr>, None)"
    unfolding pos by (rule read_bind_parms_image [OF vs rs _ nf count]) (simp_all add: buf'_def)
  finally show ?thesis by (simp add: Let_def)
qed

lemma read_bind_image:
  assumes fr: "framed m" and ty: "mtype m = PSQL_Bind" and wf: "bind_wf x"
    and d: "mdata m = bind_image x"
  shows "read_bind m = Done (bind_struct x, None)"
proof -
  have free: "nul_free (bm_dest x)" "nul_free (bm_source x)" using wf by (simp_all add: bind_wf_def)
  let ?pre = "bm_dest x @ NUL # bm_source x @ [NUL]"
  note formats = read_bind_formats_image [OF wf, of "mdata m @ replicate 4 NUL" ?pre]
  have start: "scan_nul (mdata m) = length (bm_dest x)"
      "scan_nul (drop (length (bm_dest x) + 1) (mdata m)) = length (bm_source x)"
      "length (bm_dest x) \<noteq> length (mdata m)"
      "length (bm_dest x) + 1 + length (bm_source x) \<noteq> length (mdata m)"
    using free by (simp_all add: d bind_image_def)
  have pos: "int (length (bm_dest x) + 1 + length (bm_source x) + 1) = int (length ?pre)"
    and len: "int (length (mdata m)) = int (length (mdata m @ replicate 4 NUL)) - 4"
    by simp_all
  show ?thesis
    unfolding read_bind_def Let_def framed_body [OF fr] start(1,2) pos len bind_struct_def
    using framed_body(1) [OF fr] ty start(3,4) formats
    by (simp add: d bind_image_def Let_def)
qed

lemma bind_view_struct:
  assumes "bind_wf x"
  shows "bind_view (bind_struct x) = x"
proof -
  let ?fs = "bm_formats x" and ?vs = "bm_parms x" and ?rs = "bm_results x" and ?b = "bind_struct x"
  let ?hd = "bm_dest x @ NUL # bm_source x @ NUL # htons (of_nat (length ?fs))"
  let ?ph = "?hd @ host_image ?fs @ htons (of_nat (length ?vs))"
  let ?rh = "?ph @ parms_image ?vs @ htons (of_nat (length ?rs))"
  have free: "nul_free (bm_dest x)" "nul_free (bm_source x)"
    and small: "\<forall>v \<in> set ?vs. length v < 2 ^ 31" "length ?vs < 2 ^ 15" "length ?rs < 2 ^ 15"
      "length ?fs < 2 ^ 15"
    using assms by (auto simp: bind_wf_def)
  have data: "b_data ?b = ?hd @ host_image ?fs @ (htons (of_nat (length ?vs)) @ parms_image ?vs @
        htons (of_nat (length ?rs)) @ host_image ?rs @ replicate 4 NUL)"
      "b_data ?b = ?ph @ parms_image ?vs @ (htons (of_nat (length ?rs)) @ host_image ?rs @ replicate 4 NUL)"
      "b_data ?b = ?rh @ host_image ?rs @ replicate 4 NUL"
    by (simp_all add: bind_struct_def Let_def)
  have "host_codes (length ?fs) (int (length ?hd)) (b_data ?b) = ?fs"
    unfolding data(1) by (rule host_codes_image)
  moreover have "host_codes (length ?rs) (int (length ?rh)) (b_data ?b) = ?rs"
    unfolding data(3) by (rule host_codes_image)
  moreover have "map (\<lambda>(len, p). take (nat (sint len)) (drop (nat p) (b_data ?b)))
      (parm_refs (length ?ph) ?vs) = ?vs"
    unfolding data(2) by (rule parm_refs_values [OF small(1)])
  moreover have "cstr (b_data ?b) = bm_dest x" "cstr (drop (length (bm_dest x) + 1) (b_data ?b)) = bm_source x"
    using free by (simp_all add: data(1))
  moreover have "b_dest ?b = 0" "b_source ?b = length (bm_dest x) + 1"
      "short_count (b_num_parm_format_codes ?b) = length ?fs" "b_parm_format_codes ?b = int (length ?hd)"
      "short_count (b_num_result_col_format_codes ?b) = length ?rs"
      "b_result_col_format_codes ?b = int (length ?rh)"
    using sint_count small by (simp_all add: bind_struct_def Let_def add.commute add.left_commute)
  moreover have "b_parms ?b = parm_refs (length ?ph) ?vs"
    by (simp add: bind_struct_def Let_def add.assoc)
  ultimately show ?thesis by (simp only: bind_view_def drop_0) simp
qed

section \<open>What is read conforms\<close>

lemma sint_i16_less: "sint (w :: i16) < 2 ^ 15"
  using sint_lt [of w] by simp

lemma of_nat_short_count: "0 \<le> sint (w :: i16) \<Longrightarrow> of_nat (short_count w) = w"
  by (simp only: of_nat_nat of_int_sint scast_id)

lemma and_then_Done: "and_then r f = Done y \<longleftrightarrow> (\<exists>x. r = Done x \<and> f x = Done y)"
  by (cases r) auto

lemma counted:
  assumes "0 \<le> sint num" and "length xs = short_count num"
  shows "num = of_nat (length xs)" and "length xs < 2 ^ 15"
  using assms of_nat_short_count [OF assms(1)] sint_i16_less [of num] by simp_all

lemma read_bind_results_Done:
  assumes r: "read_bind_results ret (int (length pre)) (int (length pre + length rest)) (pre @ rest @ z) =
      Done (b, None)"
  obtains rs where "rest = htons (of_nat (length rs)) @ codes_image rs" and "set rs \<subseteq> {0, 1}"
    and "length rs < 2 ^ 15" and "b_parms b = b_parms ret"
proof -
  define num where "num = ntohs (rest @ z)"
  from r obtain buf where num0: "0 \<le> sint num" and len: "int (length rest) = 2 + 2 * sint num"
    and swap: "swap_codes ''result column format code'' (short_count num) (int (length pre) + 2)
        (pre @ rest @ z) = Done buf"
    and b: "b_parms b = b_parms ret"
    by (auto simp: read_bind_results_def Let_def and_then_Done num_def split: if_splits)
  have rest: "rest = htons num @ drop 2 rest" using len num0 by (simp add: num_def)
  have "swap_codes ''result column format code'' (short_count num) (int (length (pre @ htons num)))
      ((pre @ htons num) @ drop 2 rest @ z) = Done buf"
  proof -
    have "pre @ rest @ z = (pre @ htons num) @ drop 2 rest @ z" by (subst rest) simp
    with swap show ?thesis by (simp add: add.commute)
  qed
  moreover have "length (drop 2 rest) = 2 * short_count num" using len num0 by simp
  ultimately obtain rs where rs: "drop 2 rest = codes_image rs" "length rs = short_count num"
    "set rs \<subseteq> {0, 1}"
    by (rule swap_codes_Done)
  have "rest = htons (of_nat (length rs)) @ codes_image rs"
    using rest counted(1) [OF num0 rs(2)] rs(1) by simp
  with rs(3) counted(2) [OF num0 rs(2)] b show thesis by (intro that)
qed

lemma read_bind_results_parms:
  "read_bind_results ret cur last_byte buf = Done (b, w) \<Longrightarrow> b_parms b = b_parms ret"
  by (auto simp: read_bind_results_def Let_def and_then_Done split: if_splits)

lemma read_bind_parms_Done:
  assumes r: "read_bind_parms ret (int (length pre)) (int (length pre + length rest)) (pre @ rest @ z) =
      Done (b, None)"
    and ok: "lengths_ok (b_parms b)" and z: "length z = 4"
    and fs: "b_num_parm_format_codes ret = of_nat nf" "nf < 2 ^ 15"
  obtains vs rs where "rest = htons (of_nat (length vs)) @ parms_image vs @
      htons (of_nat (length rs)) @ codes_image rs"
    and "set rs \<subseteq> {0, 1}" and "length rs < 2 ^ 15" and "length vs < 2 ^ 15"
    and "\<forall>v \<in> set vs. length v < 2 ^ 31"
    and "nf \<le> 1 \<and> nf \<le> length vs \<or> nf = length vs"
proof -
  let ?last = "int (length pre + length rest)"
  define num where "num = ntohs (rest @ z)"
  from r obtain ps e where num0: "0 \<le> sint num" and many: "sint (of_nat nf :: i16) \<le> sint num"
    and few: "\<not> (sint (of_nat nf :: i16) > 1 \<and> of_nat nf \<noteq> num)" and len: "2 \<le> length rest"
    and loop: "bind_parms_loop (short_count num) (int (length pre) + 2) ?last (pre @ rest @ z) = Done (ps, e)"
    and res: "read_bind_results (ret\<lparr>b_num_parms := num, b_parms := ps\<rparr>) e ?last (pre @ rest @ z) =
      Done (b, None)"
    using fs by (auto simp: read_bind_parms_def Let_def and_then_Done num_def split: if_splits)
  have ps: "lengths_ok ps" using ok read_bind_results_parms [OF res] by simp
  have rest: "rest = htons num @ drop 2 rest" using len by (simp add: num_def)
  have buf: "pre @ rest @ z = (pre @ htons num) @ (drop 2 rest @ z)" by (subst rest) simp
  have pos: "int (length pre) + 2 = int (length (pre @ htons num))" by simp
  have "?last \<le> int (length ((pre @ htons num) @ (drop 2 rest @ z)))" using len by simp
  from bind_parms_loop_Done [OF loop [unfolded buf pos] ps this] obtain vs post
    where vs: "drop 2 rest @ z = parms_image vs @ post" "length vs = short_count num"
      "\<forall>v \<in> set vs. length v < 2 ^ 31"
      and e: "e = int (length (pre @ htons num) + length (parms_image vs))" by metis
  have le: "e \<le> ?last"
    by (rule bind_parms_loop_bound [OF loop]) (use len in simp)
  define rest' where "rest' = drop (length (parms_image vs)) (drop 2 rest)"
  have "length (parms_image vs) \<le> length (drop 2 rest)" using le e len by simp
  then have "take (length (parms_image vs)) (drop 2 rest) = parms_image vs"
    using arg_cong [OF vs(1), of "take (length (parms_image vs))"] by simp
  then have post: "drop 2 rest = parms_image vs @ rest'"
    using append_take_drop_id [of "length (parms_image vs)" "drop 2 rest"] by (simp add: rest'_def)
  let ?pre = "pre @ htons num @ parms_image vs"
  have "read_bind_results (ret\<lparr>b_num_parms := num, b_parms := ps\<rparr>) (int (length ?pre))
      (int (length ?pre + length rest')) (?pre @ rest' @ z) = Done (b, None)"
  proof -
    have "pre @ rest @ z = ?pre @ rest' @ z" unfolding buf using post by simp
    moreover have "?last = int (length ?pre + length rest')"
      using len arg_cong [OF post, of length] by simp
    ultimately show ?thesis using res e by simp
  qed
  then obtain rs where rs: "rest' = htons (of_nat (length rs)) @ codes_image rs" "set rs \<subseteq> {0, 1}"
    "length rs < 2 ^ 15" by (rule read_bind_results_Done)
  note cnt = counted [OF num0 vs(2)]
  have "sint (of_nat nf :: i16) = int nf" using sint_count [OF fs(2)] .
  moreover have "sint num = int (length vs)" using vs(2) num0 by simp
  moreover have "nf = length vs" if "of_nat nf = num"
    using that calculation by (metis of_nat_eq_iff)
  ultimately have "nf \<le> 1 \<and> nf \<le> length vs \<or> nf = length vs" using many few by linarith
  moreover have "rest = htons (of_nat (length vs)) @ parms_image vs @
      htons (of_nat (length rs)) @ codes_image rs"
    using rest unfolding post rs(1) cnt(1) .
  ultimately show thesis using rs(2,3) cnt(2) vs(3) by (intro that)
qed

lemma read_bind_formats_Done:
  assumes r: "read_bind_formats ret (int (length pre)) (int (length pre + length rest)) (pre @ rest @ z) =
      Done (b, None)"
    and ok: "lengths_ok (b_parms b)" and z: "length z = 4"
  obtains fs vs rs where "rest = htons (of_nat (length fs)) @ codes_image fs @
      htons (of_nat (length vs)) @ parms_image vs @ htons (of_nat (length rs)) @ codes_image rs"
    and "set fs \<subseteq> {0, 1}" and "set rs \<subseteq> {0, 1}" and "length rs < 2 ^ 15" and "length vs < 2 ^ 15"
    and "\<forall>v \<in> set vs. length v < 2 ^ 31"
    and "length fs \<le> 1 \<and> length fs \<le> length vs \<or> length fs = length vs"
proof -
  let ?last = "int (length pre + length rest)"
  define num where "num = ntohs (rest @ z)"
  from r obtain buf where num0: "0 \<le> sint num" and len: "2 + 2 * sint num \<le> int (length rest)"
    and swap: "swap_codes ''parameter format code'' (short_count num) (int (length pre) + 2)
      (pre @ rest @ z) = Done buf"
    and parms: "read_bind_parms
      (ret\<lparr>b_num_parm_format_codes := num, b_parm_format_codes := int (length pre) + 2\<rparr>)
      (int (length pre) + 2 + 2 * sint num) ?last buf = Done (b, None)"
    by (auto simp: read_bind_formats_def Let_def and_then_Done num_def split: if_splits)
  let ?n = "short_count num"
  define mid where "mid = take (2 * ?n) (drop 2 rest)"
  define rest' where "rest' = drop (2 * ?n) (drop 2 rest)"
  have "rest = htons num @ drop 2 rest" using len num0 by (simp add: num_def)
  then have rest: "rest = htons num @ mid @ rest'" by (simp only: mid_def rest'_def append_take_drop_id)
  have mid: "length mid = 2 * ?n" using len num0 by (simp add: mid_def)
  have buf: "pre @ rest @ z = (pre @ htons num) @ mid @ (rest' @ z)" by (subst rest) simp
  have pos: "int (length pre) + 2 = int (length (pre @ htons num))" by simp
  from swap_codes_Done [OF swap [unfolded buf pos] mid] obtain fs
    where fs: "mid = codes_image fs" "length fs = ?n" "set fs \<subseteq> {0, 1}"
      "buf = (pre @ htons num) @ host_image fs @ rest' @ z" .
  note cnt = counted [OF num0 fs(2)]
  let ?pre = "pre @ htons num @ host_image fs"
  have p1: "int (length pre) + 2 + 2 * sint num = int (length ?pre)" using fs(2) num0 by simp
  have p2: "?last = int (length ?pre + length rest')"
    using arg_cong [OF rest, of length] fs(2) mid by simp
  have p3: "buf = ?pre @ rest' @ z" using fs(4) by simp
  from read_bind_parms_Done [OF parms [unfolded p1 p2 p3] ok z _ cnt(2)] cnt(1) obtain vs rs
    where "rest' = htons (of_nat (length vs)) @ parms_image vs @ htons (of_nat (length rs)) @ codes_image rs"
    and "set rs \<subseteq> {0, 1}" and "length rs < 2 ^ 15" and "length vs < 2 ^ 15"
    and "\<forall>v \<in> set vs. length v < 2 ^ 31"
    and "length fs \<le> 1 \<and> length fs \<le> length vs \<or> length fs = length vs" by auto
  moreover from this(1) have "rest = htons (of_nat (length fs)) @ codes_image fs @
      htons (of_nat (length vs)) @ parms_image vs @ htons (of_nat (length rs)) @ codes_image rs"
    using rest fs(1) cnt(1) by simp
  ultimately show thesis using fs(3) by (intro that)
qed

text \<open>
  A message that \<open>read_bind\<close> returns without setting an error, and whose parameter lengths are not
  negative, is the image of what the struct shows.
\<close>

lemma read_bind_sound:
  assumes fr: "framed m" and ty: "mtype m = PSQL_Bind" and r: "read_bind m = Done (b, None)"
    and ok: "lengths_ok (b_parms b)"
  shows "bind_wf (bind_view b) \<and> mdata m = bind_image (bind_view b)"
proof -
  let ?d = "mdata m"
  define n where "n = scan_nul ?d"
  define k where "k = scan_nul (drop (n + 1) ?d)"
  define c where "c = n + 1 + k + 1"
  define ret where "ret = \<lparr>b_dest = 0, b_source = n + 1, b_num_parm_format_codes = 0,
    b_parm_format_codes = 0, b_num_parms = 0, b_parms = [], b_num_result_col_format_codes = 0,
    b_result_col_format_codes = 0, b_data = ?d @ replicate 4 NUL\<rparr>"
  note steps = r [unfolded read_bind_def Let_def framed_body [OF fr], folded n_def, folded k_def,
    folded c_def, folded ret_def]
  from steps framed_body(1) [OF fr] ty have n: "n \<noteq> length ?d" and k: "n + 1 + k \<noteq> length ?d"
    and formats: "read_bind_formats ret (int c) (int (length ?d)) (?d @ replicate 4 NUL) = Done (b, None)"
    by (auto split: if_splits)
  define r1 where "r1 = drop (n + 1) ?d"
  have n': "n < length ?d" using n scan_nul_le [of ?d] by (simp add: n_def)
  have d: "?d = take n ?d @ NUL # r1" and free1: "nul_free (take n ?d)"
    using scan_nul_split [of ?d] n' by (simp_all add: n_def r1_def take_scan_nul)
  have k': "k < length r1" using k n' scan_nul_le [of r1] by (simp add: k_def r1_def)
  have r1: "r1 = take k r1 @ NUL # drop c ?d" and free2: "nul_free (take k r1)"
    using scan_nul_split [of r1] k'
    by (simp_all add: k_def r1_def c_def take_scan_nul add.commute add.left_commute)
  have c: "c \<le> length ?d" using n' k' by (simp add: c_def r1_def)
  let ?pre = "take c ?d" and ?rest = "drop c ?d"
  have "read_bind_formats ret (int (length ?pre)) (int (length ?pre + length ?rest))
      (?pre @ ?rest @ replicate 4 NUL) = Done (b, None)"
    using formats c by (simp add: append_assoc [symmetric] del: append_assoc)
  then obtain fs vs rs where rest: "?rest = htons (of_nat (length fs)) @ codes_image fs @
      htons (of_nat (length vs)) @ parms_image vs @ htons (of_nat (length rs)) @ codes_image rs"
    and wf: "set fs \<subseteq> {0, 1}" "set rs \<subseteq> {0, 1}" "length rs < 2 ^ 15" "length vs < 2 ^ 15"
      "\<forall>v \<in> set vs. length v < 2 ^ 31" "length fs \<le> 1 \<and> length fs \<le> length vs \<or> length fs = length vs"
    by (rule read_bind_formats_Done [OF _ ok]) simp
  define x where "x = \<lparr>bm_dest = take n ?d, bm_source = take k r1, bm_formats = fs, bm_parms = vs,
    bm_results = rs\<rparr>"
  have x: "bind_wf x" using wf free1 free2 by (simp add: bind_wf_def x_def)
  have "?d = take n ?d @ NUL # take k r1 @ NUL # ?rest" using d r1 by simp
  then have img: "?d = bind_image x" unfolding rest by (simp add: bind_image_def x_def)
  from read_bind_image [OF fr ty x img] r have "b = bind_struct x" by simp
  with bind_view_struct [OF x] x img show ?thesis by simp
qed

section \<open>Memory safety\<close>

text \<open>
  The reader leaves the data only by way of a negative length: if no four bytes of the message read
  as a negative number, it never does. The format codes are converted in place before the lengths
  are read, so the condition is on the converted data; it holds for instance if every byte is
  below 128.
\<close>

definition low_bytes :: "string \<Rightarrow> bool" where
  "low_bytes s \<longleftrightarrow> (\<forall>c \<in> set s. of_char c < (128 :: nat))"

lemma be_nat_Cons: "be_nat (c # s) = of_char c * 256 ^ length s + be_nat s"
proof (induction s rule: rev_induct)
  case (snoc x xs)
  then show ?case using be_nat_snoc [of "c # xs" x] by (simp add: algebra_simps)
qed (simp add: be_nat_def)

lemma sint_ntohl_low:
  assumes "low_bytes s" and "4 \<le> length s"
  shows "0 \<le> sint (ntohl s)"
proof -
  obtain c r where s: "take 4 s = c # r" and r: "length r = 3"
    using assms(2) by (cases "take 4 s") (auto dest: arg_cong [of _ _ length])
  have c: "of_char c < (128 :: nat)"
    using assms(1) s by (metis in_set_takeD list.set_intros(1) low_bytes_def)
  have "be_nat (c # r) < 2 ^ 31"
    using c be_nat_less [of r] r by (simp add: be_nat_Cons)
  then show ?thesis using s sint_u32_small [of "ntohl s"] by (simp add: unat_ntohl)
qed

lemma low_bytes_overwrite:
  "low_bytes buf \<Longrightarrow> low_bytes bs \<Longrightarrow> low_bytes (overwrite i bs buf)"
  by (auto simp: low_bytes_def overwrite_def dest: in_set_takeD in_set_dropD)

lemma low_bytes_drop: "low_bytes buf \<Longrightarrow> low_bytes (drop i buf)"
  by (auto simp: low_bytes_def dest: in_set_dropD)

lemma low_bytes_ntohs: "low_bytes buf \<Longrightarrow> 2 \<le> length buf \<Longrightarrow> low_bytes (rev (htons (ntohs buf)))"
  by (auto simp: low_bytes_def dest: in_set_takeD)

text \<open>Safety with a postcondition, and the rules that carry it through a sequence of steps.\<close>

fun safe_with :: "('a \<Rightarrow> bool) \<Rightarrow> ('e, 'a) outcome \<Rightarrow> bool" where
  "safe_with Q Undefined \<longleftrightarrow> False"
| "safe_with Q (Failed e) \<longleftrightarrow> True"
| "safe_with Q (Done x) \<longleftrightarrow> Q x"

lemma safe_with_and_then:
  "safe_with P r \<Longrightarrow> (\<And>x. P x \<Longrightarrow> safe_with Q (f x)) \<Longrightarrow> safe_with Q (and_then r f)"
  by (cases r) auto

lemma safe_with_defined: "safe_with Q r \<Longrightarrow> r \<noteq> Undefined"
  by auto

lemma swap_codes_safe:
  assumes "low_bytes buf" and "0 \<le> p" and "p + 2 * int n \<le> int (length buf)"
  shows "safe_with (\<lambda>b. low_bytes b \<and> length b = length buf) (swap_codes what n p buf)"
  using assms
proof (induction n arbitrary: p buf)
  case (Suc n)
  let ?code = "ntohs (drop (nat p) buf)"
  let ?buf = "overwrite (nat p) (rev (htons ?code)) buf"
  have low: "low_bytes ?buf"
    using Suc.prems by (intro low_bytes_overwrite low_bytes_ntohs low_bytes_drop) auto
  have len: "length ?buf = length buf" using Suc.prems by (intro length_overwrite) auto
  have pos: "0 \<le> p + 2" "p + 2 + 2 * int n \<le> int (length ?buf)" using Suc.prems len by simp_all
  have "in_buf p 2 buf" using Suc.prems by (simp add: in_buf_def)
  then show ?case using Suc.IH [OF low pos] unfolding len by (simp add: Let_def)
qed simp

lemma bind_parms_loop_safe:
  assumes "low_bytes buf" and "0 \<le> cur" and "cur \<le> last_byte"
    and "last_byte + 4 \<le> int (length buf)"
  shows "safe_with (\<lambda>(ps, e). 0 \<le> e \<and> e \<le> last_byte) (bind_parms_loop n cur last_byte buf)"
  using assms(2,3)
proof (induction n arbitrary: cur)
  case (Suc n)
  let ?len = "sint (ntohl (drop (nat cur) buf))"
  have "0 \<le> ?len" if "cur + 4 \<le> last_byte"
    using sint_ntohl_low [OF low_bytes_drop [OF assms(1)], of "nat cur"] that assms(4) Suc.prems
    by simp
  then have "safe_with (\<lambda>(ps, e). 0 \<le> e \<and> e \<le> last_byte)
      (and_then (bind_parms_loop n (cur + 4 + ?len) last_byte buf) (\<lambda>(ps, e). Done (x # ps, e)))"
    if "cur + 4 + ?len \<le> last_byte" "cur + 4 \<le> last_byte" for x
    using that Suc.prems by (intro safe_with_and_then [OF Suc.IH]) auto
  then show ?case using Suc.prems assms(4) by (simp add: Let_def in_buf_def)
qed simp

lemma read_bind_results_safe:
  assumes "low_bytes buf" and "0 \<le> cur" and "cur \<le> last_byte" and "last_byte + 4 \<le> int (length buf)"
  shows "safe_with (\<lambda>_. True) (read_bind_results ret cur last_byte buf)"
proof -
  let ?num = "ntohs (drop (nat cur) buf)"
  have "safe_with (\<lambda>_. True) (and_then (swap_codes what (short_count ?num) (cur + 2) buf) (\<lambda>b. Done (f b)))"
    if "0 \<le> sint ?num" "0 < sint ?num \<longrightarrow> cur + 2 + 2 * sint ?num \<le> last_byte" for what f
    using that assms by (intro safe_with_and_then [OF swap_codes_safe]) auto
  then show ?thesis using assms by (auto simp: read_bind_results_def Let_def in_buf_def)
qed

lemma read_bind_parms_safe:
  assumes "low_bytes buf" and "0 \<le> cur" and "cur \<le> last_byte" and "last_byte + 4 \<le> int (length buf)"
  shows "safe_with (\<lambda>_. True) (read_bind_parms ret cur last_byte buf)"
proof -
  have "safe_with (\<lambda>_. True) (and_then (bind_parms_loop n (cur + 2) last_byte buf)
      (\<lambda>(ps, e). read_bind_results (f ps) e last_byte buf))" if "cur + 2 \<le> last_byte" for n f
    using that assms
    by (intro safe_with_and_then [OF bind_parms_loop_safe]) (auto intro: read_bind_results_safe)
  then show ?thesis using assms by (auto simp: read_bind_parms_def Let_def in_buf_def)
qed

lemma read_bind_formats_safe:
  assumes "low_bytes buf" and "0 \<le> cur" and "cur \<le> last_byte" and "last_byte + 4 \<le> int (length buf)"
  shows "safe_with (\<lambda>_. True) (read_bind_formats ret cur last_byte buf)"
proof -
  let ?num = "ntohs (drop (nat cur) buf)"
  have "safe_with (\<lambda>_. True) (and_then (swap_codes what (short_count ?num) (cur + 2) buf)
      (\<lambda>b. read_bind_parms r (cur + 2 + 2 * sint ?num) last_byte b))"
    if "0 \<le> sint ?num" "cur + 2 + 2 * sint ?num \<le> last_byte" for what r
    using that assms
    by (intro safe_with_and_then [OF swap_codes_safe]) (auto intro: read_bind_parms_safe)
  then show ?thesis using assms by (auto simp: read_bind_formats_def Let_def in_buf_def)
qed

lemma read_bind_safe:
  assumes fr: "framed m" and low: "low_bytes (mdata m)"
  shows "read_bind m \<noteq> Undefined"
proof -
  let ?d = "mdata m" and ?n = "scan_nul (mdata m)"
  let ?k = "scan_nul (drop (?n + 1) ?d)"
  have "safe_with (\<lambda>_. True)
      (read_bind_formats r (int (?n + 1 + ?k + 1)) (int (length ?d)) (?d @ replicate 4 NUL))"
    if "?n \<noteq> length ?d" "?n + 1 + ?k \<noteq> length ?d" for r
    using that low scan_nul_le [of ?d] scan_nul_le [of "drop (?n + 1) ?d"]
    by (intro read_bind_formats_safe) (auto simp: low_bytes_def)
  then have "safe_with (\<lambda>_. True) (read_bind m)"
    using framed_body [OF fr] by (auto simp: read_bind_def Let_def)
  then show ?thesis by (rule safe_with_defined)
qed

section \<open>Properties\<close>

text \<open>C8. Every conforming \<open>Bind\<close> message without a null parameter is read without an error, and what
  the struct shows is what the message encodes: portal, statement, format codes in host byte order,
  parameter values and result format codes.\<close>

theorem read_bind_conforming:
  assumes "framed m" and "mtype m = PSQL_Bind" and "bind_wf x" and "mdata m = bind_image x"
  shows "\<exists>b. read_bind m = Done (b, None) \<and> bind_view b = x"
  using read_bind_image [OF assms] bind_view_struct [OF assms(3)] by blast

theorem read_bind_conforming_witness:
  "\<exists>b. read_bind (client_message PSQL_Bind (bind_image \<lparr>bm_dest = ''d'', bm_source = ''s'',
       bm_formats = [1], bm_parms = [''ab'', []], bm_results = []\<rparr>)) = Done (b, None) \<and>
     bm_parms (bind_view b) = [''ab'', []] \<and> bm_formats (bind_view b) = [1]"
proof -
  let ?x = "\<lparr>bm_dest = ''d'', bm_source = ''s'', bm_formats = [1], bm_parms = [''ab'', []], bm_results = []\<rparr>"
  have fr: "framed (client_message PSQL_Bind (bind_image ?x))"
    by (rule framed_client_message) (simp add: bind_image_def)
  have wf: "bind_wf ?x" by (simp add: bind_wf_def)
  from read_bind_conforming [OF fr _ wf] show ?thesis by (auto simp: client_message_def)
qed

text \<open>C9. Conversely, a message that \<open>read_bind\<close> accepts without setting an error, and none of whose
  parameter lengths is negative, is a conforming one, and the struct shows what it encodes.\<close>

theorem read_bind_accepts_only_conforming:
  assumes "framed m" and "mtype m = PSQL_Bind" and "read_bind m = Done (b, None)"
    and "lengths_ok (b_parms b)"
  shows "bind_wf (bind_view b) \<and> mdata m = bind_image (bind_view b)"
  by (rule read_bind_sound [OF assms])

theorem read_bind_accepts_only_conforming_witness:
  "bind_wf (bind_view (bind_struct \<lparr>bm_dest = [], bm_source = ''s'', bm_formats = [],
     bm_parms = [''v''], bm_results = [0]\<rparr>))"
proof -
  let ?x = "\<lparr>bm_dest = [], bm_source = ''s'', bm_formats = [], bm_parms = [''v''], bm_results = [0]\<rparr>"
  let ?m = "client_message PSQL_Bind (bind_image ?x)"
  have fr: "framed ?m" by (rule framed_client_message) (simp add: bind_image_def)
  have wf: "bind_wf ?x" by (simp add: bind_wf_def)
  have read: "read_bind ?m = Done (bind_struct ?x, None)"
    by (rule read_bind_image [OF fr _ wf]) (simp_all add: client_message_def)
  have "lengths_ok (b_parms (bind_struct ?x))"
    by (simp add: lengths_ok_def bind_struct_def Let_def)
  from read_bind_accepts_only_conforming [OF fr _ read this] show ?thesis
    by (simp add: client_message_def)
qed

text \<open>C26. \<open>read_bind\<close> leaves its memory only through a negative number: a framed message whose bytes
  are all below 128, well-formed or not, never makes it do so.\<close>

theorem read_bind_stays_in_memory:
  assumes "framed m" and "low_bytes (mdata m)"
  shows "read_bind m \<noteq> Undefined"
  by (rule read_bind_safe [OF assms])

theorem read_bind_stays_in_memory_witness:
  "framed (client_message PSQL_Bind ''garbage'') \<and> low_bytes ''garbage'' \<and>
   read_bind (client_message PSQL_Bind ''garbage'') \<noteq> Undefined"
proof -
  have fr: "framed (client_message PSQL_Bind ''garbage'')" by (rule framed_client_message) simp
  have low: "low_bytes ''garbage''" by (simp add: low_bytes_def)
  from read_bind_stays_in_memory [OF fr] fr low show ?thesis by (simp add: client_message_def)
qed

text \<open> A null parameter, which the protocol sends as the length -1 with no bytes, is misread: the
  position moves one byte back, so that the count of result format codes that follows is read from
  the last byte of the length and its own first byte.\<close>

lemma read_bind_null_parameter:
  "read_bind (client_message PSQL_Bind (''d'' @ NUL # ''s'' @ NUL # htons 0 @ htons 1 @ htonl (-1) @ htons 0)) =
     Failed (protocol_error INVALID_NUMBER [ArgS ''Bind'', ArgS ''result column format codes''])"
proof -
  let ?s = "''d'' @ NUL # ''s'' @ NUL # htons 0 @ htons 1 @ htonl (-1) @ htons 0"
  have fr: "framed (client_message PSQL_Bind ?s)" by (rule framed_client_message) simp
  have bytes: "htons 0 = [NUL, NUL]" "htons 1 = [NUL, CHR 0x01]"
      "htonl (-1) = [CHR 0xFF, CHR 0xFF, CHR 0xFF, CHR 0xFF]"
    by (simp_all add: bytes_eval)
  have words: "ntohs (NUL # NUL # r) = 0" "ntohs (NUL # CHR 0x01 # r) = 1"
      "ntohl (CHR 0xFF # CHR 0xFF # CHR 0xFF # CHR 0xFF # r) = -1"
      "ntohs (CHR 0xFF # NUL # r) = 0xFF00" for r
    by (simp_all add: words_eval)
  show ?thesis
    using framed_body [OF fr] unfolding read_bind_def
    by (simp add: client_message_def bytes read_bind_formats_def read_bind_parms_def
        read_bind_results_def in_buf_def words Let_def)
qed

text \<open> A \<open>Bind\<close> message with trailing bytes, which the other readers reject, is returned like a
  correct one; only the error that nobody reads is set.\<close>

lemma read_bind_trailing_bytes:
  "\<exists>b e. read_bind (client_message PSQL_Bind (''d'' @ NUL # ''s'' @ NUL # htons 0 @ htons 0 @ htons 0 @ ''xyz'')) =
     Done (b, Some e) \<and> re_error e = TRAILING_CHARS"
proof -
  let ?s = "''d'' @ NUL # ''s'' @ NUL # htons 0 @ htons 0 @ htons 0 @ ''xyz''"
  have fr: "framed (client_message PSQL_Bind ?s)" by (rule framed_client_message) simp
  have bytes: "htons 0 = [NUL, NUL]" by (simp add: bytes_eval)
  have words: "ntohs (NUL # NUL # r) = 0" for r by (simp add: words_eval)
  show ?thesis
    using framed_body [OF fr] unfolding read_bind_def
    by (simp add: client_message_def bytes read_bind_formats_def read_bind_parms_def
        read_bind_results_def in_buf_def words Let_def)
qed

end
