(* ===== verification/Bind_Parameters.thy ===== *)
theory Bind_Parameters
  imports Bind_Reader
begin

text \<open>
  From the parameters of a Bind message to the text of a query: \<open>deserialize.c\<close>, which turns binary values into
  text, \<open>copy_bind_parameter.c\<close>, and the loop of \<open>handle_bind\<close> that replaces every \<open>$n\<close> of a prepared statement.
  The target is the array \<open>new_query\<close>; its contents so far are an argument, and a write at its end or past it is
  \<open>Undefined\<close>, as is a failed assertion.
\<close>

unbundle bit_operations_syntax

section \<open>Binary values\<close>

text \<open>The nibbles are computed in \<open>unsigned char\<close>.\<close>

definition nibble_digit :: "8 word \<Rightarrow> char" where
  "nibble_digit w = char_of (unat (if w < 10 then w + 48 else w + 87))"

definition byte_to_hex :: "char \<Rightarrow> string" where
  "byte_to_hex c =
     (let b = of_nat (of_char c) :: 8 word;
          high = drop_bit 4 b;
          low = drop_bit 4 (push_bit 4 b)
      in [nibble_digit high, nibble_digit low])"

text \<open>\<open>None\<close> is the result 1, for a target that is too short.\<close>

definition md5_to_hex :: "string \<Rightarrow> nat \<Rightarrow> (unit, string option) outcome" where
  "md5_to_hex md5_hash hex_len =
     (if hex_len < 33 then Done None
      else if length md5_hash < 16 then Undefined
      else Done (Some (concat (map (\<lambda>i. byte_to_hex (md5_hash ! i)) [0..<16]))))"

text \<open>
  A \<open>char\<close> is signed; \<open>ntohs\<close> and \<open>ntohl\<close> return unsigned integers, which are widened to 64 bits without a sign.
\<close>

definition bin_to_char :: "string \<Rightarrow> int" where
  "bin_to_char bin = sint (of_nat (of_char (hd bin)) :: 8 word)"

definition bin_to_bool :: "string \<Rightarrow> int" where
  "bin_to_bool bin = sint (of_nat (of_char (hd bin)) :: 8 word)"

definition bin_to_int16 :: "string \<Rightarrow> int" where
  "bin_to_int16 bin = uint (ntohs bin)"

definition bin_to_int32 :: "string \<Rightarrow> int" where
  "bin_to_int32 bin = uint (ntohl bin)"

definition bin_to_int64 :: "string \<Rightarrow> int" where
  "bin_to_int64 bin = sint (be64toh bin)"

definition bin_to_oid :: "string \<Rightarrow> int" where
  "bin_to_oid bin = uint (ntohl bin)"

definition bin_to_bytea :: "string \<Rightarrow> string" where
  "bin_to_bytea bin = bin"

text \<open>
  The fields of a UUID: \<open>j\<close> is the position in the text and \<open>offset\<close> the position at which the field ends. The
  result has the position, the text of the field and the rest of the bytes.
\<close>

function uuid_field :: "nat \<Rightarrow> nat \<Rightarrow> string \<Rightarrow> (unit, nat \<times> string \<times> string) outcome" where
  "uuid_field j offset bin =
     (if offset \<le> j then Done (j, [], bin)
      else (case bin of
              [] \<Rightarrow> Undefined
            | c # cs \<Rightarrow> and_then (uuid_field (j + 2) offset cs)
                (\<lambda>(j', s, rest). Done (j', byte_to_hex c @ s, rest))))"
  by pat_completeness auto
termination
  by (relation "measure (\<lambda>(j, offset, bin). offset - j)") auto

declare uuid_field.simps [simp del]

text \<open>The remaining fields, each after a dash, given their sizes in nibbles.\<close>

fun uuid_fields :: "nat list \<Rightarrow> nat \<Rightarrow> nat \<Rightarrow> string \<Rightarrow> (unit, nat \<times> string) outcome" where
  "uuid_fields [] j offset bin = Done (j, [])"
| "uuid_fields (n # ns) j offset bin =
     and_then (uuid_field (j + 1) (offset + n + 1) bin) (\<lambda>(j', s, rest).
       and_then (uuid_fields ns j' (offset + n + 1) rest) (\<lambda>(j'', t). Done (j'', CHR ''-'' # s @ t)))"

definition bin_to_uuid :: "string \<Rightarrow> nat \<Rightarrow> (unit, string) outcome" where
  "bin_to_uuid bin buf_len =
     (if buf_len \<le> 36 then Undefined
      else and_then (uuid_field 0 8 bin) (\<lambda>(j, s, rest).
        and_then (uuid_fields [4, 4, 4, 12] j 8 rest) (\<lambda>(j', t).
          if j' = 36 then Done (s @ t) else Undefined)))"

section \<open>Copying a parameter\<close>

text \<open>
  What the functions send when they fail: an error response with severity \<open>ERROR\<close>, the code for a syntax error
  and a fixed text.
\<close>

record direct_error =
  de_code :: PSQL_SQLSTATECode
  de_text :: string

abbreviation copy_error :: "string \<Rightarrow> direct_error" where
  "copy_error t \<equiv> \<lparr>de_code = PSQL_Code_Syntax_Error, de_text = t\<rparr>"

fun copy_text_loop :: "nat \<Rightarrow> string \<Rightarrow> string \<Rightarrow> (direct_error, string) outcome" where
  "copy_text_loop limit [] new_query = Done new_query"
| "copy_text_loop limit (c # cs) new_query =
     (if limit \<le> length new_query then Undefined
      else if limit \<le> length new_query + 2 then
        Failed (copy_error ''expression exceeds maximum buffer length'')
      else copy_text_loop limit cs (new_query @ [c]))"

text \<open>The bytes of a parameter, with its signed length; a negative length has none.\<close>

definition parm_bytes :: "Bind \<Rightarrow> nat \<Rightarrow> string option" where
  "parm_bytes bind i =
     (case b_parms bind ! i of (len, value) \<Rightarrow>
        if sint len \<le> 0 then Some []
        else if 0 \<le> value \<and> value + sint len \<le> int (length (b_data bind)) then
          Some (take (nat (sint len)) (drop (nat value) (b_data bind)))
        else None)"

definition copy_text_parameter :: "nat \<Rightarrow> Bind \<Rightarrow> nat \<Rightarrow> string \<Rightarrow> (direct_error, string) outcome" where
  "copy_text_parameter limit bind cur_parm new_query =
     (case parm_bytes bind cur_parm of
        None \<Rightarrow> Undefined
      | Some bs \<Rightarrow> copy_text_loop limit bs new_query)"

fun no_error :: "(unit, 'a) outcome \<Rightarrow> ('e, 'a) outcome" where
  "no_error Undefined = Undefined"
| "no_error (Failed u) = Undefined"
| "no_error (Done x) = Done x"

definition binary_text :: "nat \<Rightarrow> string \<Rightarrow> (direct_error, string) outcome" where
  "binary_text max_str_const bs =
     (if length bs = 1 then Done (int_dec (bin_to_char bs))
      else if length bs = 2 then Done (int_dec (bin_to_int16 bs))
      else if length bs = 4 then Done (int_dec (bin_to_int32 bs))
      else if length bs = 8 then Done (int_dec (bin_to_int64 bs))
      else if length bs = 16 then no_error (bin_to_uuid bs max_str_const)
      else Failed (copy_error ''unsupported bind parameter type received''))"

text \<open>
  \<open>snprintf\<close> returns the length of the whole text, here always below \<open>MAX_STR_CONST\<close>. Unlike the text copy, this
  one may fill the array to its end.
\<close>

definition copy_binary_parameter :: "nat \<Rightarrow> Bind \<Rightarrow> nat \<Rightarrow> string \<Rightarrow> (direct_error, string) outcome" where
  "copy_binary_parameter limit bind cur_parm new_query =
     (case parm_bytes bind cur_parm of
        None \<Rightarrow> Undefined
      | Some bs \<Rightarrow> and_then (binary_text limit bs) (\<lambda>s.
          if limit < length new_query + length s then
            Failed (copy_error ''failed to decode binary bind parameter'')
          else Done (new_query @ s)))"

section \<open>Replacing the parameters of a statement\<close>

definition put :: "nat \<Rightarrow> char \<Rightarrow> string \<Rightarrow> (direct_error, string) outcome" where
  "put limit c new_query = (if length new_query < limit then Done (new_query @ [c]) else Undefined)"

text \<open>
  A format code, which \<open>read_bind\<close> left in host byte order: whether it is the code 0 for text. One code counts
  for all parameters.
\<close>

definition text_format :: "Bind \<Rightarrow> nat \<Rightarrow> bool option" where
  "text_format bind i =
     (let n = b_num_parm_format_codes bind;
          p = b_parm_format_codes bind + 2 * (if n = 1 then 0 else int i) in
      if n = 0 then Some True
      else if in_buf p 2 (b_data bind) then Some (take 2 (drop (nat p) (b_data bind)) = [NUL, NUL])
      else None)"

definition copy_parameter :: "nat \<Rightarrow> Bind \<Rightarrow> nat \<Rightarrow> string \<Rightarrow> (direct_error, string) outcome" where
  "copy_parameter limit bind i new_query =
     (case text_format bind i of
        None \<Rightarrow> Undefined
      | Some t \<Rightarrow> if t then copy_text_parameter limit bind i new_query
                  else copy_binary_parameter limit bind i new_query)"

text \<open>
  The number after a \<open>$\<close>, with \<open>atoi\<close> undefined when an \<open>int\<close> cannot hold it. The test for -1 never succeeds, since
  only digits are read. A number without a parameter sends an error and then frees the uninitialised
  \<open>z_status_value\<close>: undefined.
\<close>

definition put_parameter :: "nat \<Rightarrow> Bind \<Rightarrow> string \<Rightarrow> string \<Rightarrow> (direct_error, string) outcome" where
  "put_parameter limit bind digits new_query =
     (let bind_parm = atoi digits in
      if 2 ^ 31 \<le> bind_parm then Undefined
      else if bind_parm = -1 then and_then (put limit (CHR 0x22) new_query) (put limit (CHR 0x22))
      else if sint (b_num_parms bind) \<le> bind_parm \<or> bind_parm < 0 then Undefined
      else and_then (put limit (CHR 0x22) new_query) (\<lambda>q1.
             and_then (copy_parameter limit bind (nat bind_parm) q1) (put limit (CHR 0x22))))"

text \<open>The assertion at the end of the loop body.\<close>

definition room_left :: "nat \<Rightarrow> string \<Rightarrow> (direct_error, string) outcome" where
  "room_left limit new_query = (if length new_query < limit then Done new_query else Undefined)"

function bind_loop :: "nat \<Rightarrow> Bind \<Rightarrow> string \<Rightarrow> string \<Rightarrow> (direct_error, string) outcome" where
  "bind_loop limit bind [] new_query = Done new_query"
| "bind_loop limit bind (c # cs) new_query =
     (if c = CHR ''$'' then
        and_then (put_parameter limit bind (takeWhile is_digit cs) new_query) (\<lambda>q.
          and_then (room_left limit q) (bind_loop limit bind (dropWhile is_digit cs)))
      else
        and_then (put limit c new_query) (\<lambda>q. and_then (room_left limit q) (bind_loop limit bind cs)))"
  by pat_completeness auto
termination
  by (relation "measure (\<lambda>(limit, bind, s, q). length s)") (auto simp: le_imp_less_Suc length_dropWhile_le)

section \<open>Hexadecimal text\<close>

lemma nibble_digit: "d < 16 \<Longrightarrow> nibble_digit (of_nat d) = hex_digit d"
proof -
  assume d: "d < 16"
  then have u: "unat (of_nat d :: 8 word) = d" by (simp add: unat_of_nat)
  have l: "(of_nat d :: 8 word) < 10 \<longleftrightarrow> d < 10" by (simp add: word_less_nat_alt u)
  have "unat (of_nat d + 48 :: 8 word) = d + 48" "unat (of_nat d + 87 :: 8 word) = d + 87"
    using d by (simp_all add: unat_word_ariths u)
  then show ?thesis by (simp add: nibble_digit_def hex_digit_def l add.commute)
qed

lemma unat_drop_nibble: "unat (drop_bit 4 (w :: 8 word)) = unat w div 16"
  by (simp add: drop_bit_eq_div unat_div)

lemma nibbles [simp]: "(of_char c :: nat) div 16 < 16" "(of_char c :: nat) mod 16 < 16"
  using of_char_less_256 [of c] by (simp_all add: less_mult_imp_div_less)

lemma unat_shift_nibble: "unat (push_bit 4 (w :: 8 word)) = (unat w mod 16) * 16"
proof -
  have "push_bit 4 w = w * 16" by (simp add: push_bit_eq_mult)
  then have e: "unat (push_bit 4 w) = unat w * 16 mod 256" by (simp add: unat_word_ariths)
  have "unat w * 16 mod (16 * 16) = (unat w mod 16) * 16" by (rule mod_mult_mult2)
  then show ?thesis using e by simp
qed

lemma unat_small_nibble: "n < 16 \<Longrightarrow> unat (of_nat n :: 8 word) = n"
  by (simp add: unat_of_nat)

lemma byte_to_hex_digits:
  "byte_to_hex c = [hex_digit (of_char c div 16), hex_digit (of_char c mod 16)]"
proof -
  let ?b = "of_nat (of_char c) :: 8 word"
  have b: "unat ?b = of_char c" by (simp add: unat_of_nat)
  have "unat (drop_bit 4 ?b) = of_char c div 16" by (simp only: unat_drop_nibble b)
  then have h: "drop_bit 4 ?b = of_nat (of_char c div 16)" by (simp only: word_unat_eq_iff unat_small_nibble nibbles)
  have "unat (drop_bit 4 (push_bit 4 ?b)) = of_char c mod 16"
    unfolding unat_drop_nibble unat_shift_nibble b by simp
  then have l: "drop_bit 4 (push_bit 4 ?b) = of_nat (of_char c mod 16)" by (simp only: word_unat_eq_iff unat_small_nibble nibbles)
  show ?thesis unfolding byte_to_hex_def Let_def h l by (simp only: nibble_digit nibbles)
qed

lemma length_byte_to_hex [simp]: "length (byte_to_hex c) = 2"
  by (simp add: byte_to_hex_def Let_def)

text \<open>Reading the digits back.\<close>

definition hex_value :: "char \<Rightarrow> nat" where
  "hex_value c = (let n = of_char c in if n < 58 then n - 48 else n - 87)"

fun unhex :: "string \<Rightarrow> string" where
  "unhex (a # b # s) = char_of (hex_value a * 16 + hex_value b) # unhex s"
| "unhex s = []"

lemma hex_value_digit: "d < 16 \<Longrightarrow> hex_value (hex_digit d) = d"
  by (simp add: hex_value_def hex_digit_def)

lemma unhex_byte [simp]: "unhex (byte_to_hex c @ s) = c # unhex s"
  by (simp add: byte_to_hex_digits hex_value_digit div_mult_mod_eq)

lemma hex_digit_not_dash: "d < 16 \<Longrightarrow> hex_digit d \<noteq> CHR ''-''"
proof
  assume d: "d < 16" "hex_digit d = CHR ''-''"
  then have "(of_char (hex_digit d) :: nat) = 45" by simp
  with d(1) show False by (simp add: hex_digit_def split: if_splits)
qed

lemma byte_to_hex_no_dash: "CHR ''-'' \<notin> set (byte_to_hex c)"
  using hex_digit_not_dash [of "of_char c div 16"] hex_digit_not_dash [of "of_char c mod 16"]
  by (auto simp: byte_to_hex_digits dest: sym)

lemma uuid_field_bytes:
  "offset = j + 2 * length bs \<Longrightarrow>
    uuid_field j offset (bs @ r) = Done (offset, concat (map byte_to_hex bs), r)"
proof (induction bs arbitrary: j)
  case Nil
  then show ?case by (simp add: uuid_field.simps)
next
  case (Cons b bs)
  then show ?case by (subst uuid_field.simps) simp
qed

lemma bin_to_uuid_fields:
  assumes "length b1 = 4" "length b2 = 2" "length b3 = 2" "length b4 = 2" "length b5 = 6" "36 < buf_len"
  shows "bin_to_uuid (b1 @ b2 @ b3 @ b4 @ b5) buf_len = Done (concat (map byte_to_hex b1)
    @ CHR ''-'' # concat (map byte_to_hex b2) @ CHR ''-'' # concat (map byte_to_hex b3)
    @ CHR ''-'' # concat (map byte_to_hex b4) @ CHR ''-'' # concat (map byte_to_hex b5))"
proof -
  have f: "uuid_field 0 8 (b1 @ b2 @ b3 @ b4 @ b5) = Done (8, concat (map byte_to_hex b1), b2 @ b3 @ b4 @ b5)"
    "uuid_field 9 13 (b2 @ b3 @ b4 @ b5) = Done (13, concat (map byte_to_hex b2), b3 @ b4 @ b5)"
    "uuid_field 14 18 (b3 @ b4 @ b5) = Done (18, concat (map byte_to_hex b3), b4 @ b5)"
    "uuid_field 19 23 (b4 @ b5) = Done (23, concat (map byte_to_hex b4), b5)"
    "uuid_field 24 36 (b5 @ []) = Done (36, concat (map byte_to_hex b5), [])"
    using assms by (simp_all only: uuid_field_bytes)
  show ?thesis using assms(6) f by (simp add: bin_to_uuid_def)
qed

lemma unhex_bytes: "unhex (concat (map byte_to_hex bs) @ s) = bs @ unhex s"
  by (induction bs) simp_all

lemma length_hex_bytes [simp]: "length (concat (map byte_to_hex bs)) = 2 * length bs"
  by (induction bs) simp_all

lemma filter_hex_bytes [simp]:
  "filter (\<lambda>c. c \<noteq> CHR ''-'') (concat (map byte_to_hex bs)) = concat (map byte_to_hex bs)"
  using byte_to_hex_no_dash by (induction bs) (auto simp: filter_id_conv intro!: filter_True)

section \<open>What is copied\<close>

definition parm_text :: "nat \<Rightarrow> Bind \<Rightarrow> nat \<Rightarrow> (direct_error, string) outcome" where
  "parm_text limit bind i =
     (case (text_format bind i, parm_bytes bind i) of
        (Some t, Some bs) \<Rightarrow> if t then Done bs else binary_text limit bs
      | _ \<Rightarrow> Undefined)"

lemma copy_text_loop_fits:
  "length q + length bs + 1 < limit \<Longrightarrow> copy_text_loop limit bs q = Done (q @ bs)"
  by (induction bs arbitrary: q) simp_all

lemma copy_parameter_fits:
  assumes "parm_text limit bind i = Done v" "length q + length v + 1 < limit"
  shows "copy_parameter limit bind i q = Done (q @ v)"
proof -
  obtain t bs where t: "text_format bind i = Some t" "parm_bytes bind i = Some bs"
      "(if t then Done bs else binary_text limit bs) = Done v"
    using assms(1) by (auto simp: parm_text_def split: option.splits)
  show ?thesis
  proof (cases t)
    case True
    then show ?thesis using t assms(2) by (simp add: copy_parameter_def copy_text_parameter_def copy_text_loop_fits)
  next
    case False
    then show ?thesis using t assms(2) by (simp add: copy_parameter_def copy_binary_parameter_def)
  qed
qed

lemma atoi_number: "n < 2 ^ 31 \<Longrightarrow> atoi (nat_dec n) = int n \<and> \<not> 2 ^ 31 \<le> atoi (nat_dec n)"
  by simp

lemma put_parameter_fits:
  assumes "parm_text limit bind n = Done v" "int n < sint (b_num_parms bind)" "length q + length v + 2 < limit"
  shows "put_parameter limit bind (nat_dec n) q = Done (q @ CHR 0x22 # v @ [CHR 0x22])"
proof -
  have "sint (b_num_parms bind) < 2 ^ 15" using sint_less [of "b_num_parms bind"] by simp
  then have "int n < 2 ^ 31" using assms(2) by simp
  then show ?thesis
    using assms copy_parameter_fits [of limit bind n v "q @ [CHR 0x22]"]
    by (simp add: put_parameter_def put_def)
qed

section \<open>Statements with parameters\<close>

text \<open>
  A statement as pieces: text without \<open>$\<close>, each followed by a parameter, and the text behind the last one. A
  text that follows a parameter must not begin with a digit.
\<close>

fun statement_text :: "(string \<times> nat) list \<Rightarrow> string \<Rightarrow> string" where
  "statement_text [] rest = rest"
| "statement_text ((s, n) # ps) rest = s @ CHR ''$'' # nat_dec n @ statement_text ps rest"

fun bound_text :: "(nat \<Rightarrow> string) \<Rightarrow> (string \<times> nat) list \<Rightarrow> string \<Rightarrow> string" where
  "bound_text v [] rest = rest"
| "bound_text v ((s, n) # ps) rest = s @ CHR 0x22 # v n @ CHR 0x22 # bound_text v ps rest"

fun separated :: "(string \<times> nat) list \<Rightarrow> string \<Rightarrow> bool" where
  "separated [] rest \<longleftrightarrow> CHR ''$'' \<notin> set rest"
| "separated ((s, n) # ps) rest \<longleftrightarrow> CHR ''$'' \<notin> set s \<and> separated ps rest
     \<and> (case statement_text ps rest of [] \<Rightarrow> True | c # cs \<Rightarrow> \<not> is_digit c)"

lemma bind_loop_text:
  "CHR ''$'' \<notin> set s \<Longrightarrow> length q + length s < limit \<Longrightarrow>
    bind_loop limit bind (s @ r) q = bind_loop limit bind r (q @ s)"
  by (induction s arbitrary: q) (auto simp: put_def room_left_def)

lemma takeWhile_number:
  assumes "case t of [] \<Rightarrow> True | c # cs \<Rightarrow> \<not> is_digit c"
  shows "takeWhile is_digit (nat_dec n @ t) = nat_dec n" "dropWhile is_digit (nat_dec n @ t) = t"
  using assms nat_dec_digits [of n]
  by (cases t; simp add: takeWhile_append2 dropWhile_append2)+

lemma bind_loop_pieces:
  "separated ps rest \<Longrightarrow> \<forall>(s, n) \<in> set ps. int n < sint (b_num_parms bind) \<and> parm_text limit bind n = Done (v n) \<Longrightarrow>
    length q + length (bound_text v ps rest) < limit \<Longrightarrow>
    bind_loop limit bind (statement_text ps rest) q = Done (q @ bound_text v ps rest)"
proof (induction ps arbitrary: q)
  case Nil
  then show ?case using bind_loop_text [of rest q limit bind "[]"] by simp
next
  case (Cons sn ps)
  obtain s n where sn: "sn = (s, n)" by (cases sn)
  let ?t = "statement_text ps rest"
  let ?q = "(q @ s) @ CHR 0x22 # v n @ [CHR 0x22]"
  have num: "takeWhile is_digit (nat_dec n @ ?t) = nat_dec n" "dropWhile is_digit (nat_dec n @ ?t) = ?t"
    using Cons.prems(1) sn by (auto intro: takeWhile_number)
  have put: "put_parameter limit bind (nat_dec n) (q @ s) = Done ?q"
    using Cons.prems sn by (intro put_parameter_fits) auto
  have "bind_loop limit bind (statement_text (sn # ps) rest) q
      = bind_loop limit bind (CHR ''$'' # nat_dec n @ ?t) (q @ s)"
    using Cons.prems sn bind_loop_text [of s q limit bind "CHR ''$'' # nat_dec n @ ?t"] by simp
  also have "\<dots> = bind_loop limit bind ?t ?q"
    using put Cons.prems(3) sn by (simp add: num room_left_def)
  also have "\<dots> = Done (?q @ bound_text v ps rest)"
    using Cons.prems sn by (intro Cons.IH) auto
  finally show ?case using sn by simp
qed

section \<open>Parameters of a message\<close>

lemma parm_refs_nth:
  "n < length vs \<Longrightarrow> \<exists>p. parm_refs (length pre) vs ! n = (of_nat (length (vs ! n)), int p)
    \<and> p + length (vs ! n) \<le> length (pre @ parms_image vs)
    \<and> take (length (vs ! n)) (drop p (pre @ parms_image vs @ post)) = vs ! n"
proof (induction vs arbitrary: pre n)
  case (Cons v vs)
  show ?case
  proof (cases n)
    case 0
    then show ?thesis by (intro exI [of _ "length pre + 4"]) simp
  next
    case (Suc k)
    from Cons.IH [of k "pre @ htonl (of_nat (length v)) @ v"] Cons.prems Suc show ?thesis
      by (simp add: add.assoc)
  qed
qed simp

lemma host_image_nth:
  "n < length cs \<Longrightarrow> take 2 (drop (2 * n) (host_image cs @ post)) = rev (htons (cs ! n))"
proof (induction cs arbitrary: n)
  case (Cons c cs)
  then show ?case by (cases n) simp_all
qed simp

lemma code_is_text: "c \<in> {0, 1} \<Longrightarrow> rev (htons c) = [NUL, NUL] \<longleftrightarrow> c = 0"
  by (auto simp: bytes_eval)

text \<open>The text a parameter of a message stands for: itself, or the text of its binary value.\<close>

definition sent_format :: "bind_message \<Rightarrow> nat \<Rightarrow> i16" where
  "sent_format x n =
     (if bm_formats x = [] then 0 else bm_formats x ! (if length (bm_formats x) = 1 then 0 else n))"

definition sent_text :: "nat \<Rightarrow> bind_message \<Rightarrow> nat \<Rightarrow> (direct_error, string) outcome" where
  "sent_text limit x n =
     (if sent_format x n = 0 then Done (bm_parms x ! n) else binary_text limit (bm_parms x ! n))"

lemma struct_parm_bytes:
  assumes "bind_wf x" "n < length (bm_parms x)"
  shows "parm_bytes (bind_struct x) n = Some (bm_parms x ! n)"
proof -
  let ?fs = "bm_formats x" and ?vs = "bm_parms x" and ?rs = "bm_results x" and ?b = "bind_struct x"
  let ?ph = "bm_dest x @ NUL # bm_source x @ NUL # htons (of_nat (length ?fs)) @ host_image ?fs
    @ htons (of_nat (length ?vs))"
  let ?post = "htons (of_nat (length ?rs)) @ host_image ?rs @ replicate 4 NUL"
  have dat: "b_data ?b = ?ph @ parms_image ?vs @ ?post" by (simp add: bind_struct_def Let_def)
  have refs: "b_parms ?b = parm_refs (length ?ph) ?vs" by (simp add: bind_struct_def Let_def add.assoc)
  have small: "length (?vs ! n) < 2 ^ 31" using assms by (auto simp: bind_wf_def)
  obtain p where p: "parm_refs (length ?ph) ?vs ! n = (of_nat (length (?vs ! n)), int p)"
      "p + length (?vs ! n) \<le> length (?ph @ parms_image ?vs)"
      "take (length (?vs ! n)) (drop p (?ph @ parms_image ?vs @ ?post)) = ?vs ! n"
    using parm_refs_nth [OF assms(2), of ?ph ?post] by blast
  have "int p + int (length (?vs ! n)) \<le> int (length (b_data ?b))" using p(2) by (simp add: dat)
  then show ?thesis
    using p(1,3) sint_of_length [OF small] unfolding parm_bytes_def refs dat by (simp del: append.simps)
qed

lemma struct_text_format:
  assumes wf: "bind_wf x" and n: "n < length (bm_parms x)"
  shows "text_format (bind_struct x) n = Some (sent_format x n = 0)"
proof (cases "bm_formats x = []")
  case True
  then show ?thesis by (simp add: text_format_def bind_struct_def sent_format_def Let_def)
next
  case False
  let ?fs = "bm_formats x" and ?b = "bind_struct x"
  let ?hd = "bm_dest x @ NUL # bm_source x @ NUL # htons (of_nat (length ?fs))"
  define i where "i = (if length ?fs = 1 then 0 else n)"
  have len: "length ?fs < 2 ^ 15" and codes: "set ?fs \<subseteq> {0, 1}" using wf by (auto simp: bind_wf_def)
  have i: "i < length ?fs" using wf n False by (auto simp: bind_wf_def i_def le_Suc_eq)
  obtain post where dat: "b_data ?b = ?hd @ host_image ?fs @ post" by (simp add: bind_struct_def Let_def)
  have num: "b_num_parm_format_codes ?b = of_nat (length ?fs)" "b_parm_format_codes ?b = int (length ?hd)"
    by (simp_all add: bind_struct_def Let_def)
  have eq: "(of_nat (length ?fs) :: i16) = of_nat k \<longleftrightarrow> length ?fs = k" if "k < 2 ^ 15" for k
    using len that sint_count [of "length ?fs"] sint_count [of k] by (metis of_nat_eq_iff)
  have "(of_nat (length ?fs) :: i16) \<noteq> 0" "((of_nat (length ?fs) :: i16) = 1) = (length ?fs = 1)"
    using eq [of 0] eq [of 1] False by simp_all
  moreover have "nat (int (length ?hd) + 2 * int i) = length ?hd + 2 * i" by simp
  moreover have "in_buf (int (length ?hd) + 2 * int i) 2 (b_data ?b)" using i by (simp add: in_buf_def dat)
  moreover have "take 2 (drop (length ?hd + 2 * i) (b_data ?b)) = rev (htons (?fs ! i))"
    using host_image_nth [OF i, of post] unfolding dat by (simp del: append.simps)
  moreover have "rev (htons (?fs ! i)) = [NUL, NUL] \<longleftrightarrow> ?fs ! i = 0"
    using codes i by (intro code_is_text) (auto dest: nth_mem)
  ultimately show ?thesis
    using False unfolding text_format_def num sent_format_def Let_def i_def [symmetric]
    by (auto simp: i_def split: if_splits)
qed

lemma struct_parm_text:
  assumes "bind_wf x" "n < length (bm_parms x)"
  shows "parm_text limit (bind_struct x) n = sent_text limit x n"
  using struct_parm_bytes [OF assms] struct_text_format [OF assms]
  by (simp add: parm_text_def sent_text_def)

lemma bind_loop_struct:
  assumes "bind_wf x" "separated ps rest" "\<forall>(s, n) \<in> set ps. n < length (bm_parms x) \<and> sent_text limit x n = Done (v n)"
    and "length (bound_text v ps rest) < limit"
  shows "bind_loop limit (bind_struct x) (statement_text ps rest) [] = Done (bound_text v ps rest)"
proof -
  have "b_num_parms (bind_struct x) = of_nat (length (bm_parms x))" by (simp add: bind_struct_def Let_def)
  moreover have "sint (of_nat (length (bm_parms x)) :: i16) = int (length (bm_parms x))"
    using assms(1) by (intro sint_count) (simp add: bind_wf_def)
  ultimately show ?thesis
    using bind_loop_pieces [of ps rest "bind_struct x" limit v "[]"] assms(2-4) struct_parm_text [OF assms(1)]
    by fastforce
qed

section \<open>Properties\<close>



text \<open>C38.
  The text of a UUID has 36 characters with dashes after 8, 13, 18 and 23 of them, and reading the hexadecimal
  digits between the dashes gives the sixteen bytes back.
\<close>

theorem bin_to_uuid_correct:
  assumes "length bin = 16" "36 < buf_len"
  shows "\<exists>s. bin_to_uuid bin buf_len = Done s \<and> length s = 36 \<and> map ((!) s) [8, 13, 18, 23] = ''----''
    \<and> unhex (filter (\<lambda>c. c \<noteq> CHR ''-'') s) = bin"
proof -
  let ?h = "\<lambda>bs. concat (map byte_to_hex bs)"
  define b1 b2 b3 b4 b5 where "b1 = take 4 bin" and "b2 = take 2 (drop 4 bin)" and "b3 = take 2 (drop 6 bin)"
    and "b4 = take 2 (drop 8 bin)" and "b5 = drop 10 bin"
  have split: "bin = b1 @ b2 @ b3 @ b4 @ b5"
    using append_take_drop_id [of 4 bin] append_take_drop_id [of 2 "drop 4 bin"]
      append_take_drop_id [of 2 "drop 6 bin"] append_take_drop_id [of 2 "drop 8 bin"]
    by (simp add: b1_def b2_def b3_def b4_def b5_def)
  have len: "length b1 = 4" "length b2 = 2" "length b3 = 2" "length b4 = 2" "length b5 = 6"
    using assms(1) by (simp_all add: b1_def b2_def b3_def b4_def b5_def)
  let ?s = "?h b1 @ CHR ''-'' # ?h b2 @ CHR ''-'' # ?h b3 @ CHR ''-'' # ?h b4 @ CHR ''-'' # ?h b5"
  have "bin_to_uuid bin buf_len = Done ?s"
    unfolding split by (rule bin_to_uuid_fields [OF len assms(2)])
  moreover have "length ?s = 36" "map ((!) ?s) [8, 13, 18, 23] = ''----''"
    using len by (simp_all add: nth_append)
  moreover have "unhex (filter (\<lambda>c. c \<noteq> CHR ''-'') ?s) = bin"
    using unhex_bytes [of "b1 @ b2 @ b3 @ b4 @ b5" "[]"] split by simp
  ultimately show ?thesis by (intro exI [of _ ?s] conjI)
qed

theorem bin_to_uuid_correct_witness:
  "\<exists>s. bin_to_uuid (replicate 16 (CHR 0xA5)) 37 = Done s \<and> unhex (filter (\<lambda>c. c \<noteq> CHR ''-'') s) = replicate 16 (CHR 0xA5)"
proof -
  have "length (replicate 16 (CHR 0xA5)) = 16" "36 < (37 :: nat)" by simp_all
  from bin_to_uuid_correct [OF this] show ?thesis by (elim exE conjE) (intro exI conjI)
qed

text \<open>
  A negative integer of two or four bytes loses its sign on the way to text, one of one or eight bytes keeps it.
\<close>

lemma binary_text_signs:
  "binary_text limit (htons w) = Done (int_dec (uint w))" "binary_text limit (htonl u) = Done (int_dec (uint u))"
  by (simp_all add: binary_text_def bin_to_int16_def bin_to_int32_def)

text \<open>A parameter number that the message has no value for leads to the release of an uninitialised pointer.\<close>

lemma bind_unknown_parameter:
  "sint (b_num_parms bind) \<le> int n \<Longrightarrow> put_parameter limit bind (nat_dec n) q = Undefined"
  by (simp add: put_parameter_def Let_def)

end
