(* ===== verification/Session_Startup.thy ===== *)
theory Session_Startup
  imports Wire_Readers
begin

text \<open>
  The first messages of a connection, which carry no type byte: \<open>read_ssl_request\<close> and
  \<open>read_startup_message\<close> of \<open>src/rocto\<close>, with \<open>make_startup_message\<close>. Both readers get the eight bytes the
  server has read; \<open>read_startup_message\<close> fetches the parameters itself, scans them twice and returns pointers
  into them, which are the strings they point to here.
\<close>

section \<open>SSLRequest\<close>

abbreviation fatal_report :: "octo_error \<Rightarrow> fmt_arg list \<Rightarrow> reader_error" where
  "fatal_report e args \<equiv> \<lparr>re_severity = PSQL_Error_FATAL, re_code = PSQL_Code_Protocol_Violation,
     re_error = e, re_args = args\<rparr>"

record SSLRequest =
  ssl_length :: u32
  ssl_request_code :: i32

definition read_ssl_request :: "string \<Rightarrow> (reader_error, SSLRequest) outcome" where
  "read_ssl_request dat =
     (if length dat < 8 then Undefined
      else
        let len = ntohl dat; code = ntohl (drop 4 dat) in
        if len \<noteq> 8 then
          Failed (fatal_report INVALID_INT_VALUE [ArgS ''SSLRequest'', ArgS ''length'', ArgD len, ArgS ''8''])
        else if code \<noteq> 80877103 then
          Failed (fatal_report INVALID_INT_VALUE
            [ArgS ''SSLRequest'', ArgS ''request code'', ArgD code, ArgS ''80877103''])
        else Done \<lparr>ssl_length = len, ssl_request_code = code\<rparr>)"

section \<open>StartupMessage\<close>

text \<open>
  The message keeps the header as it was copied from the buffer, in network byte order: the converted values
  went to the first allocation, which is freed.
\<close>

record StartupMessage =
  sm_parameters :: "StartupMessageParm list"
  sm_num_parameters :: nat
  sm_length :: string
  sm_protocol_version :: string
  sm_data :: string

text \<open>The first scan counts the parameters and returns what lies behind them.\<close>

function count_parms :: "string \<Rightarrow> nat \<Rightarrow> (reader_error, nat \<times> string) outcome" where
  "count_parms d num_parms =
     (if d = [] \<or> hd d = NUL then Done (num_parms, d)
      else
        let n = scan_nul d in
        if n = length d then
          Failed (protocol_error MISSING_DATA [ArgS ''StartupMessage'', ArgS ''parameter name''])
        else
          let v = drop (n + 1) d; k = scan_nul v in
          if k = length v then
            Failed (protocol_error MISSING_NULL [ArgS ''StartupMessage'', ArgS ''name or value''])
          else count_parms (drop (k + 1) v) (num_parms + 1))"
  by pat_completeness auto
termination
  by (relation "measure (\<lambda>(d, n). length d)") auto

text \<open>
  The second scan fills the array, which has room for \<open>room\<close> parameters. It stops at the end of the data or at a
  zero byte, asserts that each string has an end, and must not write past the array.
\<close>

function fill_parms :: "nat \<Rightarrow> string \<Rightarrow> (reader_error, StartupMessageParm list) outcome" where
  "fill_parms room d =
     (if d = [] \<or> hd d = NUL then Done []
      else if room = 0 then Undefined
      else
        let n = scan_nul d in
        if n = length d then Undefined
        else
          let v = drop (n + 1) d; k = scan_nul v in
          if k = length v then Undefined
          else and_then (fill_parms (room - 1) (drop (k + 1) v))
                 (\<lambda>ps. Done (\<lparr>smp_name = take n d, smp_value = take k v\<rparr> # ps)))"
  by pat_completeness auto
termination
  by (relation "measure (\<lambda>(room, d). length d)") auto

declare count_parms.simps [simp del] fill_parms.simps [simp del]

definition parse_startup :: "string \<Rightarrow> string \<Rightarrow> (reader_error, StartupMessage) outcome" where
  "parse_startup header d =
     and_then (count_parms d 0) (\<lambda>(num_parms, rest).
       if rest = [] then
         Failed (protocol_error MISSING_NULL [ArgS ''StartupMessage'', ArgS ''parameter list''])
       else if length rest \<noteq> 1 then Failed (protocol_error TRAILING_CHARS [ArgS ''StartupMessage''])
       else and_then (fill_parms num_parms d) (\<lambda>ps.
         Done \<lparr>sm_parameters = ps, sm_num_parameters = length ps, sm_length = take 4 header,
           sm_protocol_version = take 4 (drop 4 header), sm_data = d\<rparr>))"

text \<open>
  How an exchange with the client ends early: an error to report, a fatal error that ends the process, a call
  that waits for ever, or a loop that does not end within its bound.
\<close>

datatype stop = Stop_error reader_error | Stop_fatal octo_error | Stop_blocked | Stop_looping

fun report :: "(reader_error, 'a) outcome \<Rightarrow> (stop, 'a) outcome" where
  "report Undefined = Undefined"
| "report (Failed e) = Failed (Stop_error e)"
| "report (Done x) = Done x"

text \<open>
  A length below eight gives an allocation too small for the header that is copied into it, one from
  \<open>2 ^ 31\<close> on an allocation that fails. The result of \<open>read_bytes\<close> is not looked at, so an interrupted transfer
  leaves the data uninitialised.
\<close>

definition read_startup_message ::
  "bool \<Rightarrow> net_event list \<Rightarrow> string \<Rightarrow> (stop, StartupMessage \<times> net_event list) outcome" where
  "read_startup_message ssl_active evs dat =
     (if length dat < 8 then Undefined
      else
        let len = ntohl dat; version = ntohl (drop 4 dat) in
        if version \<noteq> 0x00030000 then
          Failed (Stop_error (fatal_report (Connection ERR_ROCTO_INVALID_VERSION)
            [ArgS ''StartupMessage'', ArgX version, ArgX 0x00030000]))
        else if len = 8 then
          Failed (Stop_error (fatal_report MISSING_NULL [ArgS ''StartupMessage'', ArgS ''parameter list'']))
        else if unat len < 8 \<or> 2 ^ 31 \<le> unat len then Undefined
        else
          let n = int (unat len) - 8 in
          case read_bytes ssl_active evs n n of
            Read_ok d evs' \<Rightarrow> and_then (report (parse_startup (take 8 dat) d)) (\<lambda>m. Done (m, evs'))
          | Read_error c e \<Rightarrow> Undefined
          | Read_fatal e \<Rightarrow> Failed (Stop_fatal e)
          | Read_blocked \<Rightarrow> Failed Stop_blocked)"

text \<open>
  \<open>make_startup_message\<close> leaves its integers in host byte order, which is little-endian, and its data without
  the byte that ends the list.
\<close>

definition make_startup_message :: "string \<Rightarrow> StartupMessage" where
  "make_startup_message username =
     (let dat = ''user'' @ NUL # cstr username @ [NUL] in
      \<lparr>sm_parameters = [\<lparr>smp_name = ''user'', smp_value = cstr username\<rparr>], sm_num_parameters = 1,
       sm_length = rev (htonl (of_nat (8 + length dat))), sm_protocol_version = rev (htonl 0x00030000), sm_data = dat\<rparr>)"

section \<open>The protocol's view\<close>

definition parm_wf :: "StartupMessageParm \<Rightarrow> bool" where
  "parm_wf p \<longleftrightarrow> smp_name p \<noteq> [] \<and> nul_free (smp_name p) \<and> nul_free (smp_value p)"

definition parm_image :: "StartupMessageParm \<Rightarrow> string" where
  "parm_image p = smp_name p @ NUL # smp_value p @ [NUL]"

definition startup_image :: "StartupMessageParm list \<Rightarrow> string" where
  "startup_image ps = concat (map parm_image ps) @ [NUL]"

definition startup_header :: "nat \<Rightarrow> string" where
  "startup_header n = htonl (of_nat n) @ htonl 0x00030000"

lemma parm_split:
  assumes "d \<noteq> []" "hd d \<noteq> NUL" "scan_nul d < length d" "scan_nul (drop (scan_nul d + 1) d) < length (drop (scan_nul d + 1) d)"
  defines "v \<equiv> drop (scan_nul d + 1) d"
  defines "p \<equiv> \<lparr>smp_name = take (scan_nul d) d, smp_value = take (scan_nul v) v\<rparr>"
  shows "parm_wf p" "d = parm_image p @ drop (scan_nul v + 1) v"
proof -
  have d: "d = cstr d @ NUL # v" using scan_nul_split [OF assms(3)] by (simp add: v_def)
  have v: "v = cstr v @ NUL # drop (scan_nul v + 1) v" using scan_nul_split [of v] assms(4) by (simp add: v_def)
  have "cstr d \<noteq> []" using assms(1,2) by (cases d) (auto simp: cstr_def)
  then show "parm_wf p" by (simp add: parm_wf_def p_def take_scan_nul)
  show "d = parm_image p @ drop (scan_nul v + 1) v"
    using d v by (simp add: parm_image_def p_def take_scan_nul)
qed

lemma parm_scan:
  assumes "parm_wf p"
  shows "scan_nul (parm_image p @ r) = length (smp_name p)"
    "scan_nul (drop (length (smp_name p) + 1) (parm_image p @ r)) = length (smp_value p)"
    "drop (length (smp_value p) + 1) (drop (length (smp_name p) + 1) (parm_image p @ r)) = r"
    "parm_image p \<noteq> []" "hd (parm_image p @ r) \<noteq> NUL"
  using assms by (cases "smp_name p"; auto simp: parm_wf_def parm_image_def)+

lemma count_parms_image:
  "\<forall>p \<in> set ps. parm_wf p \<Longrightarrow> count_parms (concat (map parm_image ps) @ NUL # r) n = Done (n + length ps, NUL # r)"
proof (induction ps arbitrary: n)
  case Nil
  then show ?case by (simp add: count_parms.simps)
next
  case (Cons p ps)
  let ?rest = "concat (map parm_image ps) @ NUL # r"
  have p: "parm_wf p" using Cons.prems by simp
  have len: "length (parm_image p @ ?rest) = length (smp_name p) + 1 + (length (smp_value p) + 1) + length ?rest"
    by (simp add: parm_image_def)
  have "count_parms (parm_image p @ ?rest) n = count_parms ?rest (n + 1)"
    using parm_scan(1,2,3,5) [OF p, of ?rest] parm_scan(4) [OF p] len
    by (subst count_parms.simps) (simp add: Let_def)
  then show ?case using Cons by simp
qed

lemma fill_parms_image:
  "\<forall>p \<in> set ps. parm_wf p \<Longrightarrow> length ps \<le> room \<Longrightarrow>
    fill_parms room (concat (map parm_image ps) @ NUL # r) = Done ps"
proof (induction ps arbitrary: room)
  case Nil
  then show ?case by (simp add: fill_parms.simps)
next
  case (Cons p ps)
  let ?rest = "concat (map parm_image ps) @ NUL # r"
  have p: "parm_wf p" using Cons.prems by simp
  have len: "length (parm_image p @ ?rest) = length (smp_name p) + 1 + (length (smp_value p) + 1) + length ?rest"
    by (simp add: parm_image_def)
  have "fill_parms (room - 1) ?rest = Done ps" using Cons by simp
  moreover have "take (length (smp_name p)) (parm_image p @ ?rest) = smp_name p"
    "take (length (smp_value p)) (drop (length (smp_name p) + 1) (parm_image p @ ?rest)) = smp_value p"
    by (simp_all add: parm_image_def)
  ultimately show ?case
    using parm_scan(1,2,3,5) [OF p, of ?rest] parm_scan(4) [OF p] len Cons.prems
    by (subst fill_parms.simps) (simp add: Let_def)
qed

lemma count_parms_split:
  "count_parms d n = Done (m, r) \<Longrightarrow>
    \<exists>ps. d = concat (map parm_image ps) @ r \<and> (\<forall>p \<in> set ps. parm_wf p) \<and> m = n + length ps \<and> (r = [] \<or> hd r = NUL)"
proof (induction d n rule: count_parms.induct)
  case (1 d n)
  show ?case
  proof (cases "d = [] \<or> hd d = NUL")
    case True
    then show ?thesis using 1(2) by (intro exI [of _ "[]"]) (auto simp: count_parms.simps)
  next
    case False
    let ?v = "drop (scan_nul d + 1) d"
    let ?p = "\<lparr>smp_name = take (scan_nul d) d, smp_value = take (scan_nul ?v) ?v\<rparr>"
    have a: "scan_nul d \<noteq> length d" "scan_nul ?v \<noteq> length ?v"
      and c: "count_parms (drop (scan_nul ?v + 1) ?v) (n + 1) = Done (m, r)"
      using 1(2) False by (auto simp: count_parms.simps [of d n] Let_def split: if_splits)
    from 1(1) [OF False refl a(1) refl refl a(2) c] obtain ps where ps:
      "drop (scan_nul ?v + 1) ?v = concat (map parm_image ps) @ r" "\<forall>p \<in> set ps. parm_wf p"
      "m = n + 1 + length ps" "r = [] \<or> hd r = NUL" by blast
    have lt: "scan_nul d < length d" "scan_nul ?v < length ?v"
      using a scan_nul_le [of d] scan_nul_le [of ?v] by linarith+
    have "parm_wf ?p" "d = parm_image ?p @ drop (scan_nul ?v + 1) ?v"
      using parm_split [of d] False lt by auto
    then show ?thesis using ps by (intro exI [of _ "?p # ps"]) auto
  qed
qed

lemma parse_startup_iff:
  "parse_startup h d = Done m \<longleftrightarrow>
    (\<forall>p \<in> set (sm_parameters m). parm_wf p) \<and> d = startup_image (sm_parameters m)
    \<and> sm_num_parameters m = length (sm_parameters m) \<and> sm_length m = take 4 h
    \<and> sm_protocol_version m = take 4 (drop 4 h) \<and> sm_data m = d"
proof
  assume l: "parse_startup h d = Done m"
  then obtain k r where c: "count_parms d 0 = Done (k, r)"
    by (cases "count_parms d 0") (auto simp: parse_startup_def)
  from count_parms_split [OF c] obtain ps where ps: "d = concat (map parm_image ps) @ r"
    "\<forall>p \<in> set ps. parm_wf p" "k = length ps" "r = [] \<or> hd r = NUL" by auto
  have "r = [NUL]" using l c ps(4) by (cases r) (auto simp: parse_startup_def split: if_splits)
  then have "fill_parms k d = Done ps" using ps fill_parms_image [of ps k "[]"] by simp
  then show "(\<forall>p \<in> set (sm_parameters m). parm_wf p) \<and> d = startup_image (sm_parameters m)
    \<and> sm_num_parameters m = length (sm_parameters m) \<and> sm_length m = take 4 h
    \<and> sm_protocol_version m = take 4 (drop 4 h) \<and> sm_data m = d"
    using l c \<open>r = [NUL]\<close> ps by (auto simp: parse_startup_def startup_image_def)
next
  assume "(\<forall>p \<in> set (sm_parameters m). parm_wf p) \<and> d = startup_image (sm_parameters m)
    \<and> sm_num_parameters m = length (sm_parameters m) \<and> sm_length m = take 4 h
    \<and> sm_protocol_version m = take 4 (drop 4 h) \<and> sm_data m = d"
  then show "parse_startup h d = Done m"
    using count_parms_image [of "sm_parameters m" "[]" 0] fill_parms_image [of "sm_parameters m" "length (sm_parameters m)" "[]"]
    by (simp add: parse_startup_def startup_image_def)
qed

text \<open>The second scan never fails after the first: no write goes past the array and no assertion fails.\<close>

lemma parse_startup_defined: "parse_startup h d \<noteq> Undefined"
proof (cases "count_parms d 0")
  case Undefined
  have "count_parms x k \<noteq> Undefined" for x k
    by (induction x k rule: count_parms.induct) (subst count_parms.simps, simp add: Let_def)
  then show ?thesis using Undefined by blast
next
  case (Failed e)
  then show ?thesis by (simp add: parse_startup_def)
next
  case (Done kr)
  obtain k r where kr: "kr = (k, r)" by (cases kr)
  from count_parms_split [OF Done [unfolded kr]] obtain ps where ps: "d = concat (map parm_image ps) @ r"
    "\<forall>p \<in> set ps. parm_wf p" "k = length ps" "r = [] \<or> hd r = NUL" by auto
  show ?thesis
  proof (cases "r = [NUL]")
    case True
    then show ?thesis using Done kr ps fill_parms_image [of ps k "[]"] by (simp add: parse_startup_def)
  next
    case False
    then show ?thesis using Done kr ps by (cases r) (auto simp: parse_startup_def)
  qed
qed

lemma startup_header_reads:
  assumes "n < 2 ^ 32"
  shows "length (startup_header n) = 8" "ntohl (startup_header n) = of_nat n"
    "ntohl (drop 4 (startup_header n)) = 0x00030000" "take 4 (startup_header n) = htonl (of_nat n)"
    "take 4 (drop 4 (startup_header n)) = htonl 0x00030000"
  using assms by (simp_all add: startup_header_def)

lemma read_startup_parse:
  assumes len: "8 < n" "n < 2 ^ 31" and arrived: "incoming tls evs = d @ rest" "length d + 8 = n"
  obtains evs' where "read_startup_message tls evs (startup_header n)
      = and_then (report (parse_startup (startup_header n) d)) (\<lambda>m. Done (m, evs'))"
    "incoming tls evs' = rest" "closing tls evs' = closing tls evs"
proof -
  have u: "unat (of_nat n :: u32) = n" using len by (simp add: unat_of_nat)
  then have ne: "of_nat n \<noteq> (8 :: u32)" using len(1) by auto
  have nd: "int n - 8 = int (length d)" using arrived(2) by simp
  obtain evs' where r: "read_bytes tls evs (int n - 8) (int n - 8) = Read_ok d evs'" and i: "incoming tls evs' = rest"
      "closing tls evs' = closing tls evs"
    using read_bytes_enough [of "int (length d)" "int (length d)" tls evs] arrived(1) unfolding nd by auto
  have "read_startup_message tls evs (startup_header n)
      = and_then (report (parse_startup (startup_header n) d)) (\<lambda>m. Done (m, evs'))"
    using len u ne r by (simp add: read_startup_message_def startup_header_reads Let_def)
  with i show thesis using that by blast
qed

lemma read_startup_image:
  assumes "8 < n" "n < 2 ^ 31" "incoming tls evs = startup_image ps @ rest" "length (startup_image ps) + 8 = n" "\<forall>p \<in> set ps. parm_wf p"
  obtains evs' m where "read_startup_message tls evs (startup_header n) = Done (m, evs')" "sm_parameters m = ps" "sm_num_parameters m = length ps"
    "incoming tls evs' = rest" "closing tls evs' = closing tls evs"
proof -
  let ?m = "\<lparr>sm_parameters = ps, sm_num_parameters = length ps, sm_length = take 4 (startup_header n),
    sm_protocol_version = take 4 (drop 4 (startup_header n)), sm_data = startup_image ps\<rparr>"
  obtain evs' where e: "read_startup_message tls evs (startup_header n)
      = and_then (report (parse_startup (startup_header n) (startup_image ps))) (\<lambda>m. Done (m, evs'))"
    "incoming tls evs' = rest" "closing tls evs' = closing tls evs"
    using read_startup_parse [OF assms(1-4)] by blast
  have "parse_startup (startup_header n) (startup_image ps) = Done ?m" using assms(5) by (simp add: parse_startup_iff)
  with e show thesis using that [of ?m evs'] by simp
qed

section \<open>Properties\<close>

text \<open>C17.
  Once the eight header bytes announce protocol 3.0 and a length, and that many bytes arrive in any chunks,
  \<open>read_startup_message\<close> returns a message with the parameters \<open>ps\<close> exactly if the bytes are the image
  of \<open>ps\<close> with proper names and values, consuming just these bytes; otherwise it reports an error. It never leaves
  its memory.
\<close>

theorem read_startup_correct:
  assumes len: "8 < n" "n < 2 ^ 31" and arrived: "incoming tls evs = d @ rest" "length d + 8 = n"
  shows "((\<exists>evs' m. read_startup_message tls evs (startup_header n) = Done (m, evs')
            \<and> sm_parameters m = ps \<and> sm_num_parameters m = length ps \<and> incoming tls evs' = rest)
         \<longleftrightarrow> (\<forall>p \<in> set ps. parm_wf p) \<and> d = startup_image ps)
    \<and> read_startup_message tls evs (startup_header n) \<noteq> Undefined"
proof -
  obtain evs' where e: "read_startup_message tls evs (startup_header n)
      = and_then (report (parse_startup (startup_header n) d)) (\<lambda>m. Done (m, evs'))"
    using read_startup_parse [OF assms] by blast
  have "(\<exists>evs' m. read_startup_message tls evs (startup_header n) = Done (m, evs')
            \<and> sm_parameters m = ps \<and> sm_num_parameters m = length ps \<and> incoming tls evs' = rest)
         \<longleftrightarrow> (\<forall>p \<in> set ps. parm_wf p) \<and> d = startup_image ps"
  proof
    assume "\<exists>evs' m. read_startup_message tls evs (startup_header n) = Done (m, evs')
            \<and> sm_parameters m = ps \<and> sm_num_parameters m = length ps \<and> incoming tls evs' = rest"
    then obtain m where "parse_startup (startup_header n) d = Done m" "sm_parameters m = ps"
      unfolding e by (cases "parse_startup (startup_header n) d") auto
    then show "(\<forall>p \<in> set ps. parm_wf p) \<and> d = startup_image ps" by (auto simp: parse_startup_iff)
  next
    assume "(\<forall>p \<in> set ps. parm_wf p) \<and> d = startup_image ps"
    then show "\<exists>evs' m. read_startup_message tls evs (startup_header n) = Done (m, evs')
            \<and> sm_parameters m = ps \<and> sm_num_parameters m = length ps \<and> incoming tls evs' = rest"
      using read_startup_image [OF len, of tls evs ps rest] arrived by metis
  qed
  moreover have "read_startup_message tls evs (startup_header n) \<noteq> Undefined"
    unfolding e using parse_startup_defined [of "startup_header n" d]
    by (cases "parse_startup (startup_header n) d") auto
  ultimately show ?thesis by blast
qed

theorem read_startup_correct_witness:
  "let ps = [\<lparr>smp_name = ''user'', smp_value = ''ann''\<rparr>]; evs = [Received ''user'', Received (NUL # ''ann'' @ [NUL, NUL])]
   in (\<exists>evs' m. read_startup_message False evs (startup_header 18) = Done (m, evs')
         \<and> sm_parameters m = ps \<and> sm_num_parameters m = length ps \<and> incoming False evs' = [])"
proof -
  let ?ps = "[\<lparr>smp_name = ''user'', smp_value = ''ann''\<rparr>]"
  let ?evs = "[Received ''user'', Received (NUL # ''ann'' @ [NUL, NUL])]"
  have "incoming False ?evs = startup_image ?ps @ []" "length (startup_image ?ps) + 8 = 18"
    by (simp_all add: ends_def startup_image_def parm_image_def)
  from read_startup_correct [OF _ _ this, of ?ps] show ?thesis
    by (simp add: parm_wf_def)
qed

end
