(* ===== verification/Ydb_Database.thy ===== *)
theory Ydb_Database
  imports Octo_Errors "HOL-Library.Product_Lexorder" "HOL-Library.List_Lexorder" "HOL-Library.Char_ord"
begin

text \<open>
  The database. YottaDB is not part of the sources: the calls the server makes (\<open>ydb_get_s\<close> and the others of
  \<open>libyottadb.h\<close>) are the fields of a record, functions of a database state of any type. A node is a global name
  with subscripts. \<open>ydb_laws\<close> is what the documentation of the calls promises and the server relies on.
\<close>

datatype 'a ydb_status =
    YDB_OK 'a
  | YDB_ERR_GVUNDEF
  | YDB_ERR_LVUNDEF
  | YDB_ERR_NODEEND
  | YDB_ERR int

text \<open>
  A read names the size of the buffer for the result. The next subscript is the one behind the last subscript
  given, at its level. A node is deleted with everything below it. \<open>ydb_data_s\<close> is left out: its only result is not
  used.
\<close>

record 'db ydb =
  ydb_get_s :: "'db \<Rightarrow> string \<Rightarrow> string list \<Rightarrow> nat \<Rightarrow> string ydb_status"
  ydb_set_s :: "'db \<Rightarrow> string \<Rightarrow> string list \<Rightarrow> string \<Rightarrow> 'db ydb_status"
  ydb_incr_s :: "'db \<Rightarrow> string \<Rightarrow> string list \<Rightarrow> (string \<times> 'db) ydb_status"
  ydb_subscript_next_s :: "'db \<Rightarrow> string \<Rightarrow> string list \<Rightarrow> string ydb_status"
  ydb_delete_s :: "'db \<Rightarrow> string \<Rightarrow> string list \<Rightarrow> 'db ydb_status"

section \<open>The laws\<close>

text \<open>A loop that asks for the next subscript again and again visits these subscripts after \<open>x\<close>.\<close>

primrec visits :: "'db ydb \<Rightarrow> 'db \<Rightarrow> string \<Rightarrow> string list \<Rightarrow> string \<Rightarrow> string list \<Rightarrow> bool" where
  "visits api db g subs x [] \<longleftrightarrow> ydb_subscript_next_s api db g (subs @ [x]) = YDB_ERR_NODEEND"
| "visits api db g subs x (y # ys) \<longleftrightarrow>
     ydb_subscript_next_s api db g (subs @ [x]) = YDB_OK y \<and> visits api db g subs y ys"

definition strictly_below :: "string \<Rightarrow> string list \<Rightarrow> string \<Rightarrow> string list \<Rightarrow> bool" where
  "strictly_below g subs h subs' \<longleftrightarrow> h = g \<and> take (length subs) subs' = subs \<and> length subs < length subs'"

text \<open>
  A value that was set is read back from its node, if the buffer holds it, and no other node changes. The
  subscripts below a node change only if something below it is set; numbers are visited in their order. An
  increment sets the node to its result. A deleted node is undefined, with all nodes below it, and has no
  subscripts; other nodes do not change.
\<close>

definition set_laws :: "'db ydb \<Rightarrow> bool" where
  "set_laws api \<longleftrightarrow>
     (\<forall>db g subs v db' n. ydb_set_s api db g subs v = YDB_OK db' \<longrightarrow> length v \<le> n \<longrightarrow>
        ydb_get_s api db' g subs n = YDB_OK v)
     \<and> (\<forall>db g subs v db' h subs' n. ydb_set_s api db g subs v = YDB_OK db' \<longrightarrow> (h, subs') \<noteq> (g, subs) \<longrightarrow>
        ydb_get_s api db' h subs' n = ydb_get_s api db h subs' n)
     \<and> (\<forall>db g subs v db' h subs' x. ydb_set_s api db g subs v = YDB_OK db' \<longrightarrow> \<not> strictly_below h subs' g subs \<longrightarrow>
        ydb_subscript_next_s api db' h (subs' @ [x]) = ydb_subscript_next_s api db h (subs' @ [x]))
     \<and> (\<forall>db g subs k v db'. ydb_set_s api db g (subs @ [nat_dec k]) v = YDB_OK db' \<longrightarrow>
        visits api db g subs [] (map nat_dec [0..<k]) \<longrightarrow> visits api db' g subs [] (map nat_dec [0..<Suc k]))"

definition incr_law :: "'db ydb \<Rightarrow> bool" where
  "incr_law api \<longleftrightarrow>
     (\<forall>db g subs v db'. ydb_incr_s api db g subs = YDB_OK (v, db') \<longrightarrow> ydb_set_s api db g subs v = YDB_OK db')"

definition delete_laws :: "'db ydb \<Rightarrow> bool" where
  "delete_laws api \<longleftrightarrow>
     (\<forall>db g subs db' r n. ydb_delete_s api db g subs = YDB_OK db' \<longrightarrow>
        ydb_get_s api db' g (subs @ r) n = YDB_ERR_GVUNDEF \<or> ydb_get_s api db' g (subs @ r) n = YDB_ERR_LVUNDEF)
     \<and> (\<forall>db g subs db' r x. ydb_delete_s api db g subs = YDB_OK db' \<longrightarrow>
        ydb_subscript_next_s api db' g (subs @ r @ [x]) = YDB_ERR_NODEEND)
     \<and> (\<forall>db g subs db' h subs' n. ydb_delete_s api db g subs = YDB_OK db' \<longrightarrow>
        \<not> (h = g \<and> take (length subs) subs' = subs) \<longrightarrow> ydb_get_s api db' h subs' n = ydb_get_s api db h subs' n)
     \<and> (\<forall>db g subs db' h subs'. ydb_delete_s api db g subs = YDB_OK db' \<longrightarrow> h \<noteq> g \<longrightarrow>
        ydb_subscript_next_s api db' h subs' = ydb_subscript_next_s api db h subs')"

definition ydb_laws :: "'db ydb \<Rightarrow> bool" where
  "ydb_laws api \<longleftrightarrow> set_laws api \<and> incr_law api \<and> delete_laws api"

text \<open>A database that does not fail.\<close>

definition ydb_works :: "'db ydb \<Rightarrow> bool" where
  "ydb_works api \<longleftrightarrow>
     (\<forall>db g subs v. \<exists>db'. ydb_set_s api db g subs v = YDB_OK db')
     \<and> (\<forall>db g subs. \<exists>v db'. ydb_incr_s api db g subs = YDB_OK (v, db'))
     \<and> (\<forall>db g subs. \<exists>db'. ydb_delete_s api db g subs = YDB_OK db')"

lemma ydb_get_set:
  "ydb_laws api \<Longrightarrow> ydb_set_s api db g subs v = YDB_OK db' \<Longrightarrow> length v \<le> n \<Longrightarrow>
    ydb_get_s api db' g subs n = YDB_OK v"
  by (simp add: ydb_laws_def set_laws_def)

lemma ydb_get_set_other:
  "ydb_laws api \<Longrightarrow> ydb_set_s api db g subs v = YDB_OK db' \<Longrightarrow> (h, subs') \<noteq> (g, subs) \<Longrightarrow>
    ydb_get_s api db' h subs' n = ydb_get_s api db h subs' n"
  by (simp add: ydb_laws_def set_laws_def)

lemma ydb_next_set_other:
  "ydb_laws api \<Longrightarrow> ydb_set_s api db g subs v = YDB_OK db' \<Longrightarrow> \<not> strictly_below h subs' g subs \<Longrightarrow>
    ydb_subscript_next_s api db' h (subs' @ [x]) = ydb_subscript_next_s api db h (subs' @ [x])"
  by (simp add: ydb_laws_def set_laws_def)

lemma ydb_visits_set:
  "ydb_laws api \<Longrightarrow> ydb_set_s api db g (subs @ [nat_dec k]) v = YDB_OK db' \<Longrightarrow>
    visits api db g subs [] (map nat_dec [0..<k]) \<Longrightarrow> visits api db' g subs [] (map nat_dec [0..<Suc k])"
  by (simp add: ydb_laws_def set_laws_def)

lemma ydb_incr_set:
  "ydb_laws api \<Longrightarrow> ydb_incr_s api db g subs = YDB_OK (v, db') \<Longrightarrow> ydb_set_s api db g subs v = YDB_OK db'"
  by (simp add: ydb_laws_def incr_law_def)

lemma ydb_delete_undefined:
  "ydb_laws api \<Longrightarrow> ydb_delete_s api db g subs = YDB_OK db' \<Longrightarrow>
    ydb_get_s api db' g (subs @ r) n = YDB_ERR_GVUNDEF \<or> ydb_get_s api db' g (subs @ r) n = YDB_ERR_LVUNDEF"
  by (simp add: ydb_laws_def delete_laws_def)

lemma ydb_delete_next:
  "ydb_laws api \<Longrightarrow> ydb_delete_s api db g subs = YDB_OK db' \<Longrightarrow>
    ydb_subscript_next_s api db' g (subs @ r @ [x]) = YDB_ERR_NODEEND"
  by (simp add: ydb_laws_def delete_laws_def)

lemma ydb_delete_other:
  "ydb_laws api \<Longrightarrow> ydb_delete_s api db g subs = YDB_OK db' \<Longrightarrow> h \<noteq> g \<Longrightarrow>
    ydb_get_s api db' h subs' n = ydb_get_s api db h subs' n
    \<and> ydb_subscript_next_s api db' h subs' = ydb_subscript_next_s api db h subs'"
  by (simp add: ydb_laws_def delete_laws_def)

lemma visits_set_other:
  "ydb_laws api \<Longrightarrow> ydb_set_s api db g subs v = YDB_OK db' \<Longrightarrow> \<not> strictly_below h subs' g subs \<Longrightarrow>
    visits api db' h subs' x ys = visits api db h subs' x ys"
  by (induction ys arbitrary: x) (simp_all add: ydb_next_set_other)

text \<open>Only nodes of \<open>W\<close> have changed.\<close>

definition unchanged :: "'db ydb \<Rightarrow> (string \<Rightarrow> string list \<Rightarrow> bool) \<Rightarrow> 'db \<Rightarrow> 'db \<Rightarrow> bool" where
  "unchanged api W db db' \<longleftrightarrow>
     (\<forall>h subs n. \<not> W h subs \<longrightarrow> ydb_get_s api db' h subs n = ydb_get_s api db h subs n)
     \<and> (\<forall>h subs x. (\<forall>xs. W h xs \<longrightarrow> \<not> strictly_below h subs h xs) \<longrightarrow>
          ydb_subscript_next_s api db' h (subs @ [x]) = ydb_subscript_next_s api db h (subs @ [x]))"

lemma unchanged_refl [simp]: "unchanged api W db db"
  by (simp add: unchanged_def)

lemma unchanged_trans: "unchanged api W db db' \<Longrightarrow> unchanged api W db' db'' \<Longrightarrow> unchanged api W db db''"
  by (simp add: unchanged_def)

lemma unchanged_mono: "unchanged api V db db' \<Longrightarrow> (\<And>h xs. V h xs \<Longrightarrow> W h xs) \<Longrightarrow> unchanged api W db db'"
  unfolding unchanged_def by meson

lemma unchanged_set: "ydb_laws api \<Longrightarrow> ydb_set_s api db g subs v = YDB_OK db' \<Longrightarrow> W g subs \<Longrightarrow> unchanged api W db db'"
  unfolding unchanged_def
  by (intro conjI allI impI) (metis Pair_inject ydb_get_set_other, metis strictly_below_def ydb_next_set_other)

lemma unchanged_get: "unchanged api W db db' \<Longrightarrow> \<not> W h subs \<Longrightarrow> ydb_get_s api db' h subs n = ydb_get_s api db h subs n"
  by (simp add: unchanged_def)

lemma unchanged_visits:
  "unchanged api W db db' \<Longrightarrow> (\<And>xs. W h xs \<Longrightarrow> \<not> strictly_below h subs h xs) \<Longrightarrow>
    visits api db' h subs x ys = visits api db h subs x ys"
  by (induction ys arbitrary: x) (simp_all add: unchanged_def)

lemma nat_dec_inj [simp]: "nat_dec m = nat_dec n \<longleftrightarrow> m = n"
  by (metis digits_val_nat_dec)

section \<open>A concrete database\<close>

text \<open>
  For the witnesses: the nodes with their values, the latest first. Subscripts are ordered as M does it for whole
  numbers and other texts: numbers come first.
\<close>

type_synonym tree = "((string \<times> string list) \<times> string) list"

definition tree_get :: "tree \<Rightarrow> string \<Rightarrow> string list \<Rightarrow> nat \<Rightarrow> string ydb_status" where
  "tree_get db g subs n =
     (case map_of db (g, subs) of
        None \<Rightarrow> YDB_ERR_GVUNDEF | Some v \<Rightarrow> if length v \<le> n then YDB_OK v else YDB_ERR (-1))"

definition tree_set :: "tree \<Rightarrow> string \<Rightarrow> string list \<Rightarrow> string \<Rightarrow> tree ydb_status" where
  "tree_set db g subs v = YDB_OK (((g, subs), v) # db)"

definition tree_incr :: "tree \<Rightarrow> string \<Rightarrow> string list \<Rightarrow> (string \<times> tree) ydb_status" where
  "tree_incr db g subs =
     (let v = int_dec ((case map_of db (g, subs) of None \<Rightarrow> 0 | Some s \<Rightarrow> atoi s) + 1) in YDB_OK (v, ((g, subs), v) # db))"

definition remaining :: "string \<Rightarrow> string list \<Rightarrow> tree \<Rightarrow> tree" where
  "remaining g subs db = filter (\<lambda>(k, v). \<not> (fst k = g \<and> take (length subs) (snd k) = subs)) db"

definition tree_delete :: "tree \<Rightarrow> string \<Rightarrow> string list \<Rightarrow> tree ydb_status" where
  "tree_delete db g subs = YDB_OK (remaining g subs db)"

definition collation :: "string \<Rightarrow> nat \<times> nat \<times> string" where
  "collation s =
     (if s = [] then (0, 0, [])
      else if nat_dec (digits_val s) = s then (1, digits_val s, [])
      else (2, 0, s))"

definition children :: "tree \<Rightarrow> string \<Rightarrow> string list \<Rightarrow> string list" where
  "children db g subs = map (\<lambda>((h, xs), v). xs ! length subs) (filter (\<lambda>((h, xs), v). strictly_below g subs h xs) db)"

definition tree_next :: "tree \<Rightarrow> string \<Rightarrow> string list \<Rightarrow> string ydb_status" where
  "tree_next db g subs =
     (let cs = filter (\<lambda>c. collation (last subs) < collation c) (children db g (butlast subs)) in
      if cs = [] then YDB_ERR_NODEEND else YDB_OK (arg_min_list collation cs))"

definition tree_api :: "tree ydb" where
  "tree_api = \<lparr>ydb_get_s = tree_get, ydb_set_s = tree_set, ydb_incr_s = tree_incr,
     ydb_subscript_next_s = tree_next, ydb_delete_s = tree_delete\<rparr>"

lemma collation_number: "collation (nat_dec k) = (1, k, [])"
proof -
  have "nat_dec k \<noteq> []" by (subst nat_dec.simps) simp
  then show ?thesis by (simp add: collation_def digits_val_nat_dec)
qed

lemma collation_Nil: "collation [] = (0, 0, [])"
  by (simp add: collation_def)

lemma collation_inj: "collation a = collation b \<longleftrightarrow> a = b"
proof
  assume c: "collation a = collation b"
  show "a = b"
  proof (cases "a \<noteq> [] \<and> nat_dec (digits_val a) = a")
    case True
    then have "collation b = (1, digits_val a, [])" using c by (simp add: collation_def)
    then have "nat_dec (digits_val b) = b" "digits_val b = digits_val a" by (simp_all add: collation_def split: if_splits)
    with True show ?thesis by simp
  next
    case False
    with c show ?thesis by (simp add: collation_def split: if_splits)
  qed
qed simp

lemma tree_next_iff:
  "tree_next db g (subs @ [x]) = YDB_OK y \<longleftrightarrow>
     y \<in> set (children db g subs) \<and> collation x < collation y
     \<and> (\<forall>c \<in> set (children db g subs). collation x < collation c \<longrightarrow> collation y \<le> collation c)"
  (is "?next = YDB_OK y \<longleftrightarrow> ?least")
proof -
  let ?cs = "filter (\<lambda>c. collation x < collation c) (children db g subs)"
  have n: "?next = (if ?cs = [] then YDB_ERR_NODEEND else YDB_OK (arg_min_list collation ?cs))"
    by (simp add: tree_next_def Let_def)
  show ?thesis
  proof (cases "?cs = []")
    case True
    then have "\<not> ?least" by (auto simp: filter_empty_conv)
    with True n show ?thesis by simp
  next
    case False
    let ?m = "arg_min_list collation ?cs"
    have m: "?m \<in> set ?cs" using False by (rule arg_min_list_in)
    have "collation ?m = Min (collation ` set ?cs)" using False by (rule f_arg_min_list_f)
    then have le: "\<forall>c \<in> set ?cs. collation ?m \<le> collation c" by simp
    have "?least \<longleftrightarrow> ?m = y"
    proof
      assume ?least
      then have "y \<in> set ?cs" by simp
      with le have "collation ?m \<le> collation y" by blast
      moreover have "collation y \<le> collation ?m" using \<open>?least\<close> m by simp
      ultimately show "?m = y" using collation_inj by force
    next
      assume "?m = y"
      with m le show ?least by simp
    qed
    with n False show ?thesis by simp
  qed
qed

lemma tree_next_end:
  "tree_next db g (subs @ [x]) = YDB_ERR_NODEEND \<longleftrightarrow> (\<forall>c \<in> set (children db g subs). \<not> collation x < collation c)"
  by (auto simp: tree_next_def Let_def filter_empty_conv)

lemma children_Cons [simp]:
  "children (((h, xs), v) # db) g subs = (if strictly_below g subs h xs then xs ! length subs # children db g subs else children db g subs)"
  by (simp add: children_def)

text \<open>The subscripts from \<open>j\<close> on, after a new one with the next number.\<close>

lemma tree_visits_number:
  assumes "children db' g subs = nat_dec k # children db g subs"
    and "visits tree_api db g subs x (map nat_dec [j..<k])" "j \<le> k" "collation x < (1, j, [])"
  shows "visits tree_api db' g subs x (map nat_dec [j..<Suc k])"
  using assms(2-4)
proof (induction "k - j" arbitrary: j x)
  case 0
  then have "\<forall>c \<in> set (children db g subs). \<not> collation x < collation c" and j: "j = k"
    by (simp_all add: tree_api_def tree_next_end)
  with 0 assms(1) show ?case
    by (auto simp: tree_api_def tree_next_iff tree_next_end collation_number not_less intro: order.trans less_imp_le)
next
  case (Suc n)
  then have "j < k" by simp
  then have u: "[j..<k] = j # [Suc j..<k]" "[j..<Suc k] = j # [Suc j..<Suc k]" by (simp_all add: upt_conv_Cons)
  have v: "tree_next db g (subs @ [x]) = YDB_OK (nat_dec j)" "visits tree_api db g subs (nat_dec j) (map nat_dec [Suc j..<k])"
    using Suc.prems(1) unfolding u(1) by (simp_all add: tree_api_def)
  have "visits tree_api db' g subs (nat_dec j) (map nat_dec [Suc j..<Suc k])"
    using Suc.hyps(2) \<open>j < k\<close> v(2) by (intro Suc.hyps(1)) (simp_all add: collation_number)
  moreover have "tree_next db' g (subs @ [x]) = YDB_OK (nat_dec j)"
    using v(1) \<open>j < k\<close> unfolding tree_next_iff assms(1) by (simp add: collation_number)
  ultimately show ?case unfolding u(2) by (simp add: tree_api_def)
qed

lemma tree_set_laws: "set_laws tree_api"
proof -
  have "visits tree_api (((g, subs @ [nat_dec k]), v) # db) g subs [] (map nat_dec [0..<Suc k])"
    if "visits tree_api db g subs [] (map nat_dec [0..<k])" for db :: tree and g subs k v
    using that by (intro tree_visits_number [where db = db]) (simp_all add: strictly_below_def collation_Nil)
  then show ?thesis
    by (simp add: set_laws_def tree_api_def tree_get_def tree_set_def tree_next_def del: map_append upt_Suc)
qed

lemma map_of_filter_key: "map_of (filter (\<lambda>(k, v). P k) db) k = (if P k then map_of db k else None)"
  by (induction db) auto

lemma tree_get_remaining:
  "tree_get (remaining g subs db) h xs n =
    (if h = g \<and> take (length subs) xs = subs then YDB_ERR_GVUNDEF else tree_get db h xs n)"
  by (simp add: tree_get_def remaining_def map_of_filter_key)

lemma children_remaining: "children (remaining g subs db) g (subs @ r) = []"
proof -
  have "\<not> strictly_below g (subs @ r) h xs" if "\<not> (h = g \<and> take (length subs) xs = subs)" for h xs
  proof
    assume "strictly_below g (subs @ r) h xs"
    then have "h = g" "take (length subs) (take (length (subs @ r)) xs) = subs" by (simp_all add: strictly_below_def)
    with that show False by (simp add: take_take min_def)
  qed
  then show ?thesis by (auto simp: children_def remaining_def filter_empty_conv)
qed

lemma children_remaining_other: "h \<noteq> g \<Longrightarrow> children (remaining g subs db) h p = children db h p"
  by (simp add: children_def remaining_def, rule arg_cong [where f = "map _"], rule filter_cong)
    (auto simp: strictly_below_def)

lemma tree_delete_laws: "delete_laws tree_api"
proof -
  have "tree_next (remaining g subs db) g (subs @ r @ [x]) = YDB_ERR_NODEEND" for db g subs r x
    using tree_next_end [of "remaining g subs db" g "subs @ r" x] by (simp add: children_remaining)
  moreover have "tree_next (remaining g subs db) h p = tree_next db h p" if "h \<noteq> g" for db g subs h p
    using that by (simp add: tree_next_def children_remaining_other)
  ultimately show ?thesis
    by (simp add: delete_laws_def tree_api_def tree_delete_def tree_get_remaining)
qed

lemma tree_api_laws: "ydb_laws tree_api"
  by (simp add: ydb_laws_def tree_set_laws tree_delete_laws)
    (auto simp: incr_law_def tree_api_def tree_incr_def tree_set_def Let_def)

lemma tree_api_works: "ydb_works tree_api"
  by (simp add: ydb_works_def tree_api_def tree_set_def tree_incr_def tree_delete_def Let_def)

end
