(* ===== verification/Password_Check.thy ===== *)
theory Password_Check
  imports Bind_Parameters Session_Startup Ydb_Database
begin

text \<open>
  Authentication: \<open>get_user_column_value\<close>, \<open>handle_password_message\<close> and, for the client's side,
  \<open>make_password_message\<close>. The hash function of the OpenSSL library is the parameter \<open>md5\<close>, of which the code
  relies on the length of its result. Arrays have \<open>MAX_STR_CONST\<close> bytes; \<open>Undefined\<close> is an access past one of
  them or the use of an uninitialised one.
\<close>

section \<open>Columns of a row\<close>

datatype UserColumns =
    UserColumn_OID | UserColumn_ROLNAME | UserColumn_ROLSUPER | UserColumn_ROLINHERIT
  | UserColumn_ROLCREATEROLE | UserColumn_ROLCREATEDB | UserColumn_ROLCANLOGIN
  | UserColumn_ROLREPLICATION | UserColumn_ROLBYPASSRLS | UserColumn_ROLCONNLIMIT
  | UserColumn_ROLPASSWORD | UserColumn_ROLVALIDUNTIL

primrec user_column_index :: "UserColumns \<Rightarrow> nat" where
  "user_column_index UserColumn_OID = 0"
| "user_column_index UserColumn_ROLNAME = 1"
| "user_column_index UserColumn_ROLSUPER = 2"
| "user_column_index UserColumn_ROLINHERIT = 3"
| "user_column_index UserColumn_ROLCREATEROLE = 4"
| "user_column_index UserColumn_ROLCREATEDB = 5"
| "user_column_index UserColumn_ROLCANLOGIN = 6"
| "user_column_index UserColumn_ROLREPLICATION = 7"
| "user_column_index UserColumn_ROLBYPASSRLS = 8"
| "user_column_index UserColumn_ROLCONNLIMIT = 9"
| "user_column_index UserColumn_ROLPASSWORD = 10"
| "user_column_index UserColumn_ROLVALIDUNTIL = 11"

abbreviation COLUMN_DELIMITER :: char where
  "COLUMN_DELIMITER \<equiv> CHR ''|''"

fun find_column :: "nat \<Rightarrow> string \<Rightarrow> string" where
  "find_column 0 row = row"
| "find_column (Suc n) [] = []"
| "find_column (Suc n) (c # cs) = (if c = COLUMN_DELIMITER then find_column n cs else find_column (Suc n) cs)"

definition strncpy_bytes :: "nat \<Rightarrow> string \<Rightarrow> string" where
  "strncpy_bytes n s = (let t = cstr (take n s) in t @ replicate (n - length t) NUL)"

text \<open>
  The length of the value is searched without a look at the end of the row. The result is what is copied; an
  empty result stands for the return value 0.
\<close>

definition get_user_column_value :: "nat \<Rightarrow> string \<Rightarrow> UserColumns \<Rightarrow> (unit, string) outcome" where
  "get_user_column_value buf_len row column =
     (let col_start = find_column (user_column_index column) row;
          value_len = length (takeWhile (\<lambda>c. c \<noteq> COLUMN_DELIMITER) col_start) in
      if value_len = length col_start then Undefined
      else if buf_len < value_len then Done []
      else if buf_len = value_len then Undefined
      else Done (strncpy_bytes value_len col_start))"

section \<open>The client's message\<close>

text \<open>
  \<open>sprintf\<close> writes password and user into an array without a bound. The salt is printed with \<open>%s\<close>: it is the memory
  from the pointer on, which must hold a zero byte, and the text is cut to 36 characters.
\<close>

definition make_password_message ::
  "(string \<Rightarrow> string) \<Rightarrow> nat \<Rightarrow> string \<Rightarrow> string option \<Rightarrow> string \<Rightarrow> (unit, BaseMessage option) outcome" where
  "make_password_message md5 max_str_const user password salt =
     (let pw = cstr (case password of None \<Rightarrow> [] | Some p \<Rightarrow> p); text1 = pw @ cstr user in
      if max_str_const \<le> length text1 then Undefined
      else and_then (md5_to_hex (md5 text1) 33) (\<lambda>hex1.
        case hex1 of
          None \<Rightarrow> Done None
        | Some hex_hash \<Rightarrow>
            if nul_free salt then Undefined
            else and_then (md5_to_hex (md5 (take 36 (hex_hash @ cstr salt))) 33) (\<lambda>hex2.
              case hex2 of
                None \<Rightarrow> Done None
              | Some hex_hash2 \<Rightarrow>
                  Done (Some \<lparr>mtype = PSQL_PasswordMessage, mlength = htonl (4 + 36),
                    mdata = ''md5'' @ hex_hash2 @ [NUL]\<rparr>))))"

section \<open>The server's check\<close>

definition handle_password_message ::
  "(string \<Rightarrow> string) \<Rightarrow> 'db ydb \<Rightarrow> nat \<Rightarrow> 'db \<Rightarrow> string \<Rightarrow> PasswordMessage \<Rightarrow> StartupMessage \<Rightarrow> string
    \<Rightarrow> (stop, unit) outcome" where
  "handle_password_message md5 api max_str_const db octo password_message startup_message salt =
     (let password = pm_password password_message;
          fail = (\<lambda>e args. Failed (Stop_error (syntax_report e (ArgS ''handle_password_message'' # args)))) in
      if take 3 password \<noteq> ''md5'' then fail (Authentication ERR_ROCTO_PASSWORD_TYPE) [ArgS ''md5'']
      else case find (\<lambda>p. smp_name p = ''user'') (sm_parameters startup_message) of
        None \<Rightarrow> Undefined
      | Some parm \<Rightarrow>
          if max_str_const \<le> length (smp_value parm) then Undefined
          else case ydb_get_s api db octo [''users'', smp_value parm] max_str_const of
            YDB_OK row \<Rightarrow>
              and_then (no_error (get_user_column_value max_str_const row UserColumn_ROLPASSWORD)) (\<lambda>buffer.
                let buf_len = length buffer in
                if buf_len = 0 then
                  fail (Internal ERR_ROCTO_COLUMN_VALUE) [ArgS ''rolpassword (hashed password)'']
                else if buf_len < 3 \<or> max_str_const < buf_len + 1 \<or> length salt < 4 then Undefined
                else and_then (no_error (md5_to_hex (md5 (drop 3 buffer @ take 4 salt)) 33)) (\<lambda>md5_hex.
                  case md5_hex of
                    None \<Rightarrow> fail (Internal ERR_ROCTO_HASH_CONVERSION) [ArgS ''md5 hash'', ArgS ''hexidecimal string'']
                  | Some hex \<Rightarrow>
                      if hex \<noteq> drop 3 password then fail (Authentication ERR_ROCTO_BAD_PASSWORD) []
                      else Done ()))
          | YDB_ERR_GVUNDEF \<Rightarrow> fail (Internal ERR_ROCTO_DB_LOOKUP) [ArgS ''user info'']
          | YDB_ERR_LVUNDEF \<Rightarrow> fail (Internal ERR_ROCTO_DB_LOOKUP) [ArgS ''user info'']
          | _ \<Rightarrow> Failed (Stop_fatal (Internal ERR_YOTTADB)))"

section \<open>Rows\<close>

fun row_text :: "string list \<Rightarrow> string" where
  "row_text [] = []"
| "row_text [c] = c"
| "row_text (c # cs) = c @ COLUMN_DELIMITER # row_text cs"

lemma find_column_skip:
  "COLUMN_DELIMITER \<notin> set c \<Longrightarrow> find_column (Suc n) (c @ COLUMN_DELIMITER # r) = find_column n r"
  by (induction c) auto

lemma find_column_row:
  "\<forall>c \<in> set cs. COLUMN_DELIMITER \<notin> set c \<Longrightarrow> Suc i < length cs \<Longrightarrow>
    \<exists>r. find_column i (row_text cs) = cs ! i @ COLUMN_DELIMITER # r"
proof (induction cs arbitrary: i rule: row_text.induct)
  case (3 c d cs)
  show ?case
  proof (cases i)
    case (Suc j)
    then show ?thesis using 3 find_column_skip [of c j "row_text (d # cs)"] by simp
  qed auto
qed simp_all

lemma takeWhile_column:
  "COLUMN_DELIMITER \<notin> set c \<Longrightarrow> takeWhile (\<lambda>x. x \<noteq> COLUMN_DELIMITER) (c @ COLUMN_DELIMITER # r) = c"
  by (induction c) auto

lemma get_user_column_value_row:
  assumes "\<forall>c \<in> set cs. COLUMN_DELIMITER \<notin> set c" "Suc (user_column_index column) < length cs"
    and "nul_free (cs ! user_column_index column)" "length (cs ! user_column_index column) < buf_len"
  shows "get_user_column_value buf_len (row_text cs) column = Done (cs ! user_column_index column)"
proof -
  let ?v = "cs ! user_column_index column"
  obtain r where r: "find_column (user_column_index column) (row_text cs) = ?v @ COLUMN_DELIMITER # r"
    using find_column_row [OF assms(1,2)] by blast
  have "COLUMN_DELIMITER \<notin> set ?v" using assms(1,2) nth_mem [of "user_column_index column" cs] by (meson Suc_lessD)
  then show ?thesis
    using assms(3,4) by (simp add: get_user_column_value_def r takeWhile_column strncpy_bytes_def)
qed

text \<open>The last column of a row has no delimiter behind it: its end is searched past the end of the row.\<close>

lemma find_column_last:
  "\<forall>c \<in> set cs. COLUMN_DELIMITER \<notin> set c \<Longrightarrow> Suc i = length cs \<Longrightarrow> find_column i (row_text cs) = cs ! i"
proof (induction cs arbitrary: i rule: row_text.induct)
  case (3 c d cs)
  then obtain j where "i = Suc j" by (cases i) auto
  then show ?case using 3 find_column_skip [of c j "row_text (d # cs)"] by simp
qed simp_all

lemma get_user_column_value_last:
  assumes "\<forall>c \<in> set cs. COLUMN_DELIMITER \<notin> set c" "Suc (user_column_index column) = length cs"
  shows "get_user_column_value buf_len (row_text cs) column = Undefined"
proof -
  let ?v = "cs ! user_column_index column"
  have "?v \<in> set cs" using assms(2) by (intro nth_mem) simp
  then have "COLUMN_DELIMITER \<notin> set ?v" using assms(1) by blast
  then have "length (takeWhile (\<lambda>x. x \<noteq> COLUMN_DELIMITER) ?v) = length ?v"
    by (intro arg_cong [where f = length] takeWhile_eq_all_conv [THEN iffD2]) blast
  then show ?thesis by (simp add: get_user_column_value_def find_column_last [OF assms] Let_def)
qed

section \<open>Hashes as text\<close>

definition hex_text :: "string \<Rightarrow> string" where
  "hex_text h = concat (map byte_to_hex h)"

lemma md5_to_hex_text:
  assumes h: "length h = 16"
  shows "md5_to_hex h 33 = Done (Some (hex_text h))"
proof -
  have "map (\<lambda>i. byte_to_hex (h ! i)) [0..<16] = map byte_to_hex (map ((!) h) [0..<length h])"
    unfolding h by (simp only: map_map comp_def)
  then have e: "concat (map (\<lambda>i. byte_to_hex (h ! i)) [0..<16]) = hex_text h"
    by (simp only: map_nth hex_text_def)
  show ?thesis unfolding md5_to_hex_def e using h by simp
qed

lemma length_hex_text [simp]: "length (hex_text h) = 2 * length h"
  by (simp add: hex_text_def)

lemma unhex_text: "unhex (hex_text h) = h"
  using unhex_bytes [of h "[]"] by (simp only: hex_text_def append_Nil2 unhex.simps)

lemma hex_text_inj: "hex_text g = hex_text h \<longleftrightarrow> g = h"
  by (metis unhex_text)

lemma hex_digit_not_nul: "d < 16 \<Longrightarrow> hex_digit d \<noteq> NUL"
proof
  assume d: "d < 16" "hex_digit d = NUL"
  then have "(of_char (hex_digit d) :: nat) = 0" by simp
  with d(1) show False by (simp add: hex_digit_def split: if_splits)
qed

lemma nul_free_hex_text: "nul_free (hex_text h)"
proof -
  have "NUL \<notin> set (byte_to_hex c)" for c
    using hex_digit_not_nul [of "of_char c div 16"] hex_digit_not_nul [of "of_char c mod 16"]
    by (auto simp: byte_to_hex_digits dest: sym)
  then show ?thesis by (auto simp: hex_text_def)
qed

section \<open>The exchange\<close>

text \<open>
  A user whose row holds the hash of \<open>pw\<close> answers the challenge with the message made from \<open>pw'\<close>. The server reads
  the message and lets the user in exactly if the salted hashes agree, so always for the right password;
  otherwise it reports a bad password. The salt is four non-zero bytes.
\<close>

lemma password_exchange:
  fixes md5 :: "string \<Rightarrow> string"
  assumes md5: "\<And>s. length (md5 s) = 16"
    and user: "find (\<lambda>p. smp_name p = ''user'') (sm_parameters sm) = Some \<lparr>smp_name = ''user'', smp_value = u\<rparr>"
    and row: "ydb_get_s api db octo [''users'', u] max_str_const = YDB_OK (row_text cs)"
      "\<forall>c \<in> set cs. COLUMN_DELIMITER \<notin> set c" "11 < length cs" "cs ! 10 = ''md5'' @ hex_text (md5 (pw @ u))"
    and strings: "nul_free u" "nul_free pw'" "length (pw' @ u) < max_str_const" "40 \<le> max_str_const"
    and salt: "salt = s4 @ NUL # r" "length s4 = 4" "nul_free s4"
  shows "\<exists>m p. make_password_message md5 max_str_const u (Some pw') salt = Done (Some m) \<and> read_password_message m = Done p
    \<and> handle_password_message md5 api max_str_const db octo p sm salt =
        (if md5 (hex_text (md5 (pw' @ u)) @ s4) = md5 (hex_text (md5 (pw @ u)) @ s4) then Done ()
         else Failed (Stop_error (syntax_report (Authentication ERR_ROCTO_BAD_PASSWORD) [ArgS ''handle_password_message''])))"
proof -
  define sent where "sent = hex_text (md5 (hex_text (md5 (pw' @ u)) @ s4))"
  let ?m = "\<lparr>mtype = PSQL_PasswordMessage, mlength = htonl (4 + 36), mdata = ''md5'' @ sent @ [NUL]\<rparr>"
  have len: "length sent = 32" by (simp add: sent_def md5)
  have made: "make_password_message md5 max_str_const u (Some pw') salt = Done (Some ?m)"
    using strings salt md5 by (simp add: make_password_message_def md5_to_hex_text sent_def)
  have fr: "framed ?m" using len by (simp add: framed_def)
  let ?p = "\<lparr>pm_password = ''md5'' @ sent\<rparr>"
  have read: "read_password_message ?m = Done ?p"
    using password_reader.reader_iff [OF fr, of ?p] nul_free_hex_text by (simp add: password_image_def sent_def)
  define stored where "stored = hex_text (md5 (pw @ u))"
  have "get_user_column_value max_str_const (row_text cs) UserColumn_ROLPASSWORD = Done (''md5'' @ stored)"
    using get_user_column_value_row [OF row(2), of UserColumn_ROLPASSWORD] row(3,4) strings(4) nul_free_hex_text md5
    by (simp add: stored_def)
  moreover have "length stored = 32" "length u < max_str_const" using md5 strings(3) by (simp_all add: stored_def)
  ultimately have "handle_password_message md5 api max_str_const db octo ?p sm salt =
      (if hex_text (md5 (stored @ s4)) \<noteq> sent
       then Failed (Stop_error (syntax_report (Authentication ERR_ROCTO_BAD_PASSWORD) [ArgS ''handle_password_message'']))
       else Done ())"
    using user row(1) strings(4) salt md5_to_hex_text [OF md5, of "stored @ s4"]
    by (simp add: handle_password_message_def Let_def)
  moreover have "hex_text (md5 (stored @ s4)) \<noteq> sent
      \<longleftrightarrow> md5 (hex_text (md5 (pw' @ u)) @ s4) \<noteq> md5 (hex_text (md5 (pw @ u)) @ s4)"
    unfolding sent_def stored_def hex_text_inj by (rule arg_cong [where f = Not]) (rule eq_commute)
  ultimately have "handle_password_message md5 api max_str_const db octo ?p sm salt =
      (if md5 (hex_text (md5 (pw' @ u)) @ s4) = md5 (hex_text (md5 (pw @ u)) @ s4) then Done ()
       else Failed (Stop_error (syntax_report (Authentication ERR_ROCTO_BAD_PASSWORD) [ArgS ''handle_password_message''])))"
    by (cases "hex_text (md5 (stored @ s4)) = sent") simp_all
  with made read show ?thesis by (intro exI conjI)
qed

end
