(* ===== verification/Plan_Types.thy ===== *)
theory Plan_Types
  imports Octo_Prelude "HOL-Library.Monad_Syntax"
begin

text \<open>
  The data of the logical planner: the parts of \<open>src/src/octo_types.h\<close> that plans refer to and the types
  of \<open>optimization_transforms/logical_plan.h\<close>. A pointer to a plan node is a value of \<open>LogicalPlan\<close>, with
  \<open>NullPlan\<close> for the null pointer; the union of a node is one constructor per member. Keys are changed in
  place while several nodes point to them, so a node holds the number of its key in a key store.
\<close>

section \<open>The SQL objects that plans refer to\<close>

datatype SqlDataType =
  UNKNOWN_SqlDataType | CHARACTER_STRING_TYPE | INTEGER_TYPE | DATE_TIME_TYPE | INTERVAL_TYPE

datatype SqlValueType =
    UNKNOWN_SqlValueType | NUMBER_LITERAL | STRING_LITERAL | DATE_TIME | COLUMN_REFERENCE
  | CALCULATED_VALUE | TEMPORARY_TABLE_TYPE | FUNCTION_NAME | BOOLEAN_VALUE | PARAMETER_VALUE
  | NUL_VALUE | COERCE_TYPE | INVALID_SqlValueType

datatype (plugins only: code size) OptionalKeyword =
    NO_KEYWORD | OPTIONAL_SOURCE | OPTIONAL_CURSE | OPTIONAL_END | OPTIONAL_START | OPTIONAL_DELIM
  | OPTIONAL_EXTRACT | OPTIONAL_CASCADE | OPTIONAL_RESTRICT | OPTIONAL_PIECE | OPTIONAL_KEY_NUM
  | OPTIONAL_ADVANCE | OPTIONAL_LIMIT | OPTIONAL_DISTINCT | OPTIONAL_POPULATE_INDEX
  | OPTIONAL_PART_OF_EXPANSION | UNKNOWN_SqlConstraintType | NOT_NULL | UNIQUE_CONSTRAINT | PRIMARY_KEY
  | REFERENCES | CHECK_CONSTRAINT | MAX_LENGTH

text \<open>
  Circular lists (theory \<open>Double_List\<close>) are HOL lists from the element the pointer names. A keyword is
  the keyword and the text of its value; a null name is \<open>None\<close>.
\<close>

record SqlColumn =
  columnName :: string
  sc_type :: SqlDataType
  sc_keywords :: "(OptionalKeyword \<times> string) list"

record SqlTable =
  tableName :: string
  st_source :: "string option"
  st_columns :: "SqlColumn list"
  st_delim :: "string option"

text \<open>A table alias names a table or a nested select, of which plans only use the alias.\<close>

datatype alias_target = Table_of SqlTable | Select_of

record SqlTableAlias =
  ta_table :: alias_target
  ta_alias :: string
  ta_unique_id :: int
  ta_column_names :: "string list"

text \<open>
  A column alias names a column of a table or an entry of a select list, which has a name of its own
  and, in its column list, a further column alias or some other value.
\<close>

datatype SqlColumnAlias = ColumnAlias alias_column SqlTableAlias
and alias_column = Column_of SqlColumn | List_entry string "SqlColumnAlias option"

primrec ca_column :: "SqlColumnAlias \<Rightarrow> alias_column" where
  "ca_column (ColumnAlias c t) = c"

primrec ca_table_alias :: "SqlColumnAlias \<Rightarrow> SqlTableAlias" where
  "ca_table_alias (ColumnAlias c t) = t"

record SqlValue =
  sv_type :: SqlValueType
  sv_text :: string

record SqlColumnListAlias =
  cla_alias :: string
  cla_type :: SqlValueType

section \<open>Plan nodes\<close>

datatype (plugins only: code size) LPActionType =
    LP_INSERT | LP_SET_OPERATION | LP_TABLE | LP_TABLE_JOIN | LP_OUTER_JOIN | LP_COLUMN_LIST
    | LP_COLUMN_ALIAS | LP_COLUMN_LIST_ALIAS | LP_DERIVED_COLUMN | LP_PIECE_NUMBER | LP_VALUE
    | LP_PROJECT | LP_SELECT | LP_SELECT_OPTIONS | LP_KEYWORDS | LP_WHERE | LP_CRITERIA | LP_OUTPUT
    | LP_KEYS | LP_KEY | LP_KEY_FIX | LP_KEY_ADVANCE | LP_SET_UNION | LP_SET_UNION_ALL
    | LP_SET_EXCEPT | LP_SET_EXCEPT_ALL | LP_SET_INTERSECT | LP_SET_INTERSECT_ALL | LP_PLANS
    | LP_SET_OPTION | LP_FUNCTION_CALL | LP_CASE | LP_CASE_STATEMENT | LP_CASE_BRANCH
    | LP_CASE_BRANCH_STATEMENT | LP_ADDITION | LP_SUBTRACTION | LP_DIVISION | LP_MULTIPLICATION
    | LP_CONCAT | LP_BOOLEAN_OR | LP_BOOLEAN_AND | LP_BOOLEAN_IS | LP_BOOLEAN_EQUALS
    | LP_BOOLEAN_NOT_EQUALS | LP_BOOLEAN_LESS_THAN | LP_BOOLEAN_GREATER_THAN
    | LP_BOOLEAN_LESS_THAN_OR_EQUALS | LP_BOOLEAN_GREATER_THAN_OR_EQUALS
    | LP_BOOLEAN_REGEX_SENSITIVE | LP_BOOLEAN_REGEX_INSENSITIVE | LP_BOOLEAN_IN | LP_BOOLEAN_NOT_IN
    | LP_FORCE_NUM | LP_NEGATIVE | LP_BOOLEAN_NOT | LP_INVALID_ACTION

text \<open>The position in the enumeration, which the sources compare and add to.\<close>

primrec action_index :: "LPActionType \<Rightarrow> nat" where
  "action_index LP_INSERT = 0"
| "action_index LP_SET_OPERATION = 1"
| "action_index LP_TABLE = 2"
| "action_index LP_TABLE_JOIN = 3"
| "action_index LP_OUTER_JOIN = 4"
| "action_index LP_COLUMN_LIST = 5"
| "action_index LP_COLUMN_ALIAS = 6"
| "action_index LP_COLUMN_LIST_ALIAS = 7"
| "action_index LP_DERIVED_COLUMN = 8"
| "action_index LP_PIECE_NUMBER = 9"
| "action_index LP_VALUE = 10"
| "action_index LP_PROJECT = 11"
| "action_index LP_SELECT = 12"
| "action_index LP_SELECT_OPTIONS = 13"
| "action_index LP_KEYWORDS = 14"
| "action_index LP_WHERE = 15"
| "action_index LP_CRITERIA = 16"
| "action_index LP_OUTPUT = 17"
| "action_index LP_KEYS = 18"
| "action_index LP_KEY = 19"
| "action_index LP_KEY_FIX = 20"
| "action_index LP_KEY_ADVANCE = 21"
| "action_index LP_SET_UNION = 22"
| "action_index LP_SET_UNION_ALL = 23"
| "action_index LP_SET_EXCEPT = 24"
| "action_index LP_SET_EXCEPT_ALL = 25"
| "action_index LP_SET_INTERSECT = 26"
| "action_index LP_SET_INTERSECT_ALL = 27"
| "action_index LP_PLANS = 28"
| "action_index LP_SET_OPTION = 29"
| "action_index LP_FUNCTION_CALL = 30"
| "action_index LP_CASE = 31"
| "action_index LP_CASE_STATEMENT = 32"
| "action_index LP_CASE_BRANCH = 33"
| "action_index LP_CASE_BRANCH_STATEMENT = 34"
| "action_index LP_ADDITION = 35"
| "action_index LP_SUBTRACTION = 36"
| "action_index LP_DIVISION = 37"
| "action_index LP_MULTIPLICATION = 38"
| "action_index LP_CONCAT = 39"
| "action_index LP_BOOLEAN_OR = 40"
| "action_index LP_BOOLEAN_AND = 41"
| "action_index LP_BOOLEAN_IS = 42"
| "action_index LP_BOOLEAN_EQUALS = 43"
| "action_index LP_BOOLEAN_NOT_EQUALS = 44"
| "action_index LP_BOOLEAN_LESS_THAN = 45"
| "action_index LP_BOOLEAN_GREATER_THAN = 46"
| "action_index LP_BOOLEAN_LESS_THAN_OR_EQUALS = 47"
| "action_index LP_BOOLEAN_GREATER_THAN_OR_EQUALS = 48"
| "action_index LP_BOOLEAN_REGEX_SENSITIVE = 49"
| "action_index LP_BOOLEAN_REGEX_INSENSITIVE = 50"
| "action_index LP_BOOLEAN_IN = 51"
| "action_index LP_BOOLEAN_NOT_IN = 52"
| "action_index LP_FORCE_NUM = 53"
| "action_index LP_NEGATIVE = 54"
| "action_index LP_BOOLEAN_NOT = 55"
| "action_index LP_INVALID_ACTION = 56"

datatype LogicalPlan =
    NullPlan
  | Node LPActionType LogicalPlan LogicalPlan
  | ColumnAliasNode SqlColumnAlias
  | ColumnListAliasNode SqlColumnListAlias
  | ValueNode SqlValue
  | TableNode SqlTableAlias
  | KeyNode nat
  | KeywordsNode "(OptionalKeyword \<times> string) list"
  | PieceNode int

primrec lp_type :: "LogicalPlan \<Rightarrow> LPActionType option" where
  "lp_type NullPlan = None"
| "lp_type (Node t a b) = Some t"
| "lp_type (ColumnAliasNode c) = Some LP_COLUMN_ALIAS"
| "lp_type (ColumnListAliasNode c) = Some LP_COLUMN_LIST_ALIAS"
| "lp_type (ValueNode v) = Some LP_VALUE"
| "lp_type (TableNode t) = Some LP_TABLE"
| "lp_type (KeyNode k) = Some LP_KEY"
| "lp_type (KeywordsNode ks) = Some LP_KEYWORDS"
| "lp_type (PieceNode i) = Some LP_PIECE_NUMBER"

text \<open>A node that \<open>MALLOC_LP\<close> has just made.\<close>

abbreviation new_node :: "LPActionType \<Rightarrow> LogicalPlan" where
  "new_node t \<equiv> Node t NullPlan NullPlan"

record SqlKey =
  key_table :: "SqlTable option"
  key_column :: "SqlColumn option"
  key_num :: int
  key_unique_id :: int
  key_value :: LogicalPlan
  key_type :: LPActionType
  key_owner :: LogicalPlan
  is_cross_reference_key :: bool
  cross_reference_output_key :: "nat option"
  cross_reference_column_alias :: "SqlColumnAlias option"

text \<open>
  A key that \<open>memset\<close> has cleared. The zero of the enumeration \<open>LPActionType\<close> is \<open>LP_INSERT\<close>.
\<close>

definition cleared_key :: SqlKey where
  "cleared_key = \<lparr>key_table = None, key_column = None, key_num = 0, key_unique_id = 0, key_value = NullPlan,
     key_type = LP_INSERT, key_owner = NullPlan, is_cross_reference_key = False,
     cross_reference_output_key = None, cross_reference_column_alias = None\<rparr>"

text \<open>
  What the plan functions change besides the tree: the key store, in allocation order, and the counter
  that every plan of a query points to. \<open>overrun\<close> records that a write went past the end of an array, into
  memory of the arena that has not been handed out yet.
\<close>

record plan_state =
  key_store :: "SqlKey list"
  counter :: int
  overrun :: bool

definition get_plan_unique_number :: "plan_state \<Rightarrow> int \<times> plan_state" where
  "get_plan_unique_number st = (counter st, st\<lparr>counter := counter st + 1\<rparr>)"

definition new_key :: "SqlKey \<Rightarrow> plan_state \<Rightarrow> nat \<times> plan_state" where
  "new_key k st = (length (key_store st), st\<lparr>key_store := key_store st @ [k]\<rparr>)"

definition lookup_key :: "plan_state \<Rightarrow> nat \<Rightarrow> SqlKey option" where
  "lookup_key st r = (if r < length (key_store st) then Some (key_store st ! r) else None)"

definition update_key :: "nat \<Rightarrow> (SqlKey \<Rightarrow> SqlKey) \<Rightarrow> plan_state \<Rightarrow> plan_state" where
  "update_key r f st = st\<lparr>key_store := (key_store st)[r := f (key_store st ! r)]\<rparr>"

lemma lookup_new_key [simp]:
  "lookup_key (snd (new_key k st)) r = (if r = length (key_store st) then Some k else lookup_key st r)"
  by (auto simp: lookup_key_def new_key_def nth_append)

lemma lookup_update_key [simp]:
  "lookup_key (update_key r f st) s = (if r = s then map_option f (lookup_key st s) else lookup_key st s)"
  by (auto simp: lookup_key_def update_key_def)

section \<open>Reading a plan\<close>

text \<open>
  The operands of a node; a null pointer or a node whose union holds something else has none, and using
  it would be undefined. \<open>GET_LP\<close> also asserts the type of the operand it fetches. \<open>None\<close> stands for a
  failed assertion or an undefined access throughout the planner.
\<close>

fun operand :: "LogicalPlan \<Rightarrow> nat \<Rightarrow> LogicalPlan option" where
  "operand (Node t a b) side = (if side = 0 then Some a else if side = 1 then Some b else None)"
| "operand _ side = None"

definition get_lp :: "LogicalPlan \<Rightarrow> nat \<Rightarrow> LPActionType \<Rightarrow> LogicalPlan option" where
  "get_lp source side t =
     Option.bind (operand source side) (\<lambda>p. if lp_type p = Some t then Some p else None)"

lemma get_lp_Node [simp]:
  "get_lp (Node t a b) 0 s = (if lp_type a = Some s then Some a else None)"
  "get_lp (Node t a b) (Suc 0) s = (if lp_type b = Some s then Some b else None)"
  by (simp_all add: get_lp_def)

text \<open>Changing an operand in place, through a pointer that \<open>GET_LP\<close> fetched.\<close>

fun set_operand :: "LogicalPlan \<Rightarrow> nat \<Rightarrow> LogicalPlan \<Rightarrow> LogicalPlan option" where
  "set_operand (Node t a b) side p =
     (if side = 0 then Some (Node t p b) else if side = 1 then Some (Node t a p) else None)"
| "set_operand _ side p = None"

definition change_lp ::
  "LogicalPlan \<Rightarrow> nat \<Rightarrow> LPActionType \<Rightarrow> (LogicalPlan \<Rightarrow> LogicalPlan option) \<Rightarrow> LogicalPlan option" where
  "change_lp source side t f =
     do { p \<leftarrow> get_lp source side t; q \<leftarrow> f p; set_operand source side q }"

lemma lp_type_Some_iff: "lp_type p \<noteq> None \<longleftrightarrow> p \<noteq> NullPlan"
  by (cases p) auto

lemma lp_type_None_iff [simp]: "lp_type p = None \<longleftrightarrow> p = NullPlan"
  by (cases p) auto

lemma get_lp_SomeD:
  "get_lp p side t = Some q \<Longrightarrow> operand p side = Some q \<and> lp_type q = Some t"
  by (auto simp: get_lp_def split: Option.bind_splits if_splits)

end
