(* ===== verification/Rocto_Session.thy ===== *)
theory Rocto_Session
  imports Password_Check Plan_Types
begin

text \<open>
  The state of a session of \<open>rocto\<close> and the effects its handlers are made of. A handler is a function from a
  session to a result and the session afterwards; \<open>Failed\<close> ends the process, with the session as it was then.
  The network gives the received bytes as events and, for every call of \<open>send_message\<close>, what the socket or the
  TLS library did; the bytes that went out are collected in \<open>s_wire\<close>. \<open>s_tables\<close> is the memory of the tables that were
  loaded, a pointer to one of them being its place there. \<open>octo_log\<close> is the logging function of
  \<open>errors.c\<close>, which also tells the client. What it writes to the standard error stream is left out, as are the
  allocations of the handlers.
\<close>

section \<open>Configuration and session\<close>

text \<open>
  The constants of a server: the database interface, the sizes of its buffers, the names of its globals and its
  settings. \<open>fresh_memory\<close> is what an allocation holds before it is written, \<open>query_bound\<close> a bound on the queries in
  one message.
\<close>

datatype ERROR_LEVEL = TRACE | INFO | DEBUG | WARNING | ERROR | FATAL

primrec level_index :: "ERROR_LEVEL \<Rightarrow> nat" where
  "level_index TRACE = 0"
| "level_index INFO = 1"
| "level_index DEBUG = 2"
| "level_index WARNING = 3"
| "level_index ERROR = 4"
| "level_index FATAL = 5"

record 'db octo_config =
  c_api :: "'db ydb"
  MAX_STR_CONST :: nat
  record_error_level :: ERROR_LEVEL
  gn_octo :: string
  gn_session :: string
  gn_schema :: string
  gn_cursor :: string
  cur_input_max :: int
  dry_run :: bool
  auto_clean_tables :: bool
  tmp_dir :: string
  fresh_memory :: string
  query_bound :: nat

text \<open>One call of \<open>send_message\<close>: the events of a plain socket, or the result and error number of the TLS library.\<close>

type_synonym send_call = "send_event list \<times> int \<times> errno option"

record 'db RoctoSession =
  sending_message :: bool
  session_id :: string
  ssl_active :: bool
  s_db :: 'db
  s_in :: "net_event list"
  s_sends :: "send_call list"
  s_wire :: string
  input_buffer_combined :: string
  cur_input_index :: nat
  eof_hit :: bool
  err_buffer :: string
  s_tables :: "SqlTable list"

type_synonym ('db, 'a) act = "'db RoctoSession \<Rightarrow> (stop \<times> 'db RoctoSession, 'a \<times> 'db RoctoSession) outcome"

definition ret :: "'a \<Rightarrow> ('db, 'a) act" where
  "ret x s = Done (x, s)"

definition seq :: "('db, 'a) act \<Rightarrow> ('a \<Rightarrow> ('db, 'b) act) \<Rightarrow> ('db, 'b) act" where
  "seq m f s = and_then (m s) (\<lambda>(x, s'). f x s')"

definition gets :: "('db RoctoSession \<Rightarrow> 'a) \<Rightarrow> ('db, 'a) act" where
  "gets f s = Done (f s, s)"

definition change :: "('db RoctoSession \<Rightarrow> 'db RoctoSession) \<Rightarrow> ('db, unit) act" where
  "change f s = Done ((), f s)"

fun defined :: "(unit, 'a) outcome \<Rightarrow> ('db, 'a) act" where
  "defined Undefined s = Undefined"
| "defined (Failed u) s = Undefined"
| "defined (Done x) s = Done (x, s)"

lemma seq_simps [simp]:
  "seq (ret x) f = f x"
  "seq (change g) f s = f () (g s)"
  "seq (gets h) f s = f (h s) s"
  "seq (defined (Done x)) f = f x"
  by (simp_all add: seq_def ret_def change_def gets_def fun_eq_iff)

lemmas act_defs = seq_def ret_def change_def gets_def

section \<open>Sending\<close>

text \<open>The bytes of a message go out through \<open>send_bytes\<close>.\<close>

definition deliver :: "BaseMessage \<Rightarrow> ('db, int) act" where
  "deliver m s =
     (case s_sends s of
        [] \<Rightarrow> Failed (Stop_blocked, s)
      | (evs, result, tls_errno) # calls \<Rightarrow>
          let after = \<lambda>bs. s\<lparr>s_wire := s_wire s @ bs, s_sends := calls\<rparr> in
          case (if ssl_active s then Done (tls_send_bytes result tls_errno (wire_image m)) else send_message evs m) of
            Undefined \<Rightarrow> Undefined
          | Failed u \<Rightarrow> Undefined
          | Done (Send_status c bs) \<Rightarrow> Done (c, after bs)
          | Done (Send_fatal e bs) \<Rightarrow> Failed (Stop_fatal e, after bs)
          | Done (Send_blocked bs) \<Rightarrow> Failed (Stop_blocked, after bs))"

section \<open>Logging\<close>

definition log_severity :: "ERROR_LEVEL \<Rightarrow> PSQL_ErrorSeverity" where
  "log_severity level =
     (case level of TRACE \<Rightarrow> PSQL_Error_INFO | INFO \<Rightarrow> PSQL_Error_INFO | DEBUG \<Rightarrow> PSQL_Error_DEBUG
      | WARNING \<Rightarrow> PSQL_Error_WARNING | ERROR \<Rightarrow> PSQL_Error_ERROR | FATAL \<Rightarrow> PSQL_Error_FATAL)"

definition log_text :: "octo_error \<Rightarrow> fmt_arg list \<Rightarrow> string option" where
  "log_text error args =
     (if error = CUSTOM_ERROR then
        (case args of ArgS format # rest \<Rightarrow> vformat format rest | _ \<Rightarrow> None)
      else vformat (err_format_str error) args)"

text \<open>
  The macros test the level before the call. A session always has a connection. While the message is sent,
  \<open>sending_message\<close> is set, so that nothing that is logged meanwhile is sent too.
\<close>

definition octo_log :: "'db octo_config \<Rightarrow> ERROR_LEVEL \<Rightarrow> octo_error \<Rightarrow> fmt_arg list \<Rightarrow> ('db, unit) act" where
  "octo_log cfg level error args =
     (if level_index level < level_index (record_error_level cfg) then ret ()
      else
        seq (gets sending_message) (\<lambda>sending.
        seq (if sending then ret ()
             else case log_text error args of
                    None \<Rightarrow> (\<lambda>s. Undefined)
                  | Some message \<Rightarrow>
                      seq (change (\<lambda>s. s\<lparr>sending_message := True\<rparr>)) (\<lambda>_.
                      seq (defined (make_error_response (log_severity level) (err_code_map error) (take (MAX_STR_CONST cfg - 1) message) [])) (\<lambda>err.
                      seq (deliver (BaseMessage.truncate err)) (\<lambda>_.
                      change (\<lambda>s. s\<lparr>sending_message := False\<rparr>))))) (\<lambda>_.
        if level = FATAL then (\<lambda>s. Failed (Stop_fatal error, s)) else ret ())))"

text \<open>
  \<open>send_message\<close> logs that it is entered and what it sends, which the logging itself, with \<open>sending_message\<close> set, does not
  send.
\<close>

definition session_send :: "'db octo_config \<Rightarrow> BaseMessage \<Rightarrow> ('db, int) act" where
  "session_send cfg m =
     seq (octo_log cfg TRACE (Trace ERR_ENTERING_FUNCTION) [ArgS ''send_message'']) (\<lambda>_.
     seq (octo_log cfg TRACE (Trace ERR_SEND_MESSAGE) [ArgC (mtype m), ArgD (ntohl (mlength m))]) (\<lambda>_. deliver m))"

definition send_error :: "'db octo_config \<Rightarrow> PSQL_ErrorSeverity \<Rightarrow> PSQL_SQLSTATECode \<Rightarrow> string \<Rightarrow> ('db, int) act" where
  "send_error cfg severity code message =
     seq (defined (make_error_response severity code message [])) (\<lambda>err. session_send cfg (BaseMessage.truncate err))"

section \<open>Database calls\<close>

text \<open>
  \<open>YDB_ERROR_CHECK\<close>: the text of \<open>$ZSTATUS\<close> goes to the log, which ends the process; a text that cannot be read is
  empty, and one that fills the buffer has its end written past it.
\<close>

definition ydb_check :: "'db octo_config \<Rightarrow> 'a ydb_status \<Rightarrow> ('db, 'a) act" where
  "ydb_check cfg status =
     (case status of
        YDB_OK x \<Rightarrow> ret x
      | _ \<Rightarrow> seq (gets s_db) (\<lambda>db.
          let msg = (case ydb_get_s (c_api cfg) db ''$ZSTATUS'' [] (MAX_STR_CONST cfg) of YDB_OK m \<Rightarrow> m | _ \<Rightarrow> []) in
          if MAX_STR_CONST cfg \<le> length msg then (\<lambda>s. Undefined)
          else seq (octo_log cfg FATAL (Internal ERR_YOTTADB) [ArgS msg]) (\<lambda>_ s. Undefined)))"

definition db_get :: "'db octo_config \<Rightarrow> string \<Rightarrow> string list \<Rightarrow> nat \<Rightarrow> ('db, string ydb_status) act" where
  "db_get cfg global subs n = seq (gets s_db) (\<lambda>db. ret (ydb_get_s (c_api cfg) db global subs n))"

definition db_set :: "'db octo_config \<Rightarrow> string \<Rightarrow> string list \<Rightarrow> string \<Rightarrow> ('db, unit) act" where
  "db_set cfg global subs v =
     seq (gets s_db) (\<lambda>db.
     seq (ydb_check cfg (ydb_set_s (c_api cfg) db global subs v)) (\<lambda>db'. change (\<lambda>s. s\<lparr>s_db := db'\<rparr>)))"

definition db_incr :: "'db octo_config \<Rightarrow> string \<Rightarrow> string list \<Rightarrow> ('db, string) act" where
  "db_incr cfg global subs =
     seq (gets s_db) (\<lambda>db.
     seq (ydb_check cfg (ydb_incr_s (c_api cfg) db global subs)) (\<lambda>(v, db').
     seq (change (\<lambda>s. s\<lparr>s_db := db'\<rparr>)) (\<lambda>_. ret v)))"

definition db_delete :: "'db octo_config \<Rightarrow> string \<Rightarrow> string list \<Rightarrow> ('db, unit) act" where
  "db_delete cfg global subs =
     seq (gets s_db) (\<lambda>db.
     seq (ydb_check cfg (ydb_delete_s (c_api cfg) db global subs)) (\<lambda>db'. change (\<lambda>s. s\<lparr>s_db := db'\<rparr>)))"

text \<open>
  The subscripts of a node are visited one after the other. The counters are \<open>int\<close>s, which must not overflow.
\<close>

definition next_subscript :: "'db octo_config \<Rightarrow> string \<Rightarrow> string list \<Rightarrow> ('db, string option) act" where
  "next_subscript cfg global subs =
     seq (gets s_db) (\<lambda>db.
       let status = ydb_subscript_next_s (c_api cfg) db global subs in
       if status = YDB_ERR_NODEEND then ret None else seq (ydb_check cfg status) (\<lambda>v. ret (Some v)))"

abbreviation INT_MAX :: nat where
  "INT_MAX \<equiv> 2 ^ 31 - 1"

function count_subscripts :: "'db octo_config \<Rightarrow> string \<Rightarrow> string list \<Rightarrow> string \<Rightarrow> nat \<Rightarrow> ('db, nat) act" where
  "count_subscripts cfg global subs x n =
     seq (next_subscript cfg global (subs @ [x])) (\<lambda>r.
       case r of
         None \<Rightarrow> ret n
       | Some y \<Rightarrow> if INT_MAX \<le> n then (\<lambda>s. Undefined) else count_subscripts cfg global subs y (n + 1))"
  by pat_completeness auto
termination
  by (relation "measure (\<lambda>(cfg, global, subs, x, n). INT_MAX - n)") auto

declare count_subscripts.simps [simp del]

text \<open>\<open>get\<close> of \<open>helpers/get.c\<close> and \<open>set\<close> of \<open>helpers/set.c\<close> in a session.\<close>

definition session_get :: "'db octo_config \<Rightarrow> string \<Rightarrow> string list \<Rightarrow> ('db, string option) act" where
  "session_get cfg global args =
     seq (db_get cfg (cstr global) (map cstr args) (MAX_STR_CONST cfg)) (\<lambda>status.
       if status = YDB_ERR_GVUNDEF \<or> status = YDB_ERR_LVUNDEF then ret None
       else seq (ydb_check cfg status) (\<lambda>v. ret (Some v)))"

definition session_set :: "'db octo_config \<Rightarrow> string \<Rightarrow> string \<Rightarrow> string list \<Rightarrow> ('db, unit) act" where
  "session_set cfg new_value global args =
     (let v = cstr new_value in
      db_set cfg (cstr global) (map cstr args) (if length v \<le> MAX_STR_CONST cfg then v else []))"

section \<open>Sessions that answer\<close>

text \<open>
  The session after some messages went out, and a connection that takes at least \<open>n\<close> of them. A quiet server
  logs nothing below warnings.
\<close>

definition sent :: "BaseMessage list \<Rightarrow> 'db RoctoSession \<Rightarrow> 'db RoctoSession" where
  "sent ms s = s\<lparr>s_wire := s_wire s @ concat (map wire_image ms), s_sends := drop (length ms) (s_sends s)\<rparr>"

definition willing :: "nat \<Rightarrow> 'db RoctoSession \<Rightarrow> bool" where
  "willing n s \<longleftrightarrow> \<not> ssl_active s \<and> n \<le> length (s_sends s) \<and> (\<forall>(evs, r, e) \<in> set (s_sends s). 2 ^ 31 \<le> acceptance evs)"

definition quiet :: "'db octo_config \<Rightarrow> bool" where
  "quiet cfg \<longleftrightarrow> level_index INFO < level_index (record_error_level cfg)"

lemma sent_Nil [simp]: "sent [] s = s"
  by (simp add: sent_def)

lemma sent_sent [simp]: "sent ns (sent ms s) = sent (ms @ ns) s"
  by (simp add: sent_def add.commute)

lemma sent_fields [simp]:
  "sending_message (sent ms s) = sending_message s" "session_id (sent ms s) = session_id s"
  "ssl_active (sent ms s) = ssl_active s" "s_db (sent ms s) = s_db s" "s_in (sent ms s) = s_in s"
  "eof_hit (sent ms s) = eof_hit s" "cur_input_index (sent ms s) = cur_input_index s"
  "input_buffer_combined (sent ms s) = input_buffer_combined s" "err_buffer (sent ms s) = err_buffer s"
  "s_tables (sent ms s) = s_tables s"
  "(sent ms s)\<lparr>s_db := db\<rparr> = sent ms (s\<lparr>s_db := db\<rparr>)"
  by (simp_all add: sent_def)

lemma willing_sent: "willing (length ms + n) s \<Longrightarrow> willing n (sent ms s)"
  by (auto simp: willing_def sent_def dest: in_set_dropD)

lemma willing_update [simp]:
  "willing n (s\<lparr>s_db := db\<rparr>) = willing n s" "willing n (s\<lparr>sending_message := b\<rparr>) = willing n s"
  "willing n (s\<lparr>s_in := evs\<rparr>) = willing n s"
  by (simp_all add: willing_def)

lemma willing_mono: "willing n s \<Longrightarrow> m \<le> n \<Longrightarrow> willing m s"
  by (simp add: willing_def)

lemma deliver_sent:
  assumes "willing (Suc n) s" "framed m" "length (wire_image m) < 2 ^ 31"
  shows "deliver m s = Done (0, sent [m] s)"
proof -
  obtain evs r e calls where c: "s_sends s = (evs, r, e) # calls" "\<not> ssl_active s" "2 ^ 31 \<le> acceptance evs"
    using assms(1) by (cases "s_sends s") (auto simp: willing_def)
  have "send_message evs m = Done (Send_status 0 (wire_image m))"
    using send_message_bytes [OF assms(2,3)] send_loop_complete [of "wire_image m" evs] c(3) assms(3) by simp
  then show ?thesis using c by (simp add: deliver_def sent_def)
qed

lemma octo_log_quiet:
  "quiet cfg \<Longrightarrow> octo_log cfg TRACE e args s = Done ((), s)"
  "quiet cfg \<Longrightarrow> octo_log cfg INFO e args s = Done ((), s)"
  by (simp_all add: octo_log_def quiet_def ret_def)

lemma session_send_sent:
  assumes "quiet cfg" "willing (Suc n) s" "framed m" "length (wire_image m) < 2 ^ 31"
  shows "session_send cfg m s = Done (0, sent [m] s)"
  using deliver_sent [OF assms(2-4)] by (simp add: session_send_def seq_def octo_log_quiet [OF assms(1)])

lemma db_set_ok:
  "ydb_set_s (c_api cfg) (s_db s) g subs v = YDB_OK db \<Longrightarrow> db_set cfg g subs v s = Done ((), s\<lparr>s_db := db\<rparr>)"
  by (simp add: db_set_def ydb_check_def act_defs)

lemma ydb_check_ok [simp]: "ydb_check cfg (YDB_OK x) = ret x"
  by (simp add: ydb_check_def)

text \<open>Calls of a database that does not fail, and the loops over subscripts.\<close>

lemma db_set_works:
  assumes "ydb_works (c_api cfg)"
  obtains db where "ydb_set_s (c_api cfg) (s_db s) g subs v = YDB_OK db" "db_set cfg g subs v s = Done ((), s\<lparr>s_db := db\<rparr>)"
  using assms unfolding ydb_works_def by (metis db_set_ok)

lemma db_incr_works:
  assumes "ydb_works (c_api cfg)"
  obtains v db where "ydb_incr_s (c_api cfg) (s_db s) g subs = YDB_OK (v, db)" "db_incr cfg g subs s = Done (v, s\<lparr>s_db := db\<rparr>)"
proof -
  obtain v db where "ydb_incr_s (c_api cfg) (s_db s) g subs = YDB_OK (v, db)" using assms unfolding ydb_works_def by blast
  then show thesis using that by (simp add: db_incr_def act_defs)
qed

lemma db_delete_works:
  assumes "ydb_works (c_api cfg)"
  obtains db where "ydb_delete_s (c_api cfg) (s_db s) g subs = YDB_OK db" "db_delete cfg g subs s = Done ((), s\<lparr>s_db := db\<rparr>)"
proof -
  obtain db where "ydb_delete_s (c_api cfg) (s_db s) g subs = YDB_OK db" using assms unfolding ydb_works_def by blast
  then show thesis using that by (simp add: db_delete_def act_defs)
qed

lemma next_subscript_visits:
  "visits (c_api cfg) (s_db s) g subs x ys \<Longrightarrow>
    next_subscript cfg g (subs @ [x]) s = Done (case ys of [] \<Rightarrow> None | y # zs \<Rightarrow> Some y, s)"
  by (cases ys) (simp_all add: next_subscript_def act_defs)

lemma count_subscripts_visits:
  "visits (c_api cfg) (s_db s) g subs x ys \<Longrightarrow> n + length ys < 2 ^ 31 \<Longrightarrow>
    count_subscripts cfg g subs x n s = Done (n + length ys, s)"
proof (induction ys arbitrary: x n)
  case Nil
  then show ?case by (subst count_subscripts.simps) (simp add: act_defs next_subscript_visits [OF Nil(1)])
next
  case (Cons y ys)
  then have "count_subscripts cfg g subs y (Suc n) s = Done (Suc n + length ys, s)" by simp
  with Cons.prems show ?case
    by (subst count_subscripts.simps) (simp add: act_defs next_subscript_visits [OF Cons.prems(1)])
qed

lemma session_get_value:
  "ydb_get_s (c_api cfg) (s_db s) (cstr g) (map cstr subs) (MAX_STR_CONST cfg) = YDB_OK v \<Longrightarrow>
    session_get cfg g subs s = Done (Some v, s)"
  by (simp add: session_get_def db_get_def act_defs)

lemma session_get_undefined:
  "ydb_get_s (c_api cfg) (s_db s) (cstr g) (map cstr subs) (MAX_STR_CONST cfg) \<in> {YDB_ERR_GVUNDEF, YDB_ERR_LVUNDEF} \<Longrightarrow>
    session_get cfg g subs s = Done (None, s)"
  by (auto simp: session_get_def db_get_def act_defs)

section \<open>A concrete server\<close>

text \<open>For the witnesses: a server on the concrete database, and a session with what the network does.\<close>

definition sample_config :: "tree octo_config" where
  "sample_config =
     \<lparr>c_api = tree_api, MAX_STR_CONST = 200, record_error_level = WARNING, gn_octo = ''^octo'', gn_session = ''^session'',
      gn_schema = ''^schema'', gn_cursor = ''^cursor'', cur_input_max = 200, dry_run = False, auto_clean_tables = False,
      tmp_dir = ''/tmp'', fresh_memory = [NUL], query_bound = 5\<rparr>"

definition sample_session :: "net_event list \<Rightarrow> send_call list \<Rightarrow> tree \<Rightarrow> tree RoctoSession" where
  "sample_session evs calls db =
     \<lparr>sending_message = False, session_id = ''1'', ssl_active = False, s_db = db, s_in = evs, s_sends = calls, s_wire = [],
      input_buffer_combined = [], cur_input_index = 0, eof_hit = False, err_buffer = [], s_tables = []\<rparr>"

lemma sample_config_laws: "ydb_laws (c_api sample_config)" "ydb_works (c_api sample_config)" "quiet sample_config"
  by (simp_all add: sample_config_def tree_api_laws tree_api_works quiet_def)

end
