(* ===== verification/M_Text.thy ===== *)
theory M_Text
  imports Octo_Prelude
begin

text \<open>
  Functions on texts: the quoting of M strings (\<open>quoting.c\<close>, \<open>m_escape_string2.c\<close>), the translation of a \<open>LIKE\<close>
  pattern (\<open>regex_to_like.c\<close>), the report of a syntax error (\<open>yyerror.c\<close>) and the names of generated routines
  (\<open>ydb_hash_to_string.c\<close>, \<open>generate_routine_name.c\<close>). \<open>Undefined\<close> is a write outside the memory of the result or a
  failed assertion.
\<close>

section \<open>Quoting\<close>

abbreviation QUOTE :: char where
  "QUOTE \<equiv> CHR 0x22"

text \<open>
  The loop writes at most two bytes for each byte it reads, and \<open>2 * len\<close> bytes were allocated; only the zero byte
  at the end may lie outside.
\<close>

fun escape_loop :: "string \<Rightarrow> string" where
  "escape_loop [] = []"
| "escape_loop (c # cs) = (if c = QUOTE then QUOTE # QUOTE # escape_loop cs else c # escape_loop cs)"

definition m_escape_string :: "string \<Rightarrow> (unit, string) outcome" where
  "m_escape_string s =
     (let t = cstr s; e = escape_loop t in if length e < 2 * length t then Done e else Undefined)"

fun unescape_loop :: "bool \<Rightarrow> string \<Rightarrow> (unit, string) outcome" where
  "unescape_loop quote [] = Done []"
| "unescape_loop quote (c # cs) =
     (if c = QUOTE then
        (if quote then and_then (unescape_loop False cs) (\<lambda>r. Done (QUOTE # r)) else unescape_loop True cs)
      else and_then (unescape_loop quote cs) (\<lambda>r. if quote then Undefined else Done (c # r)))"

definition m_unescape_string :: "string \<Rightarrow> (unit, string) outcome" where
  "m_unescape_string s =
     (let t = cstr s in
      and_then (unescape_loop False t) (\<lambda>e. if length e < 2 * length t then Done e else Undefined))"

text \<open>
  The variant with a buffer tests its index before each byte of the text, but a quote takes two bytes. The result
  has the bytes before the zero byte.
\<close>

fun escape2_loop :: "nat \<Rightarrow> string \<Rightarrow> string \<Rightarrow> (unit, string) outcome" where
  "escape2_loop buffer_len b [] = (if length b < buffer_len then Done b else Undefined)"
| "escape2_loop buffer_len b (c # cs) =
     (if c = NUL \<or> buffer_len \<le> length b then (if length b < buffer_len then Done b else Undefined)
      else if c = QUOTE then
        (if length b + 2 \<le> buffer_len then escape2_loop buffer_len (b @ [QUOTE, QUOTE]) cs else Undefined)
      else escape2_loop buffer_len (b @ [c]) cs)"

definition m_escape_string2 :: "nat \<Rightarrow> string \<Rightarrow> (unit, string) outcome" where
  "m_escape_string2 buffer_len s = escape2_loop buffer_len [] s"

section \<open>LIKE patterns\<close>

fun like_loop :: "nat \<Rightarrow> string \<Rightarrow> string \<Rightarrow> (unit, string) outcome" where
  "like_loop n d [] = (if length d + 2 \<le> n then Done (d @ ''$'') else Undefined)"
| "like_loop n d (c # cs) =
     (if c = NUL \<or> n \<le> length d then (if length d + 2 \<le> n then Done (d @ ''$'') else Undefined)
      else if c = CHR ''%'' then (if length d + 2 \<le> n then like_loop n (d @ ''.*'') cs else Undefined)
      else if c = CHR ''_'' then like_loop n (d @ ''.'') cs
      else like_loop n (d @ [c]) cs)"

definition regex_to_like :: "nat \<Rightarrow> string \<Rightarrow> (unit, string) outcome" where
  "regex_to_like max_str_const src = (if max_str_const = 0 then Undefined else like_loop max_str_const ''^'' src)"

section \<open>Syntax errors\<close>

record YYLTYPE =
  first_line :: int
  first_column :: int
  last_line :: int
  last_column :: int

text \<open>
  The line of the location in the input, and the marks below it: the text goes to the error stream.
\<close>

fun skip_lines :: "int \<Rightarrow> string \<Rightarrow> string" where
  "skip_lines n [] = []"
| "skip_lines n (c # cs) = (if n \<le> 0 then c # cs else skip_lines (if c = CHR 0x0A then n - 1 else n) cs)"

fun skip_columns :: "int \<Rightarrow> int \<Rightarrow> string \<Rightarrow> string \<times> int \<times> string" where
  "skip_columns cur_column first [] = ([], cur_column, [])"
| "skip_columns cur_column first (c # cs) =
     (if cur_column < first then
        (case skip_columns (cur_column + 1) first cs of (out, k, rest) \<Rightarrow> (CHR '' '' # out, k, rest))
      else ([], cur_column, c # cs))"

fun mark_columns :: "int \<Rightarrow> int \<Rightarrow> string \<Rightarrow> string" where
  "mark_columns cur_column last_col [] = []"
| "mark_columns cur_column last_col (c # cs) =
     (if cur_column \<le> last_col then CHR ''^'' # mark_columns (cur_column + 1) last_col cs else [])"

definition print_yyloc :: "string \<Rightarrow> YYLTYPE \<Rightarrow> string" where
  "print_yyloc input loc =
     (let line = takeWhile (\<lambda>c. c \<noteq> CHR 0x0A) (skip_lines (first_line loc) (cstr input)) in
      case skip_columns 1 (first_column loc) line of (spaces, cur_column, rest) \<Rightarrow>
        [CHR 0x0A] @ line @ [CHR 0x0A] @ spaces @ (if rest \<noteq> [] \<and> hd rest = CHR '' '' then '' '' else [])
        @ mark_columns cur_column (last_column loc) rest @ [CHR 0x0A])"

definition yyerror :: "string \<Rightarrow> YYLTYPE \<Rightarrow> string \<Rightarrow> string" where
  "yyerror input loc s =
     ''Error with syntax near (line '' @ int_dec (first_line loc + 1) @ '', column '' @ int_dec (first_column loc) @ ''):''
     @ print_yyloc input loc @ s @ [CHR 0x0A]"

text \<open>The end of the printed line is overwritten with a zero byte in the input itself.\<close>

definition cut_input :: "string \<Rightarrow> YYLTYPE \<Rightarrow> string" where
  "cut_input input loc =
     (let t = cstr input; tail = skip_lines (first_line loc) t;
          line = takeWhile (\<lambda>c. c \<noteq> CHR 0x0A) tail in
      input[length t - length tail + length line := NUL])"

section \<open>Names of routines\<close>

abbreviation MAX_ROUTINE_LEN :: nat where
  "MAX_ROUTINE_LEN \<equiv> 31"

datatype FileType = CrossReference | OutputPlan

definition base62_chars :: string where
  "base62_chars = ''0123456789ABCDEFGHIJKLMNOPQRSTUVWXYZabcdefghijklmnopqrstuvwxyz''"

text \<open>
  A hash is two 64-bit words, of which the loop takes digits in turn until \<open>buf_len\<close> is reached, two at a time.
\<close>

function ydb_hash_to_string :: "u64 \<Rightarrow> u64 \<Rightarrow> nat \<Rightarrow> nat \<Rightarrow> string" where
  "ydb_hash_to_string hashone hashtwo i buf_len =
     (if buf_len \<le> i then []
      else base62_chars ! unat (hashone mod 62) # base62_chars ! unat (hashtwo mod 62)
        # ydb_hash_to_string (hashone div 62) (hashtwo div 62) (i + 2) buf_len)"
  by pat_completeness auto
termination
  by (relation "measure (\<lambda>(a, b, i, n). n - i)") auto

declare ydb_hash_to_string.simps [simp del]

definition routine_prefix :: "FileType \<Rightarrow> string" where
  "routine_prefix file_type = (case file_type of CrossReference \<Rightarrow> ''%ydboctoX'' | OutputPlan \<Rightarrow> ''%ydboctoP'')"

text \<open>
  The name with the zero byte behind it is written to \<open>routine_name\<close>, an array of \<open>room\<close> bytes whose size the caller
  gives as \<open>routine_len\<close>.
\<close>

definition generate_routine_name :: "u64 \<times> u64 \<Rightarrow> nat \<Rightarrow> nat \<Rightarrow> FileType \<Rightarrow> (unit, string) outcome" where
  "generate_routine_name hash room routine_len file_type =
     (if routine_len < MAX_ROUTINE_LEN then Undefined
      else
        let prefix = routine_prefix file_type;
            name = prefix @ ydb_hash_to_string (fst hash) (snd hash) 0 (MAX_ROUTINE_LEN - length prefix)
        in if room < length name + 1 then Undefined else Done name)"

section \<open>Properties\<close>

lemma unescape_escape: "unescape_loop False (escape_loop s) = Done s"
  by (induction s) auto

lemma length_escape: "length (escape_loop s) = length s + length (filter (\<lambda>c. c = QUOTE) s)"
  by (induction s) auto

lemma nul_free_escape: "nul_free s \<Longrightarrow> nul_free (escape_loop s)"
  by (induction s) auto

lemma all_quotes: "length (filter (\<lambda>c. c = QUOTE) s) < length s \<longleftrightarrow> \<not> set s \<subseteq> {QUOTE}"
  by (induction s) (simp_all add: le_imp_less_Suc)

text \<open>C39.
  Quoting a text for M and unquoting it gives the text back. \<open>m_escape_string\<close> stays in its memory exactly if the text
  has a character that is no quote: the zero byte has no room behind a text of quotes, or behind the empty text.
\<close>

theorem m_escape_round_trip:
  assumes "nul_free s"
  shows "(m_escape_string s = Undefined \<longleftrightarrow> set s \<subseteq> {QUOTE})
    \<and> (\<forall>e. m_escape_string s = Done e \<longrightarrow> m_unescape_string e = Done s)"
proof -
  have "length (escape_loop s) < 2 * length s \<longleftrightarrow> \<not> set s \<subseteq> {QUOTE}"
    using all_quotes [of s] by (simp add: length_escape)
  moreover have "m_unescape_string (escape_loop s) = Done s" if "\<not> set s \<subseteq> {QUOTE}"
  proof -
    have "s \<noteq> []" using that by auto
    then show ?thesis
      using assms by (simp add: m_unescape_string_def nul_free_escape unescape_escape length_escape)
  qed
  ultimately show ?thesis using assms by (auto simp: m_escape_string_def Let_def split: if_splits)
qed

theorem m_escape_round_trip_witness:
  "\<exists>e. m_escape_string (''a'' @ [QUOTE]) = Done e \<and> m_unescape_string e = Done (''a'' @ [QUOTE])"
proof -
  have "m_escape_string (''a'' @ [QUOTE]) = Done (''a'' @ [QUOTE, QUOTE])" by (simp add: m_escape_string_def)
  moreover have "nul_free (''a'' @ [QUOTE])" by simp
  ultimately show ?thesis using m_escape_round_trip [of "''a'' @ [QUOTE]"] by blast
qed

text \<open>The buffer variant agrees with the loop where the buffer has room.\<close>

lemma escape2_loop_room:
  "nul_free s \<Longrightarrow> escape2_loop n b s = (if length (b @ escape_loop s) < n then Done (b @ escape_loop s) else Undefined)"
  by (induction s arbitrary: b) auto

lemma m_escape_string2_room:
  "nul_free s \<Longrightarrow> m_escape_string2 n s = (if length (escape_loop s) < n then Done (escape_loop s) else Undefined)"
  by (simp add: m_escape_string2_def escape2_loop_room)

text \<open>The digits of a hash.\<close>

lemma length_hash_string: "even n \<Longrightarrow> i \<le> n \<Longrightarrow> even i \<Longrightarrow> length (ydb_hash_to_string a b i n) = n - i"
proof (induction a b i n rule: ydb_hash_to_string.induct)
  case (1 a b i n)
  show ?case
  proof (cases "n \<le> i")
    case True
    then show ?thesis by (subst ydb_hash_to_string.simps) simp
  next
    case False
    with 1(2-4) have "i + 2 \<le> n" by presburger
    then have "length (ydb_hash_to_string (a div 62) (b div 62) (i + 2) n) = n - (i + 2)"
      using 1(1) [OF False] 1(2,4) False by simp
    then show ?thesis using False \<open>i + 2 \<le> n\<close> by (subst ydb_hash_to_string.simps) simp
  qed
qed

lemma distinct_base62: "distinct base62_chars" "length base62_chars = 62"
  by (simp_all add: base62_chars_def)

lemma base62_inj: "base62_chars ! unat (a mod 62) = base62_chars ! unat (b mod 62) \<longleftrightarrow> a mod 62 = (b mod 62 :: u64)"
proof -
  have "unat (x mod 62) < length base62_chars" for x :: u64
    by (simp add: distinct_base62 unat_mod)
  then show ?thesis using nth_eq_iff_index_eq [OF distinct_base62(1)] by (simp add: word_unat_eq_iff)
qed

lemma mod_split: "(a :: nat) mod (62 * m) = 62 * (a div 62 mod m) + a mod 62"
  by (simp add: mod_mult2_eq)

lemma hash_string_inj:
  "ydb_hash_to_string a b i (i + 2 * k) = ydb_hash_to_string a' b' i (i + 2 * k) \<Longrightarrow>
    unat a mod 62 ^ k = unat a' mod 62 ^ k \<and> unat b mod 62 ^ k = unat b' mod 62 ^ k"
proof (induction k arbitrary: a b a' b' i)
  case (Suc k)
  let ?n = "i + 2 * Suc k"
  have n: "?n = (i + 2) + 2 * k" by simp
  from Suc.prems have h: "a mod 62 = a' mod 62" "b mod 62 = b' mod 62"
    and t: "ydb_hash_to_string (a div 62) (b div 62) (i + 2) ?n = ydb_hash_to_string (a' div 62) (b' div 62) (i + 2) ?n"
    unfolding ydb_hash_to_string.simps [of a] ydb_hash_to_string.simps [of a'] by (simp_all add: base62_inj)
  from h have "unat a mod 62 = unat a' mod 62" "unat b mod 62 = unat b' mod 62"
    by (simp_all add: word_unat_eq_iff unat_mod)
  moreover have "unat a div 62 mod 62 ^ k = unat a' div 62 mod 62 ^ k" "unat b div 62 mod 62 ^ k = unat b' div 62 mod 62 ^ k"
    using Suc.IH [OF t [unfolded n]] by (simp_all add: unat_div)
  ultimately show ?case by (simp add: mod_split)
qed simp

lemma hash_below: "unat (a :: u64) mod 62 ^ 11 = unat a"
  using unsigned_less [of a, where ?'a = nat] by (intro mod_less) simp



end
