(* ===== verification/Schema_Store.thy ===== *)
theory Schema_Store
  imports Rocto_Session M_Text
begin

text \<open>
  Tables in the database: the branches of \<open>run_query\<close> for \<open>CREATE TABLE\<close> and \<open>DROP TABLE\<close>, the text of a table
  (\<open>emit_create_table.c\<close>, \<open>emit_column_specification.c\<close>), its rows in the catalog (\<open>store_table_in_pg_class.c\<close>) and
  the look-up of a table (\<open>find_table.c\<close>). The binary image of a statement is made and read by the functions of
  \<open>compress_statement.c\<close> and \<open>decompress_statement.c\<close>, which are parameters.
\<close>

section \<open>The text of a table\<close>

abbreviation unknown_keyword :: octo_error where
  "unknown_keyword \<equiv> Internal ERR_UNKNOWN_KEYWORD_STATE"

fun escaped :: "nat \<Rightarrow> string \<Rightarrow> (octo_error, string) outcome" where
  "escaped n s = (case m_escape_string2 n s of Done e \<Rightarrow> Done e | _ \<Rightarrow> Undefined)"

definition quoted :: "nat \<Rightarrow> string \<Rightarrow> string \<Rightarrow> (octo_error, string) outcome" where
  "quoted n word s = and_then (escaped n s) (\<lambda>e. Done (word @ [QUOTE] @ e @ [QUOTE]))"

text \<open>\<open>Failed\<close> is a fatal error. A delimiter is printed with the word of the global.\<close>

definition keyword_text :: "nat \<Rightarrow> OptionalKeyword \<times> string \<Rightarrow> (octo_error, string) outcome" where
  "keyword_text n keyword =
     (let k = fst keyword; v = snd keyword in
      if k = PRIMARY_KEY then Done '' PRIMARY KEY''
      else if k = NOT_NULL then Done '' NOT NULL''
      else if k = UNIQUE_CONSTRAINT then Done '' UNIQUE''
      else if k = OPTIONAL_EXTRACT then quoted n '' EXTRACT '' v
      else if k = OPTIONAL_PIECE then quoted n '' PIECE '' v
      else if k = OPTIONAL_SOURCE then quoted n '' GLOBAL '' v
      else if k = OPTIONAL_DELIM then quoted n '' GLOBAL '' v
      else if k = OPTIONAL_KEY_NUM then quoted n '' KEY NUM '' v
      else if k = OPTIONAL_ADVANCE then quoted n '' ADVANCE '' v
      else if k = NO_KEYWORD then Done []
      else if k = OPTIONAL_START then quoted n '' START '' v
      else if k = OPTIONAL_END then quoted n '' END '' v
      else Failed unknown_keyword)"

fun texts :: "('a \<Rightarrow> ('e, string) outcome) \<Rightarrow> 'a list \<Rightarrow> ('e, string list) outcome" where
  "texts f [] = Done []"
| "texts f (x # xs) = and_then (f x) (\<lambda>t. and_then (texts f xs) (\<lambda>ts. Done (t # ts)))"

text \<open>
  The parts are printed one behind the other into a buffer; the assertion at the end fails when they do not fit.
  A column without keywords has a null pointer.
\<close>

definition emit_column_specification :: "nat \<Rightarrow> SqlColumn \<Rightarrow> (octo_error, string) outcome" where
  "emit_column_specification buffer_size col =
     and_then (if sc_type col = INTEGER_TYPE then Done '' INTEGER''
               else if sc_type col = CHARACTER_STRING_TYPE then Done '' VARCHAR(25)''
               else Failed unknown_keyword) (\<lambda>type_text.
     if sc_keywords col = [] then Undefined
     else and_then (texts (keyword_text buffer_size) (sc_keywords col)) (\<lambda>ts.
       let spec = ''`'' @ columnName col @ ''`'' @ type_text @ concat ts in
       if length spec < buffer_size then Done spec else Undefined))"

fun comma_list :: "string list \<Rightarrow> string" where
  "comma_list [] = []"
| "comma_list [t] = t"
| "comma_list (t # ts) = t @ '', '' @ comma_list ts"

definition emit_create_table :: "nat \<Rightarrow> SqlTable \<Rightarrow> (octo_error, string) outcome" where
  "emit_create_table n table =
     (if st_columns table = [] then Undefined
      else and_then (texts (emit_column_specification n) (st_columns table)) (\<lambda>ts.
        and_then (case st_source table of None \<Rightarrow> Done [] | Some v \<Rightarrow> quoted n '' GLOBAL '' v) (\<lambda>source.
        and_then (case st_delim table of None \<Rightarrow> Done [] | Some v \<Rightarrow> quoted n '' DELIM '' v) (\<lambda>delim.
        Done (''CREATE TABLE `'' @ tableName table @ ''` ('' @ comma_list ts @ '')'' @ source @ delim @ '';'')))))"

section \<open>The catalog\<close>

definition fatal :: "'db octo_config \<Rightarrow> octo_error \<Rightarrow> fmt_arg list \<Rightarrow> ('db, 'a) act" where
  "fatal cfg e args = seq (octo_log cfg FATAL e args) (\<lambda>_ s. Undefined)"

fun or_fatal :: "'db octo_config \<Rightarrow> (octo_error, 'a) outcome \<Rightarrow> ('db, 'a) act" where
  "or_fatal cfg Undefined = (\<lambda>s. Undefined)"
| "or_fatal cfg (Failed e) = fatal cfg e [ArgS []]"
| "or_fatal cfg (Done x) = ret x"

definition toupper :: "char \<Rightarrow> char" where
  "toupper c = (if 97 \<le> (of_char c :: nat) \<and> (of_char c :: nat) \<le> 122 then char_of ((of_char c :: nat) - 32) else c)"

definition pg_class_row :: "string \<Rightarrow> string \<Rightarrow> string" where
  "pg_class_row table_name oid =
     table_name @ ''|2200|16388|0|16385|0|16386|0|0|0|0|16389|t|0|p|r|3|0|0|0|0|0|0|0|t|d|0|0|571|1||||'' @ oid"

definition pg_attribute_row :: "string \<Rightarrow> string \<Rightarrow> nat \<Rightarrow> string" where
  "pg_attribute_row oid column_name atttypid =
     oid @ ''|'' @ column_name @ ''|'' @ nat_dec atttypid @ ''|-1|-1|2|0|-1|-1|0|x|i|0|0|0|'' @ [QUOTE, QUOTE] @ ''|0|t|0|100||||''"

text \<open>
  The buffer keeps the length of the row of the table, so a column's row is stored with that length: cut, or with
  bytes of the rows before it.
\<close>

primrec store_columns :: "'db octo_config \<Rightarrow> string \<Rightarrow> nat \<Rightarrow> SqlColumn list \<Rightarrow> string \<Rightarrow> ('db, unit) act" where
  "store_columns cfg oid len_used [] buffer = ret ()"
| "store_columns cfg oid len_used (col # cols) buffer =
     seq (or_fatal cfg (if sc_type col = INTEGER_TYPE then Done 23
            else if sc_type col = CHARACTER_STRING_TYPE then Done 1043 else Failed unknown_keyword)) (\<lambda>atttypid.
     let row = take (MAX_STR_CONST cfg - 1) (pg_attribute_row oid (map toupper (columnName col)) atttypid);
         buffer' = overwrite 0 (row @ [NUL]) buffer in
     seq (db_incr cfg (gn_octo cfg) [''oid'']) (\<lambda>attribute.
     seq (db_set cfg (gn_octo cfg) [''tables'', ''pg_catalog'', ''pg_attribute'', attribute] (take len_used buffer')) (\<lambda>_.
     store_columns cfg oid len_used cols buffer')))"

definition store_table_in_pg_class :: "'db octo_config \<Rightarrow> SqlTable \<Rightarrow> ('db, unit) act" where
  "store_table_in_pg_class cfg table =
     seq (db_incr cfg (gn_octo cfg) [''oid'']) (\<lambda>oid.
     let row = take (MAX_STR_CONST cfg - 1) (pg_class_row (map toupper (tableName table)) oid) in
     seq (db_set cfg (gn_octo cfg) [''tables'', ''pg_catalog'', ''pg_class'', oid] row) (\<lambda>_.
     if st_columns table = [] then (\<lambda>s. Undefined)
     else store_columns cfg oid (length row) (st_columns table) (row @ [NUL])))"

section \<open>CREATE TABLE and DROP TABLE\<close>

text \<open>The image is stored in parts of \<open>MAX_STR_CONST\<close> bytes with the subscripts 0, 1, and so on.\<close>

function store_parts :: "'db octo_config \<Rightarrow> string \<Rightarrow> string \<Rightarrow> nat \<Rightarrow> nat \<Rightarrow> ('db, unit) act" where
  "store_parts cfg name binary cur_length i =
     (if length binary \<le> cur_length then ret ()
      else if MAX_STR_CONST cfg = 0 then (\<lambda>s. Undefined)
      else seq (db_set cfg (gn_schema cfg) [name, ''b'', nat_dec i] (take (MAX_STR_CONST cfg) (drop cur_length binary))) (\<lambda>_.
           store_parts cfg name binary (cur_length + MAX_STR_CONST cfg) (i + 1)))"
  by pat_completeness auto
termination
  by (relation "measure (\<lambda>(cfg, name, binary, cur_length, i). length binary - cur_length)") auto

declare store_parts.simps [simp del]

text \<open>The result of the last \<open>ydb_set_s\<close> is not looked at.\<close>

definition create_table :: "'db octo_config \<Rightarrow> (SqlTable \<Rightarrow> string) \<Rightarrow> SqlTable \<Rightarrow> ('db, unit) act" where
  "create_table cfg compress_statement table =
     (let name = tableName table in
      seq (or_fatal cfg (emit_create_table (MAX_STR_CONST cfg) table)) (\<lambda>buffer.
      seq (octo_log cfg INFO CUSTOM_ERROR [ArgS ''%s'', ArgS buffer]) (\<lambda>_.
      if MAX_STR_CONST cfg < length name then
        fatal cfg (Syntax ERR_TABLE_DEFINITION_TOO_LONG) [ArgS name, ArgD (of_nat (MAX_STR_CONST cfg)), ArgD (of_nat (length name))]
      else if MAX_STR_CONST cfg < length buffer then
        fatal cfg (Syntax ERR_TABLE_DEFINITION_TOO_LONG) [ArgS name, ArgD (of_nat (MAX_STR_CONST cfg)), ArgD (of_nat (length buffer))]
      else
        seq (db_set cfg (gn_schema cfg) [name, ''t''] buffer) (\<lambda>_.
        seq (store_parts cfg name (compress_statement table) 0 0) (\<lambda>_.
        seq (change (\<lambda>s. case ydb_set_s (c_api cfg) (s_db s) (gn_schema cfg) [name, ''l''] (nat_dec (length (compress_statement table))) of
               YDB_OK db \<Rightarrow> s\<lparr>s_db := db\<rparr> | _ \<Rightarrow> s)) (\<lambda>_.
        store_table_in_pg_class cfg table))))))"

abbreviation loaded_schemas :: string where
  "loaded_schemas \<equiv> ''%ydboctoloadedschemas''"

text \<open>A name that does not fit is not copied, which leaves the buffer empty.\<close>

definition drop_table :: "'db octo_config \<Rightarrow> string \<Rightarrow> ('db, unit) act" where
  "drop_table cfg name =
     (let buffer = (if length name \<le> MAX_STR_CONST cfg then name else []) in
      seq (db_delete cfg (gn_schema cfg) [buffer]) (\<lambda>_.
      seq (session_get cfg loaded_schemas [name]) (\<lambda>table_stmt.
      case table_stmt of
        None \<Rightarrow> ret ()
      | Some p \<Rightarrow> db_delete cfg loaded_schemas [buffer])))"

section \<open>Looking up a table\<close>

text \<open>A pointer in eight bytes. What is stored as the chunk of a table stands for the memory it was loaded to.\<close>

definition table_pointer :: "nat \<Rightarrow> string" where
  "table_pointer n = be_bytes 8 n"

definition loaded_table :: "SqlTable list \<Rightarrow> string \<Rightarrow> (unit, SqlTable) outcome" where
  "loaded_table tables p =
     (if length p = 8 \<and> be_nat p < length tables then Done (tables ! be_nat p) else Undefined)"

text \<open>The second loop copies the parts into a buffer with room for as many as the first loop has counted.\<close>

fun read_parts :: "'db octo_config \<Rightarrow> string list \<Rightarrow> string \<Rightarrow> nat \<Rightarrow> ('db, string list) act" where
  "read_parts cfg subs x room =
     seq (next_subscript cfg (gn_schema cfg) (subs @ [x])) (\<lambda>r.
       case r of
         None \<Rightarrow> ret []
       | Some y \<Rightarrow>
           seq (db_get cfg (gn_schema cfg) (subs @ [y]) (MAX_STR_CONST cfg)) (\<lambda>status.
           seq (ydb_check cfg status) (\<lambda>part.
           case room of
             0 \<Rightarrow> (\<lambda>s. Undefined)
           | Suc n \<Rightarrow> seq (read_parts cfg subs y n) (\<lambda>parts. ret (part # parts)))))"

declare read_parts.simps [simp del]

definition padded :: "nat \<Rightarrow> string \<Rightarrow> string" where
  "padded n part = part @ replicate (n - length part) NUL"

definition load_table :: "'db octo_config \<Rightarrow> (string \<Rightarrow> SqlTable) \<Rightarrow> string \<Rightarrow> nat \<Rightarrow> ('db, SqlTable option) act" where
  "load_table cfg decompress_statement name num_parts =
     seq (read_parts cfg [name, ''b''] [] num_parts) (\<lambda>parts.
     seq (gets (\<lambda>s. table_pointer (length (s_tables s)))) (\<lambda>p.
       let table = decompress_statement (concat (map (padded (MAX_STR_CONST cfg)) parts)) in
       seq (change (\<lambda>s. s\<lparr>s_tables := s_tables s @ [table]\<rparr>)) (\<lambda>_.
       seq (db_set cfg loaded_schemas [name] p) (\<lambda>_.
       seq (db_set cfg loaded_schemas [name, ''chunk''] p) (\<lambda>_. ret (Some table))))))"

text \<open>A table that is not there is looked up again without what is before the first dot of its name.\<close>

definition unqualified :: "string \<Rightarrow> string" where
  "unqualified name = drop 1 (dropWhile (\<lambda>c. c \<noteq> CHR ''.'') name)"

lemma unqualified_shorter: "CHR ''.'' \<in> set name \<Longrightarrow> length (unqualified name) < length name"
  using length_dropWhile_le [of "\<lambda>c. c \<noteq> CHR ''.''" name] by (cases name) (auto simp: unqualified_def)

function find_table :: "'db octo_config \<Rightarrow> (string \<Rightarrow> SqlTable) \<Rightarrow> string \<Rightarrow> ('db, SqlTable option) act" where
  "find_table cfg decompress_statement name =
     seq (octo_log cfg TRACE CUSTOM_ERROR [ArgS ''Searching for table %s'', ArgS name]) (\<lambda>_.
     seq (session_get cfg loaded_schemas [name]) (\<lambda>table_stmt.
     case table_stmt of
       Some p \<Rightarrow> seq (gets s_tables) (\<lambda>tables. seq (defined (loaded_table tables p)) (\<lambda>t. ret (Some t)))
     | None \<Rightarrow>
         seq (count_subscripts cfg (gn_schema cfg) [name, ''b''] [] 0) (\<lambda>num_parts.
         if num_parts = 0 then
           (if CHR ''.'' \<in> set name then find_table cfg decompress_statement (unqualified name) else ret None)
         else load_table cfg decompress_statement name num_parts)))"
  by pat_completeness auto
termination
  by (relation "measure (\<lambda>(cfg, d, name). length name)") (auto intro: unqualified_shorter)

declare find_table.simps [simp del]

section \<open>Storing and loading\<close>

text \<open>The parts of a binary, by their number.\<close>

definition part :: "nat \<Rightarrow> string \<Rightarrow> nat \<Rightarrow> string" where
  "part n bin j = take n (drop (j * n) bin)"

definition part_count :: "nat \<Rightarrow> string \<Rightarrow> nat" where
  "part_count n bin = (length bin + n - 1) div n"

lemma part_count_le: "0 < n \<Longrightarrow> part_count n bin \<le> i \<longleftrightarrow> length bin \<le> i * n"
proof -
  assume n: "0 < n"
  have "part_count n bin \<le> i \<longleftrightarrow> part_count n bin < Suc i" by auto
  also have "\<dots> \<longleftrightarrow> length bin + n - 1 < Suc i * n" unfolding part_count_def using n by (rule div_less_iff_less_mult)
  finally show ?thesis using n by auto
qed

lemma padded_parts:
  assumes n: "0 < n"
  shows "concat (map (\<lambda>j. padded n (part n bin j)) [i..<part_count n bin])
    = drop (i * n) bin @ replicate (part_count n bin * n - max (i * n) (length bin)) NUL"
proof (induction "part_count n bin - i" arbitrary: i)
  case 0
  then have "length bin \<le> i * n" "part_count n bin * n \<le> i * n" using part_count_le [OF n, of bin i] by simp_all
  with 0 show ?case by simp
next
  case (Suc k)
  then have lt: "i < part_count n bin" by simp
  then have l: "i * n < length bin" "Suc i * n \<le> part_count n bin * n"
    using part_count_le [OF n, of bin i] by (simp_all del: mult_Suc add: mult_le_mono1)
  have ih: "concat (map (\<lambda>j. padded n (part n bin j)) [Suc i..<part_count n bin])
      = drop (Suc i * n) bin @ replicate (part_count n bin * n - max (Suc i * n) (length bin)) NUL"
    using Suc by (intro Suc.hyps) simp
  have "concat (map (\<lambda>j. padded n (part n bin j)) [i..<part_count n bin])
      = padded n (part n bin i) @ concat (map (\<lambda>j. padded n (part n bin j)) [Suc i..<part_count n bin])"
    using lt by (simp add: upt_conv_Cons)
  also have "\<dots> = drop (i * n) bin @ replicate (part_count n bin * n - max (i * n) (length bin)) NUL"
  proof (cases "Suc i * n \<le> length bin")
    case True
    then have "padded n (part n bin i) = take n (drop (i * n) bin)" by (simp add: padded_def part_def)
    moreover have "drop (Suc i * n) bin = drop n (drop (i * n) bin)" by (simp add: add.commute)
    ultimately show ?thesis unfolding ih using True l
      by (simp add: append_assoc [symmetric] max_def del: append_assoc drop_drop)
  next
    case False
    then have t: "take n (drop (i * n) bin) = drop (i * n) bin" "drop (Suc i * n) bin = []" by simp_all
    have p: "length bin \<le> part_count n bin * n" using part_count_le [OF n, of bin "part_count n bin"] by simp
    have "n - length (drop (i * n) bin) + (part_count n bin * n - Suc i * n) = part_count n bin * n - length bin"
      using False l p by simp
    then show ?thesis unfolding ih unfolding padded_def part_def t using False l
      by (simp add: max_def replicate_add [symmetric] del: mult_Suc)
  qed
  finally show ?case .
qed

lemma store_parts_works:
  assumes laws: "ydb_laws (c_api cfg)" "ydb_works (c_api cfg)" and n: "0 < MAX_STR_CONST cfg"
    and v: "visits (c_api cfg) (s_db s) (gn_schema cfg) [name, ''b''] [] (map nat_dec [0..<i])" "i \<le> part_count (MAX_STR_CONST cfg) bin"
  shows "\<exists>db. store_parts cfg name bin (i * MAX_STR_CONST cfg) i s = Done ((), s\<lparr>s_db := db\<rparr>)
    \<and> visits (c_api cfg) db (gn_schema cfg) [name, ''b''] [] (map nat_dec [0..<part_count (MAX_STR_CONST cfg) bin])
    \<and> (\<forall>j. i \<le> j \<longrightarrow> j < part_count (MAX_STR_CONST cfg) bin \<longrightarrow>
        ydb_get_s (c_api cfg) db (gn_schema cfg) [name, ''b'', nat_dec j] (MAX_STR_CONST cfg) = YDB_OK (part (MAX_STR_CONST cfg) bin j))
    \<and> unchanged (c_api cfg) (\<lambda>h xs. h = gn_schema cfg \<and> (\<exists>j \<ge> i. xs = [name, ''b'', nat_dec j])) (s_db s) db"
  using v
proof (induction "part_count (MAX_STR_CONST cfg) bin - i" arbitrary: i s)
  case 0
  then have "i = part_count (MAX_STR_CONST cfg) bin" by simp
  moreover have "length bin \<le> i * MAX_STR_CONST cfg" using calculation part_count_le [OF n, of bin i] by simp
  ultimately show ?case using 0 by (subst store_parts.simps) (auto simp: ret_def intro!: exI [of _ "s_db s"])
next
  case (Suc k)
  let ?n = "MAX_STR_CONST cfg" and ?api = "c_api cfg" and ?g = "gn_schema cfg"
  have lt: "i < part_count ?n bin" using Suc.hyps(2) by simp
  then have l: "\<not> length bin \<le> i * ?n" using part_count_le [OF n, of bin i] by simp
  obtain db where d: "ydb_set_s ?api (s_db s) ?g ([name, ''b''] @ [nat_dec i]) (part ?n bin i) = YDB_OK db"
      "db_set cfg ?g ([name, ''b''] @ [nat_dec i]) (part ?n bin i) s = Done ((), s\<lparr>s_db := db\<rparr>)"
    using db_set_works [OF laws(2)] by blast
  let ?s = "s\<lparr>s_db := db\<rparr>"
  have vis: "visits ?api (s_db ?s) ?g [name, ''b''] [] (map nat_dec [0..<Suc i])"
    using ydb_visits_set [OF laws(1) d(1) Suc.prems(1)] by (simp del: upt_Suc)
  have k: "k = part_count ?n bin - Suc i" using Suc.hyps(2) by simp
  from Suc.hyps(1) [OF k vis Suc_leI [OF lt]] obtain db' where
      i: "store_parts cfg name bin (Suc i * ?n) (Suc i) ?s = Done ((), ?s\<lparr>s_db := db'\<rparr>)"
      "visits ?api db' ?g [name, ''b''] [] (map nat_dec [0..<part_count ?n bin])"
      "\<forall>j. Suc i \<le> j \<longrightarrow> j < part_count ?n bin \<longrightarrow> ydb_get_s ?api db' ?g [name, ''b'', nat_dec j] ?n = YDB_OK (part ?n bin j)"
      "unchanged ?api (\<lambda>h xs. h = ?g \<and> (\<exists>j \<ge> Suc i. xs = [name, ''b'', nat_dec j])) (s_db ?s) db'"
    by blast
  have "store_parts cfg name bin (i * ?n) i s = Done ((), s\<lparr>s_db := db'\<rparr>)"
    using l n d(2) i(1) by (subst store_parts.simps) (simp add: part_def add.commute act_defs)
  moreover have "ydb_get_s ?api db' ?g [name, ''b'', nat_dec i] ?n = YDB_OK (part ?n bin i)"
    using unchanged_get [OF i(4), of ?g "[name, ''b'', nat_dec i]"] ydb_get_set [OF laws(1) d(1), of ?n] by (simp add: part_def)
  then have "\<forall>j. i \<le> j \<longrightarrow> j < part_count ?n bin \<longrightarrow> ydb_get_s ?api db' ?g [name, ''b'', nat_dec j] ?n = YDB_OK (part ?n bin j)"
    using i(3) by (metis le_neq_implies_less Suc_leI)
  moreover have "unchanged ?api (\<lambda>h xs. h = ?g \<and> (\<exists>j \<ge> i. xs = [name, ''b'', nat_dec j])) (s_db s) db'"
    using unchanged_set [OF laws(1) d(1), of "\<lambda>h xs. h = ?g \<and> (\<exists>j \<ge> i. xs = [name, ''b'', nat_dec j])"] i(4)
    by (auto elim!: unchanged_trans unchanged_mono)
  ultimately show ?case using i(2) by blast
qed

lemma read_parts_visits:
  "visits (c_api cfg) (s_db s) (gn_schema cfg) subs x ys \<Longrightarrow> length ys \<le> room \<Longrightarrow>
    \<forall>y \<in> set ys. ydb_get_s (c_api cfg) (s_db s) (gn_schema cfg) (subs @ [y]) (MAX_STR_CONST cfg) = YDB_OK (f y) \<Longrightarrow>
    read_parts cfg subs x room s = Done (map f ys, s)"
proof (induction ys arbitrary: x room)
  case Nil
  then show ?case by (subst read_parts.simps) (simp add: act_defs next_subscript_visits [OF Nil(1)])
next
  case (Cons y ys)
  then obtain n where r: "room = Suc n" by (cases room) auto
  with Cons have "read_parts cfg subs y n s = Done (map f ys, s)" by simp
  with Cons.prems show ?case unfolding r
    by (subst read_parts.simps) (simp add: act_defs next_subscript_visits [OF Cons.prems(1)] db_get_def)
qed

text \<open>The catalog is in a global of its own.\<close>

lemma store_columns_works:
  assumes laws: "ydb_laws (c_api cfg)" "ydb_works (c_api cfg)"
    and "\<forall>col \<in> set cols. sc_type col \<in> {INTEGER_TYPE, CHARACTER_STRING_TYPE}"
  shows "\<exists>db. store_columns cfg oid len cols buffer s = Done ((), s\<lparr>s_db := db\<rparr>)
    \<and> unchanged (c_api cfg) (\<lambda>h xs. h = gn_octo cfg) (s_db s) db"
  using assms(3)
proof (induction cols arbitrary: buffer s)
  case Nil
  then show ?case by (auto simp: ret_def intro!: exI [of _ "s_db s"])
next
  case (Cons col cols)
  obtain t :: nat where t: "or_fatal cfg (if sc_type col = INTEGER_TYPE then Done 23
      else if sc_type col = CHARACTER_STRING_TYPE then Done 1043 else Failed unknown_keyword) = ret t"
    using Cons.prems by auto
  let ?row = "take (MAX_STR_CONST cfg - 1) (pg_attribute_row oid (map toupper (columnName col)) t)"
  let ?buffer = "overwrite 0 (?row @ [NUL]) buffer"
  obtain v db1 where i: "ydb_incr_s (c_api cfg) (s_db s) (gn_octo cfg) [''oid''] = YDB_OK (v, db1)"
      "db_incr cfg (gn_octo cfg) [''oid''] s = Done (v, s\<lparr>s_db := db1\<rparr>)"
    using db_incr_works [OF laws(2)] by blast
  let ?s = "s\<lparr>s_db := db1\<rparr>" and ?subs = "[''tables'', ''pg_catalog'', ''pg_attribute'', v]"
  obtain db2 where w: "ydb_set_s (c_api cfg) (s_db ?s) (gn_octo cfg) ?subs (take len ?buffer) = YDB_OK db2"
      "db_set cfg (gn_octo cfg) ?subs (take len ?buffer) ?s = Done ((), ?s\<lparr>s_db := db2\<rparr>)"
    using db_set_works [OF laws(2)] by blast
  have "\<forall>col \<in> set cols. sc_type col \<in> {INTEGER_TYPE, CHARACTER_STRING_TYPE}" using Cons.prems by simp
  from Cons.IH [OF this, of ?buffer "?s\<lparr>s_db := db2\<rparr>"] obtain db3 where
      r: "store_columns cfg oid len cols ?buffer (?s\<lparr>s_db := db2\<rparr>) = Done ((), ?s\<lparr>s_db := db2\<rparr>\<lparr>s_db := db3\<rparr>)"
        "unchanged (c_api cfg) (\<lambda>h xs. h = gn_octo cfg) db2 db3" by auto
  have "unchanged (c_api cfg) (\<lambda>h xs. h = gn_octo cfg) (s_db s) db3"
    using unchanged_set [OF laws(1) ydb_incr_set [OF laws(1) i(1)], of "\<lambda>h xs. h = gn_octo cfg"]
      unchanged_set [OF laws(1) w(1), of "\<lambda>h xs. h = gn_octo cfg"] r(2)
    by (auto intro: unchanged_trans)
  moreover have "store_columns cfg oid len (col # cols) buffer s = Done ((), s\<lparr>s_db := db3\<rparr>)"
    using i(2) w(2) r(1) by (simp add: t Let_def act_defs)
  ultimately show ?case by blast
qed

lemma store_table_works:
  assumes laws: "ydb_laws (c_api cfg)" "ydb_works (c_api cfg)"
    and cols: "st_columns table \<noteq> []" "\<forall>col \<in> set (st_columns table). sc_type col \<in> {INTEGER_TYPE, CHARACTER_STRING_TYPE}"
  shows "\<exists>db. store_table_in_pg_class cfg table s = Done ((), s\<lparr>s_db := db\<rparr>)
    \<and> unchanged (c_api cfg) (\<lambda>h xs. h = gn_octo cfg) (s_db s) db"
proof -
  obtain v db1 where i: "ydb_incr_s (c_api cfg) (s_db s) (gn_octo cfg) [''oid''] = YDB_OK (v, db1)"
      "db_incr cfg (gn_octo cfg) [''oid''] s = Done (v, s\<lparr>s_db := db1\<rparr>)"
    using db_incr_works [OF laws(2)] by blast
  let ?s = "s\<lparr>s_db := db1\<rparr>" and ?subs = "[''tables'', ''pg_catalog'', ''pg_class'', v]"
    and ?row = "take (MAX_STR_CONST cfg - 1) (pg_class_row (map toupper (tableName table)) v)"
  obtain db2 where w: "ydb_set_s (c_api cfg) (s_db ?s) (gn_octo cfg) ?subs ?row = YDB_OK db2"
      "db_set cfg (gn_octo cfg) ?subs ?row ?s = Done ((), ?s\<lparr>s_db := db2\<rparr>)"
    using db_set_works [OF laws(2)] by blast
  obtain db3 where r: "store_columns cfg v (length ?row) (st_columns table) (?row @ [NUL]) (s\<lparr>s_db := db2\<rparr>) = Done ((), s\<lparr>s_db := db3\<rparr>)"
      "unchanged (c_api cfg) (\<lambda>h xs. h = gn_octo cfg) db2 db3"
    using store_columns_works [OF laws cols(2), of v "length ?row" "?row @ [NUL]" "s\<lparr>s_db := db2\<rparr>"] by auto
  have "unchanged (c_api cfg) (\<lambda>h xs. h = gn_octo cfg) (s_db s) db3"
    using unchanged_set [OF laws(1) ydb_incr_set [OF laws(1) i(1)], of "\<lambda>h xs. h = gn_octo cfg"]
      unchanged_set [OF laws(1) w(1), of "\<lambda>h xs. h = gn_octo cfg"] r(2)
    by (auto intro: unchanged_trans)
  moreover have "store_table_in_pg_class cfg table s = Done ((), s\<lparr>s_db := db3\<rparr>)"
    using i(2) w(2) r(1) cols(1) by (simp add: store_table_in_pg_class_def Let_def act_defs)
  ultimately show ?thesis by blast
qed

lemma texts_Done: "texts f xs = Done ts \<Longrightarrow> \<forall>x \<in> set xs. \<exists>t. f x = Done t"
proof (induction xs arbitrary: ts)
  case (Cons x xs)
  then show ?case by (cases "f x"; cases "texts f xs") auto
qed simp

lemma emitted_types:
  assumes "emit_create_table n table = Done tbl"
  shows "st_columns table \<noteq> [] \<and> (\<forall>col \<in> set (st_columns table). sc_type col \<in> {INTEGER_TYPE, CHARACTER_STRING_TYPE})"
proof -
  have ne: "st_columns table \<noteq> []" using assms by (auto simp: emit_create_table_def)
  then obtain ts where "texts (emit_column_specification n) (st_columns table) = Done ts"
    using assms by (cases "texts (emit_column_specification n) (st_columns table)") (auto simp: emit_create_table_def)
  then have "\<forall>col \<in> set (st_columns table). \<exists>t. emit_column_specification n col = Done t" by (rule texts_Done)
  then show ?thesis using ne by (auto simp: emit_column_specification_def split: if_splits)
qed

lemma create_table_works:
  assumes laws: "ydb_laws (c_api cfg)" "ydb_works (c_api cfg)" "quiet cfg" and n: "0 < MAX_STR_CONST cfg"
    and names: "gn_schema cfg \<noteq> gn_octo cfg"
    and tbl: "emit_create_table (MAX_STR_CONST cfg) t = Done tbl" "length tbl \<le> MAX_STR_CONST cfg" "length (tableName t) \<le> MAX_STR_CONST cfg"
    and fresh: "visits (c_api cfg) (s_db s) (gn_schema cfg) [tableName t, ''b''] [] []"
  shows "\<exists>db. create_table cfg compress t s = Done ((), s\<lparr>s_db := db\<rparr>)
    \<and> visits (c_api cfg) db (gn_schema cfg) [tableName t, ''b''] [] (map nat_dec [0..<part_count (MAX_STR_CONST cfg) (compress t)])
    \<and> (\<forall>j < part_count (MAX_STR_CONST cfg) (compress t). ydb_get_s (c_api cfg) db (gn_schema cfg) [tableName t, ''b'', nat_dec j] (MAX_STR_CONST cfg)
        = YDB_OK (part (MAX_STR_CONST cfg) (compress t) j))
    \<and> (\<forall>h subs k. h \<noteq> gn_schema cfg \<longrightarrow> h \<noteq> gn_octo cfg \<longrightarrow> ydb_get_s (c_api cfg) db h subs k = ydb_get_s (c_api cfg) (s_db s) h subs k)"
proof -
  let ?n = "MAX_STR_CONST cfg" and ?api = "c_api cfg" and ?g = "gn_schema cfg" and ?name = "tableName t" and ?bin = "compress t"
  obtain db1 where d1: "ydb_set_s ?api (s_db s) ?g [?name, ''t''] tbl = YDB_OK db1" "db_set cfg ?g [?name, ''t''] tbl s = Done ((), s\<lparr>s_db := db1\<rparr>)"
    using db_set_works [OF laws(2)] by blast
  have "visits ?api (s_db (s\<lparr>s_db := db1\<rparr>)) ?g [?name, ''b''] [] (map nat_dec [0..<0])"
    using visits_set_other [OF laws(1) d1(1), of ?g "[?name, ''b'']" "[]" "[]"] fresh by (simp add: strictly_below_def)
  from store_parts_works [OF laws(1,2) n this] obtain db2 where d2: "store_parts cfg ?name ?bin 0 0 (s\<lparr>s_db := db1\<rparr>) = Done ((), s\<lparr>s_db := db2\<rparr>)"
      "visits ?api db2 ?g [?name, ''b''] [] (map nat_dec [0..<part_count ?n ?bin])"
      "\<forall>j < part_count ?n ?bin. ydb_get_s ?api db2 ?g [?name, ''b'', nat_dec j] ?n = YDB_OK (part ?n ?bin j)"
      "unchanged ?api (\<lambda>h xs. h = ?g \<and> (\<exists>j \<ge> 0. xs = [?name, ''b'', nat_dec j])) db1 db2" by auto
  obtain db3 where d3: "ydb_set_s ?api db2 ?g [?name, ''l''] (nat_dec (length ?bin)) = YDB_OK db3"
    using laws(2) unfolding ydb_works_def by blast
  obtain db4 where d4: "store_table_in_pg_class cfg t (s\<lparr>s_db := db3\<rparr>) = Done ((), s\<lparr>s_db := db4\<rparr>)"
      "unchanged ?api (\<lambda>h xs. h = gn_octo cfg) db3 db4"
    using store_table_works [OF laws(1,2), of t "s\<lparr>s_db := db3\<rparr>"] emitted_types [OF tbl(1)] by auto
  have "create_table cfg compress t s = Done ((), s\<lparr>s_db := db4\<rparr>)"
    using tbl d1(2) d2(1) d3 d4(1) by (simp add: create_table_def octo_log_quiet [OF laws(3)] act_defs Let_def)
  moreover have "visits ?api db4 ?g [?name, ''b''] [] (map nat_dec [0..<part_count ?n ?bin])"
    using unchanged_visits [OF d4(2), of ?g] names visits_set_other [OF laws(1) d3, of ?g "[?name, ''b'']"] d2(2)
    by (simp add: strictly_below_def)
  moreover have "\<forall>j < part_count ?n ?bin. ydb_get_s ?api db4 ?g [?name, ''b'', nat_dec j] ?n = YDB_OK (part ?n ?bin j)"
    using unchanged_get [OF d4(2), of ?g] names ydb_get_set_other [OF laws(1) d3, of ?g] d2(3) by simp
  moreover have "\<forall>h subs k. h \<noteq> ?g \<longrightarrow> h \<noteq> gn_octo cfg \<longrightarrow> ydb_get_s ?api db4 h subs k = ydb_get_s ?api (s_db s) h subs k"
    using unchanged_get [OF d4(2)] ydb_get_set_other [OF laws(1) d3] unchanged_get [OF d2(4)] ydb_get_set_other [OF laws(1) d1(1)]
    by simp
  ultimately show ?thesis by blast
qed

lemma loaded_table_pointer: "n < 2 ^ 64 \<Longrightarrow> n < length ts \<Longrightarrow> loaded_table ts (table_pointer n) = Done (ts ! n)"
  by (simp add: loaded_table_def table_pointer_def)

lemma find_loaded:
  assumes "quiet cfg" "nul_free name" "8 \<le> MAX_STR_CONST cfg"
    and "ydb_get_s (c_api cfg) (s_db s) loaded_schemas [name] (MAX_STR_CONST cfg) = YDB_OK (table_pointer i)"
    and "i < length (s_tables s)" "length (s_tables s) < 2 ^ 64"
  shows "find_table cfg decompress name s = Done (Some (s_tables s ! i), s)"
proof -
  have "session_get cfg loaded_schemas [name] s = Done (Some (table_pointer i), s)"
    using assms(2,4) by (intro session_get_value) simp
  then show ?thesis
    using assms(5,6) by (subst find_table.simps) (simp add: octo_log_quiet [OF assms(1)] act_defs loaded_table_pointer)
qed

lemma find_stored:
  assumes laws: "ydb_laws (c_api cfg)" "ydb_works (c_api cfg)" "quiet cfg" and n: "8 \<le> MAX_STR_CONST cfg"
    and name: "nul_free name" "loaded_schemas \<noteq> gn_schema cfg"
    and get: "ydb_get_s (c_api cfg) (s_db s) loaded_schemas [name] (MAX_STR_CONST cfg) \<in> {YDB_ERR_GVUNDEF, YDB_ERR_LVUNDEF}"
    and v: "visits (c_api cfg) (s_db s) (gn_schema cfg) [name, ''b''] [] (map nat_dec [0..<k])" "0 < k" "k < 2 ^ 31"
    and parts: "\<forall>j < k. ydb_get_s (c_api cfg) (s_db s) (gn_schema cfg) [name, ''b'', nat_dec j] (MAX_STR_CONST cfg) = YDB_OK (f j)"
  shows "\<exists>db. find_table cfg decompress name s = Done (Some (decompress (concat (map (\<lambda>j. padded (MAX_STR_CONST cfg) (f j)) [0..<k]))),
        s\<lparr>s_db := db, s_tables := s_tables s @ [decompress (concat (map (\<lambda>j. padded (MAX_STR_CONST cfg) (f j)) [0..<k]))]\<rparr>)
    \<and> ydb_get_s (c_api cfg) db loaded_schemas [name] (MAX_STR_CONST cfg) = YDB_OK (table_pointer (length (s_tables s)))"
proof -
  let ?t = "decompress (concat (map (\<lambda>j. padded (MAX_STR_CONST cfg) (f j)) [0..<k]))" and ?p = "table_pointer (length (s_tables s))"
  have g: "session_get cfg loaded_schemas [name] s = Done (None, s)"
    using name get by (intro session_get_undefined) simp
  have c: "count_subscripts cfg (gn_schema cfg) [name, ''b''] [] 0 s = Done (k, s)"
    using count_subscripts_visits [OF v(1), of 0] v(3) by simp
  have r: "read_parts cfg [name, ''b''] [] k s = Done (map f [0..<k], s)"
  proof -
    have "read_parts cfg [name, ''b''] [] k s = Done (map (\<lambda>y. f (digits_val y)) (map nat_dec [0..<k]), s)"
      using v(1) parts by (intro read_parts_visits) (auto simp: digits_val_nat_dec)
    then show ?thesis by (simp add: digits_val_nat_dec comp_def)
  qed
  let ?s = "s\<lparr>s_tables := s_tables s @ [?t]\<rparr>"
  obtain db1 where d1: "ydb_set_s (c_api cfg) (s_db ?s) loaded_schemas [name] ?p = YDB_OK db1"
      "db_set cfg loaded_schemas [name] ?p ?s = Done ((), ?s\<lparr>s_db := db1\<rparr>)"
    using db_set_works [OF laws(2)] by blast
  obtain db2 where d2: "ydb_set_s (c_api cfg) (s_db (?s\<lparr>s_db := db1\<rparr>)) loaded_schemas [name, ''chunk''] ?p = YDB_OK db2"
      "db_set cfg loaded_schemas [name, ''chunk''] ?p (?s\<lparr>s_db := db1\<rparr>) = Done ((), ?s\<lparr>s_db := db1\<rparr>\<lparr>s_db := db2\<rparr>)"
    using db_set_works [OF laws(2)] by blast
  have "load_table cfg decompress name k s = Done (Some ?t, ?s\<lparr>s_db := db2\<rparr>)"
    using r d1(2) d2(2) by (simp add: load_table_def act_defs Let_def comp_def)
  then have "find_table cfg decompress name s = Done (Some ?t, ?s\<lparr>s_db := db2\<rparr>)"
    using g c v(2) by (subst find_table.simps) (simp add: octo_log_quiet [OF laws(3)] act_defs)
  moreover have "length ?p = 8" by (simp add: table_pointer_def)
  then have "ydb_get_s (c_api cfg) db2 loaded_schemas [name] (MAX_STR_CONST cfg) = YDB_OK ?p"
    using ydb_get_set_other [OF laws(1) d2(1), of loaded_schemas "[name]"] ydb_get_set [OF laws(1) d1(1), of "MAX_STR_CONST cfg"] n
    by simp
  ultimately show ?thesis by (intro exI [of _ db2]) simp
qed

lemma find_missing:
  assumes "quiet cfg" "nul_free name" "CHR ''.'' \<notin> set name"
    and "ydb_get_s (c_api cfg) (s_db s) loaded_schemas [name] (MAX_STR_CONST cfg) \<in> {YDB_ERR_GVUNDEF, YDB_ERR_LVUNDEF}"
    and v: "visits (c_api cfg) (s_db s) (gn_schema cfg) [name, ''b''] [] []"
  shows "find_table cfg decompress name s = Done (None, s)"
proof -
  have "session_get cfg loaded_schemas [name] s = Done (None, s)"
    using assms by (intro session_get_undefined) simp
  moreover have "count_subscripts cfg (gn_schema cfg) [name, ''b''] [] 0 s = Done (0, s)"
    using count_subscripts_visits [OF v, of 0] by simp
  ultimately show ?thesis
    using assms(3) by (subst find_table.simps) (simp add: octo_log_quiet [OF assms(1)] act_defs)
qed

section \<open>Properties\<close>


definition sample_schema :: SqlTable where
  "sample_schema =
     \<lparr>tableName = ''t'', st_source = None,
      st_columns = [\<lparr>columnName = ''a'', sc_type = INTEGER_TYPE, sc_keywords = [(PRIMARY_KEY, [])]\<rparr>], st_delim = None\<rparr>"


end
