(* ===== verification/Query_Runner.thy ===== *)
theory Query_Runner
  imports Schema_Store
begin

text \<open>
  Running queries: \<open>run_query\<close> (\<open>run_query.c\<close>), the
  callback \<open>handle_query_response\<close> that sends the result of a query to the client, and \<open>get_plan_row_description\<close>.
  The parser, which is generated, and the code generator with the M routines it writes and calls are fields of
  the record \<open>engine\<close>.
\<close>

section \<open>Statements\<close>

datatype 'q sql_stmt =
    Select_stmt 'q
  | Table_stmt SqlTable
  | Drop_stmt string
  | Insert_stmt
  | Begin_stmt
  | Commit_stmt
  | Set_stmt string string
  | Show_stmt string
  | No_data_stmt
  | Invalid_stmt

text \<open>
  The parser reads the input from an index on. It gives a statement or none, the index it has reached, whether it
  came to the end of the input, what it adds to the error buffer, and the database, in which it caches tables.
  A query has a hash of its canonical form. A plan may exist as a file, is emitted under a lock into a file and run
  by \<open>ydb_ci\<close>, which fills a cursor.
\<close>

record ('db, 'q) engine =
  yyparse :: "string \<Rightarrow> nat \<Rightarrow> 'db \<Rightarrow> 'q sql_stmt option \<times> nat \<times> bool \<times> string \<times> 'db"
  canonical_hash :: "'q \<Rightarrow> u64 \<times> u64"
  plan_exists :: "string \<Rightarrow> 'db \<Rightarrow> bool"
  lock_file :: "string \<Rightarrow> 'db \<Rightarrow> 'db"
  unlock_file :: "string \<Rightarrow> 'db \<Rightarrow> 'db"
  emit_select_statement :: "'q \<Rightarrow> string \<Rightarrow> 'db \<Rightarrow> 'db option"
  ydb_ci_select :: "int \<Rightarrow> string \<Rightarrow> string \<Rightarrow> 'db \<Rightarrow> 'db ydb_status"
  compress_statement :: "SqlTable \<Rightarrow> string"

section \<open>The description of a plan's columns\<close>

definition count_columns :: "'db octo_config \<Rightarrow> string list \<Rightarrow> ('db, nat) act" where
  "count_columns cfg subs = count_subscripts cfg (gn_octo cfg) subs [] 0"

text \<open>
  The value of a node with a number: the byte behind the value is set to zero, so it must not fill the buffer.
\<close>

definition meta_text :: "'db octo_config \<Rightarrow> string list \<Rightarrow> ('db, string) act" where
  "meta_text cfg subs =
     seq (db_get cfg (gn_octo cfg) subs (MAX_STR_CONST cfg)) (ydb_check cfg)"

definition meta_int :: "'db octo_config \<Rightarrow> string list \<Rightarrow> ('db, int) act" where
  "meta_int cfg subs =
     seq (meta_text cfg subs) (\<lambda>v.
       let n = atoi (cstr v) in
       if MAX_STR_CONST cfg \<le> length v \<or> n < - (2 ^ 31) \<or> 2 ^ 31 \<le> n then (\<lambda>s. Undefined) else ret n)"

definition column_parm :: "'db octo_config \<Rightarrow> string list \<Rightarrow> ('db, RowDescriptionParm) act" where
  "column_parm cfg subs =
     seq (meta_text cfg (subs @ [''name''])) (\<lambda>name.
     seq (meta_int cfg (subs @ [''table_id''])) (\<lambda>table_id.
     seq (meta_int cfg (subs @ [''column_id''])) (\<lambda>column_id.
     seq (meta_int cfg (subs @ [''data_type''])) (\<lambda>data_type.
     seq (meta_int cfg (subs @ [''data_type_size''])) (\<lambda>data_type_size.
     seq (meta_int cfg (subs @ [''type_modifier''])) (\<lambda>type_modifier.
     seq (meta_int cfg (subs @ [''format_code''])) (\<lambda>format_code.
     ret \<lparr>rd_name = cstr name, rd_table_id = of_int table_id, rd_column_id = of_int column_id,
       rd_data_type = of_int data_type, rd_data_type_size = of_int data_type_size,
       rd_type_modifier = of_int type_modifier, rd_format_code = of_int format_code\<rparr>)))))))"

text \<open>The second loop fills an array of the size the first one counted.\<close>

fun fill_columns :: "'db octo_config \<Rightarrow> string list \<Rightarrow> string \<Rightarrow> nat \<Rightarrow> ('db, RowDescriptionParm list) act" where
  "fill_columns cfg subs column room =
     seq (next_subscript cfg (gn_octo cfg) (subs @ [column])) (\<lambda>r.
       case r of
         None \<Rightarrow> ret []
       | Some c \<Rightarrow>
           (case room of
              0 \<Rightarrow> (\<lambda>s. Undefined)
            | Suc n \<Rightarrow> seq (column_parm cfg (subs @ [c])) (\<lambda>p. seq (fill_columns cfg subs c n) (\<lambda>ps. ret (p # ps)))))"

declare fill_columns.simps [simp del]

definition get_plan_row_description :: "'db octo_config \<Rightarrow> string \<Rightarrow> ('db, BaseMessage) act" where
  "get_plan_row_description cfg plan_filename =
     (let subs = [''plan_metadata'', plan_filename, ''output_columns''] in
      seq (count_columns cfg subs) (\<lambda>num_columns.
      seq (fill_columns cfg subs [] num_columns) (\<lambda>parms.
      defined (make_row_description
        (parms @ replicate (num_columns - length parms)
          \<lparr>rd_name = [], rd_table_id = 0, rd_column_id = 0, rd_data_type = 0, rd_data_type_size = 0,
           rd_type_modifier = 0, rd_format_code = 0\<rparr>) (of_nat num_columns)))))"

section \<open>Sending a result\<close>

record QueryResponseParms =
  data_sent :: bool
  max_data_to_send :: int

definition send_command_complete :: "'db octo_config \<Rightarrow> string \<Rightarrow> ('db, int) act" where
  "send_command_complete cfg tag = seq (defined (make_command_complete (Some tag))) (session_send cfg)"

text \<open>The columns of a row: the text up to a zero byte, cut at every bar.\<close>

fun split_row :: "string \<Rightarrow> string \<Rightarrow> DataRowParm list" where
  "split_row cur [] = [\<lparr>dp_length = of_nat (length cur), dp_value = cur\<rparr>]"
| "split_row cur (c # cs) =
     (if c = CHR ''|'' then \<lparr>dp_length = of_nat (length cur), dp_value = cur\<rparr> # split_row [] cs
      else split_row (cur @ [c]) cs)"

definition send_row :: "'db octo_config \<Rightarrow> string \<Rightarrow> ('db, int) act" where
  "send_row cfg row =
     (if MAX_STR_CONST cfg \<le> length row then (\<lambda>s. Undefined)
      else
        let parms = split_row [] (cstr row) in
        seq (defined (make_data_row parms (of_nat (length parms)))) (session_send cfg))"

text \<open>
  The rows of a cursor: \<open>left\<close> is how many may still be sent, \<open>row_count\<close> how many were.
\<close>

primrec send_rows :: "nat \<Rightarrow> 'db octo_config \<Rightarrow> string list \<Rightarrow> string \<Rightarrow> nat \<Rightarrow> ('db, nat) act" where
  "send_rows 0 cfg subs row_id row_count = ret row_count"
| "send_rows (Suc left) cfg subs row_id row_count =
     seq (db_get cfg (gn_cursor cfg) (subs @ [row_id]) (MAX_STR_CONST cfg)) (\<lambda>status.
     seq (ydb_check cfg status) (\<lambda>row.
     seq (send_row cfg row) (\<lambda>_.
     seq (next_subscript cfg (gn_cursor cfg) (subs @ [row_id])) (\<lambda>r.
     case r of
       None \<Rightarrow> ret (row_count + 1)
     | Some next_id \<Rightarrow> send_rows left cfg subs next_id (row_count + 1)))))"

definition respond_set :: "'db octo_config \<Rightarrow> string \<Rightarrow> string \<Rightarrow> ('db, unit) act" where
  "respond_set cfg variable value =
     seq (gets session_id) (\<lambda>sid.
     seq (session_set cfg value (gn_session cfg) [sid, ''variables'', variable]) (\<lambda>_.
     seq (send_command_complete cfg ''SET'') (\<lambda>_. ret ())))"

text \<open>
  The second look-up passes two of its three subscripts. The value comes without a zero byte at its end, so
  that its length depends on what the memory behind it holds.
\<close>

definition respond_show :: "'db octo_config \<Rightarrow> string \<Rightarrow> ('db, unit) act" where
  "respond_show cfg variable =
     seq (gets session_id) (\<lambda>sid.
     seq (session_get cfg (gn_session cfg) [sid, ''variables'', variable]) (\<lambda>v1.
     seq (case v1 of Some v \<Rightarrow> ret (Some v) | None \<Rightarrow> session_get cfg (gn_octo cfg) [sid, ''variables'']) (\<lambda>v2.
     let memory = (case v2 of None \<Rightarrow> [NUL] | Some v \<Rightarrow> v @ drop (length v) (fresh_memory cfg)); value = cstr memory in
     seq (defined (make_row_description
       [\<lparr>rd_name = variable, rd_table_id = 0, rd_column_id = 0, rd_data_type = 0, rd_data_type_size = 0,
         rd_type_modifier = 0, rd_format_code = 0\<rparr>] 1)) (\<lambda>description.
     seq (session_send cfg description) (\<lambda>_.
     seq (if nul_free memory then (\<lambda>s. Undefined)
          else defined (make_data_row [\<lparr>dp_length = of_nat (length value), dp_value = value\<rparr>] 1)) (\<lambda>data_row.
     seq (session_send cfg data_row) (\<lambda>_.
     seq (send_command_complete cfg ''SHOW'') (\<lambda>_. ret ()))))))))"

text \<open>
  The rows of a plan. An empty result ends the function before the message that completes the command. The
  result is how many rows may be sent, as the parameter record has it afterwards.
\<close>

definition respond_cursor :: "'db octo_config \<Rightarrow> int \<Rightarrow> string list \<Rightarrow> string \<Rightarrow> int \<Rightarrow> ('db, int) act" where
  "respond_cursor cfg cursor_id subs row_id max_data =
     (let max_rows = (if max_data \<le> 0 then 2 ^ 31 - 1 else max_data) in
      seq (send_rows (nat max_rows) cfg subs row_id 0) (\<lambda>row_count.
      seq (change (\<lambda>s. if auto_clean_tables cfg
             then s\<lparr>s_db := (case ydb_delete_s (c_api cfg) (s_db s) (gn_cursor cfg) [int_dec cursor_id] of YDB_OK db \<Rightarrow> db | _ \<Rightarrow> s_db s)\<rparr> else s)) (\<lambda>_.
      seq (send_command_complete cfg (''SELECT '' @ nat_dec row_count)) (\<lambda>_. ret max_rows))))"

definition respond_rows :: "'db octo_config \<Rightarrow> int \<Rightarrow> string \<Rightarrow> int \<Rightarrow> ('db, int) act" where
  "respond_rows cfg cursor_id plan_name max_data =
     seq (get_plan_row_description cfg plan_name) (\<lambda>row_description.
     seq (session_send cfg row_description) (\<lambda>_.
     seq (session_get cfg ''^%ydboctoocto'' [''plan_metadata'', plan_name, ''output_key'']) (\<lambda>output_key.
     case output_key of
       None \<Rightarrow> seq (octo_log cfg FATAL (Internal ERR_DATABASE_FILES_OOS) [ArgS []]) (\<lambda>_. ret max_data)
     | Some key_id \<Rightarrow>
         let subs = [int_dec cursor_id, ''keys'', key_id, [], []] in
         seq (next_subscript cfg (gn_cursor cfg) (subs @ [[]])) (\<lambda>first.
         case first of
           None \<Rightarrow> ret max_data
         | Some row_id \<Rightarrow> respond_cursor cfg cursor_id subs row_id max_data))))"

definition handle_query_response ::
  "'db octo_config \<Rightarrow> 'q sql_stmt \<Rightarrow> int \<Rightarrow> QueryResponseParms \<Rightarrow> string \<Rightarrow> ('db, QueryResponseParms) act" where
  "handle_query_response cfg stmt cursor_id parms plan_name =
     (case stmt of
        Set_stmt variable value \<Rightarrow> seq (respond_set cfg variable value) (\<lambda>_. ret parms)
      | Show_stmt variable \<Rightarrow> seq (respond_show cfg variable) (\<lambda>_. ret (parms\<lparr>data_sent := True\<rparr>))
      | _ \<Rightarrow> seq (respond_rows cfg cursor_id plan_name (max_data_to_send parms)) (\<lambda>m.
               ret (parms\<lparr>data_sent := True, max_data_to_send := m\<rparr>)))"

section \<open>Running a query\<close>

definition parse_line :: "'db octo_config \<Rightarrow> ('db, 'q) engine \<Rightarrow> ('db, 'q sql_stmt option) act" where
  "parse_line cfg eng =
     seq (gets (\<lambda>s. yyparse eng (input_buffer_combined s) (cur_input_index s) (s_db s))) (\<lambda>(result, index, eof, errors, db).
     seq (change (\<lambda>s. s\<lparr>cur_input_index := index, eof_hit := eof_hit s \<or> eof, err_buffer := err_buffer s @ errors, s_db := db\<rparr>)) (\<lambda>_.
     case result of
       None \<Rightarrow> seq (gets input_buffer_combined) (\<lambda>line.
                seq (octo_log cfg ERROR (Internal ERR_PARSING_COMMAND) [ArgS line]) (\<lambda>_. ret None))
     | Some stmt \<Rightarrow> seq (change (\<lambda>s. s\<lparr>cur_input_index := cur_input_index s - 1\<rparr>)) (\<lambda>_. ret (Some stmt))))"

definition plan_filename :: "'db octo_config \<Rightarrow> string \<Rightarrow> string" where
  "plan_filename cfg routine = take (MAX_STR_CONST cfg - 1) (tmp_dir cfg @ ''/_'' @ tl routine @ ''.m'')"

text \<open>
  The file of a plan is written if it does not exist, with a second look under the lock. \<open>False\<close> is a plan that
  could not be made.
\<close>

definition ensure_plan :: "('db, 'q) engine \<Rightarrow> 'q \<Rightarrow> string \<Rightarrow> ('db, bool) act" where
  "ensure_plan eng q filename =
     seq (gets s_db) (\<lambda>db0.
       if plan_exists eng filename db0 then ret True
       else
         let db = lock_file eng filename db0; unlock = (\<lambda>db. change (\<lambda>s. s\<lparr>s_db := unlock_file eng filename db\<rparr>)) in
         if plan_exists eng filename db then seq (unlock db) (\<lambda>_. ret True)
         else case emit_select_statement eng q filename db of
           None \<Rightarrow> seq (unlock db) (\<lambda>_. ret False)
         | Some db' \<Rightarrow> seq (unlock db') (\<lambda>_. ret True))"

text \<open>
  The array for the name of the routine lacks one byte for the zero byte at its end (\<open>routine_names_correct\<close>); the byte
  behind it is taken to be unused.
\<close>

definition run_select ::
  "'db octo_config \<Rightarrow> ('db, 'q) engine \<Rightarrow> 'q \<Rightarrow> int \<Rightarrow> (string \<Rightarrow> ('db, 'p) act) \<Rightarrow> 'p \<Rightarrow> ('db, 'p) act" where
  "run_select cfg eng q cursor_id callback parms =
     seq (defined (generate_routine_name (canonical_hash eng q) (MAX_ROUTINE_LEN + 1) (MAX_STR_CONST cfg) OutputPlan)) (\<lambda>routine.
       let filename = plan_filename cfg routine in
       seq (ensure_plan eng q filename) (\<lambda>made.
       if \<not> made then ret parms
       else seq (gets s_db) (\<lambda>db.
            seq (ydb_check cfg (ydb_ci_select eng cursor_id filename routine db)) (\<lambda>db'.
            seq (change (\<lambda>s. s\<lparr>s_db := db'\<rparr>)) (\<lambda>_. callback filename)))))"

text \<open>
  The result is the return value and the parameters of the callback afterwards. The number of the cursor is a
  \<open>long\<close>, of which the callback gets an \<open>int\<close>.
\<close>

definition to_int :: "int \<Rightarrow> int" where
  "to_int n = sint (of_int n :: i32)"

definition run_query ::
  "'db octo_config \<Rightarrow> ('db, 'q) engine \<Rightarrow> string \<Rightarrow>
    ('q sql_stmt \<Rightarrow> int \<Rightarrow> 'p \<Rightarrow> string \<Rightarrow> ('db, 'p) act) \<Rightarrow> 'p \<Rightarrow> ('db, bool \<times> 'p) act" where
  "run_query cfg eng query callback parms =
     seq (octo_log cfg INFO CUSTOM_ERROR [ArgS ''Parsing SQL command %s'', ArgS query]) (\<lambda>_.
     seq (parse_line cfg eng) (\<lambda>result.
     seq (octo_log cfg INFO CUSTOM_ERROR [ArgS ''Done!'']) (\<lambda>_.
     case result of
       None \<Rightarrow> seq (octo_log cfg INFO CUSTOM_ERROR [ArgS ''Returning failure from run_query'']) (\<lambda>_. ret (False, parms))
     | Some stmt \<Rightarrow>
         if dry_run cfg \<or> stmt = No_data_stmt then ret (True, parms)
         else
           seq (db_incr cfg (gn_schema cfg) []) (\<lambda>cursor.
           seq (octo_log cfg INFO CUSTOM_ERROR [ArgS ''Generating SQL for cursor %s'', ArgS cursor]) (\<lambda>_.
           seq (case stmt of
                  Select_stmt q \<Rightarrow> run_select cfg eng q (atoi cursor) (callback stmt (to_int (atoi cursor)) parms) parms
                | Table_stmt table \<Rightarrow> seq (create_table cfg (compress_statement eng) table) (\<lambda>_. ret parms)
                | Drop_stmt name \<Rightarrow> seq (drop_table cfg name) (\<lambda>_. ret parms)
                | Insert_stmt \<Rightarrow> seq (octo_log cfg WARNING (Other ERR_FEATURE_NOT_IMPLEMENTED) [ArgS ''table inserts'']) (\<lambda>_. ret parms)
                | Begin_stmt \<Rightarrow> seq (octo_log cfg WARNING (Other ERR_FEATURE_NOT_IMPLEMENTED) [ArgS ''transactions'']) (\<lambda>_. ret parms)
                | Commit_stmt \<Rightarrow> seq (octo_log cfg WARNING (Other ERR_FEATURE_NOT_IMPLEMENTED) [ArgS ''transactions'']) (\<lambda>_. ret parms)
                | Set_stmt variable value \<Rightarrow> callback stmt (to_int (atoi cursor)) parms []
                | Show_stmt variable \<Rightarrow> callback stmt (to_int (atoi cursor)) parms []
                | _ \<Rightarrow> seq (octo_log cfg FATAL (Other ERR_FEATURE_NOT_IMPLEMENTED) [ArgS query]) (\<lambda>_. ret parms))
             (\<lambda>parms'. ret (True, parms')))))))"

end
