(* ===== verification/Rocto_Handlers.thy ===== *)
theory Rocto_Handlers
  imports Query_Runner
begin

text \<open>
  The handlers of the client's messages: \<open>handle_parse\<close>, \<open>handle_bind\<close>, \<open>handle_execute\<close>, \<open>handle_query\<close> and
  \<open>handle_describe\<close>. A prepared statement is the node (session, \<open>prepared\<close>, name) of the session global, a bound
  one (session, \<open>bound\<close>, name). The result is the return value of the function.
\<close>

section \<open>Parse and Bind\<close>

definition handle_parse :: "'db octo_config \<Rightarrow> Parse \<Rightarrow> ('db, int) act" where
  "handle_parse cfg parse =
     seq (gets session_id) (\<lambda>sid.
     seq (octo_log cfg TRACE (Trace ERR_ENTERING_FUNCTION) [ArgS ''handle_parse'']) (\<lambda>_.
     seq (db_set cfg (gn_session cfg) [sid, ''prepared'', p_dest parse] (p_query parse)) (\<lambda>_.
     seq (session_send cfg make_parse_complete) (\<lambda>_. ret 0))))"

definition bind_source :: "Bind \<Rightarrow> string" where
  "bind_source b = cstr (drop (b_source b) (b_data b))"

definition bind_dest :: "Bind \<Rightarrow> string" where
  "bind_dest b = cstr (drop (b_dest b) (b_data b))"

definition handle_bind :: "'db octo_config \<Rightarrow> Bind \<Rightarrow> ('db, int) act" where
  "handle_bind cfg b =
     seq (gets session_id) (\<lambda>sid.
     seq (octo_log cfg TRACE (Trace ERR_ENTERING_FUNCTION) [ArgS ''handle_bind'']) (\<lambda>_.
     seq (db_get cfg (gn_session cfg) [sid, ''prepared'', bind_source b] (MAX_STR_CONST cfg - 1)) (\<lambda>status.
     if status = YDB_ERR_GVUNDEF then
       seq (send_error cfg PSQL_Error_ERROR PSQL_Code_Invalid_Sql_Statement_Name ''Bind to unknown query attempted'') (\<lambda>_. ret (-1))
     else seq (ydb_check cfg status) (\<lambda>sql_expression.
       case bind_loop (MAX_STR_CONST cfg) b sql_expression [] of
         Undefined \<Rightarrow> (\<lambda>s. Undefined)
       | Failed e \<Rightarrow> seq (send_error cfg PSQL_Error_ERROR (de_code e) (de_text e)) (\<lambda>_. ret (-1))
       | Done new_query \<Rightarrow>
           seq (db_set cfg (gn_session cfg) [sid, ''bound'', bind_dest b] new_query) (\<lambda>_.
           seq (session_send cfg make_bind_complete) (\<lambda>_. ret 0))))))"

section \<open>Query\<close>

text \<open>
  What the parser and the planner wrote to the error buffer goes to the client, and the buffer is emptied.
\<close>

definition report_errors :: "'db octo_config \<Rightarrow> ('db, unit) act" where
  "report_errors cfg =
     seq (gets err_buffer) (\<lambda>err_buff.
     seq (send_error cfg PSQL_Error_ERROR PSQL_Code_Syntax_Error err_buff) (\<lambda>_. change (\<lambda>s. s\<lparr>err_buffer := []\<rparr>)))"

definition start_input :: "string \<Rightarrow> ('db, unit) act" where
  "start_input query = change (\<lambda>s. s\<lparr>input_buffer_combined := query, eof_hit := False, cur_input_index := 0, err_buffer := []\<rparr>)"

primrec query_loop :: "nat \<Rightarrow> 'db octo_config \<Rightarrow> ('db, 'q) engine \<Rightarrow> QueryResponseParms \<Rightarrow> ('db, unit) act" where
  "query_loop 0 cfg eng parms = (\<lambda>s. Failed (Stop_looping, s))"
| "query_loop (Suc n) cfg eng parms =
     seq (gets input_buffer_combined) (\<lambda>query.
     seq (run_query cfg eng query (handle_query_response cfg) parms) (\<lambda>(result, parms').
     seq (if result then ret () else report_errors cfg) (\<lambda>_.
     seq (gets eof_hit) (\<lambda>eof.
     if eof then ret () else query_loop n cfg eng parms'))))"

definition handle_query :: "'db octo_config \<Rightarrow> ('db, 'q) engine \<Rightarrow> Query \<Rightarrow> ('db, int) act" where
  "handle_query cfg eng query =
     (let query_length = length (q_query query) in
      if query_length = 0 then seq (session_send cfg make_empty_query_response) (\<lambda>_. ret 0)
      else if cur_input_max cfg < int query_length then
        seq (send_error cfg PSQL_Error_ERROR PSQL_Code_Protocol_Violation ''query length exceeeded maximum size'') (\<lambda>_. ret 0)
      else if MAX_STR_CONST cfg \<le> query_length then (\<lambda>s. Undefined)
      else seq (start_input (q_query query)) (\<lambda>_.
           seq (query_loop (query_bound cfg) cfg eng \<lparr>data_sent = False, max_data_to_send = 0\<rparr>) (\<lambda>_. ret 0)))"

section \<open>Execute\<close>

primrec execute_loop :: "nat \<Rightarrow> 'db octo_config \<Rightarrow> ('db, 'q) engine \<Rightarrow> QueryResponseParms \<Rightarrow> ('db, unit) act" where
  "execute_loop 0 cfg eng parms = (\<lambda>s. Failed (Stop_looping, s))"
| "execute_loop (Suc n) cfg eng parms =
     seq (gets input_buffer_combined) (\<lambda>query.
     seq (run_query cfg eng query (handle_query_response cfg) (parms\<lparr>data_sent := False\<rparr>)) (\<lambda>(result, parms').
     seq (gets eof_hit) (\<lambda>eof.
     seq (if \<not> result \<and> \<not> eof then report_errors cfg else ret ()) (\<lambda>_.
     seq (if data_sent parms' then ret 0 else session_send cfg make_empty_query_response) (\<lambda>_.
     if eof then ret () else execute_loop n cfg eng parms')))))"

definition execute_text :: "'db octo_config \<Rightarrow> ('db, 'q) engine \<Rightarrow> i32 \<Rightarrow> string \<Rightarrow> ('db, int) act" where
  "execute_text cfg eng rows query =
     (if cur_input_max cfg < int (length query) + 2 then
        seq (send_error cfg PSQL_Error_ERROR PSQL_Code_Protocol_Violation ''execute query length exceeeded maximum size'') (\<lambda>_. ret 0)
      else if MAX_STR_CONST cfg \<le> length query then (\<lambda>s. Undefined)
      else seq (start_input query) (\<lambda>_.
           seq (execute_loop (query_bound cfg) cfg eng \<lparr>data_sent = False, max_data_to_send = sint rows\<rparr>) (\<lambda>_. ret 0)))"

text \<open>The bound statement is read with room for the zero byte that is then set behind it.\<close>

definition handle_execute :: "'db octo_config \<Rightarrow> ('db, 'q) engine \<Rightarrow> Execute \<Rightarrow> ('db, int) act" where
  "handle_execute cfg eng execute =
     seq (gets session_id) (\<lambda>sid.
     seq (octo_log cfg TRACE (Trace ERR_ENTERING_FUNCTION) [ArgS ''handle_execute'']) (\<lambda>_.
     seq (db_get cfg (gn_session cfg) [sid, ''bound'', e_source execute] (MAX_STR_CONST cfg - 1)) (\<lambda>status.
     seq (ydb_check cfg status) (\<lambda>sql_expression.
     execute_text cfg eng (e_rows_to_return execute) (cstr sql_expression)))))"

section \<open>Describe\<close>

text \<open>
  The statement is read into a buffer of \<open>MAX_STR_CONST\<close> bytes and copied to the input buffer, of the same size,
  with a zero byte behind it. A plan that cannot be made is reported with the text of a stream that was not
  flushed, a pointer without a value.
\<close>

definition describe_plan :: "'db octo_config \<Rightarrow> ('db, 'q) engine \<Rightarrow> 'q \<Rightarrow> ('db, unit) act" where
  "describe_plan cfg eng q =
     seq (defined (generate_routine_name (canonical_hash eng q) (MAX_STR_CONST cfg) (MAX_STR_CONST cfg) OutputPlan)) (\<lambda>routine.
       let filename = plan_filename cfg routine in
       if MAX_STR_CONST cfg < length (tmp_dir cfg @ ''/_'' @ tl routine @ ''.m'') then
         octo_log cfg FATAL (Data ERR_BUFFER_TOO_SMALL) [ArgS []]
       else seq (ensure_plan eng q filename) (\<lambda>made.
            if made then seq (get_plan_row_description cfg filename) (\<lambda>description.
              seq (session_send cfg description) (\<lambda>_. ret ()))
            else (\<lambda>s. Undefined)))"

definition describe_statement :: "'db octo_config \<Rightarrow> ('db, 'q) engine \<Rightarrow> 'q sql_stmt \<Rightarrow> ('db, unit) act" where
  "describe_statement cfg eng stmt =
     seq (db_incr cfg (gn_schema cfg) []) (\<lambda>_.
     case stmt of
       Select_stmt q \<Rightarrow> describe_plan cfg eng q
     | No_data_stmt \<Rightarrow> seq (session_send cfg make_no_data) (\<lambda>_. ret ())
     | _ \<Rightarrow> seq (defined (make_row_description [] 0)) (\<lambda>description. seq (session_send cfg description) (\<lambda>_. ret ())))"

primrec describe_loop :: "nat \<Rightarrow> 'db octo_config \<Rightarrow> ('db, 'q) engine \<Rightarrow> ('db, unit) act" where
  "describe_loop 0 cfg eng = (\<lambda>s. Failed (Stop_looping, s))"
| "describe_loop (Suc n) cfg eng =
     seq (parse_line cfg eng) (\<lambda>statement.
     seq (case statement of None \<Rightarrow> report_errors cfg | Some stmt \<Rightarrow> describe_statement cfg eng stmt) (\<lambda>_.
     seq (gets eof_hit) (\<lambda>eof.
     if eof then ret () else describe_loop n cfg eng)))"

definition handle_describe :: "'db octo_config \<Rightarrow> ('db, 'q) engine \<Rightarrow> Describe \<Rightarrow> ('db, int) act" where
  "handle_describe cfg eng describe =
     (let kind = (if d_item describe = CHR ''S'' then ''prepared'' else ''bound'') in
      seq (gets session_id) (\<lambda>sid.
      seq (db_get cfg (gn_session cfg) [sid, kind, d_name describe] (MAX_STR_CONST cfg)) (\<lambda>status.
      seq (ydb_check cfg status) (\<lambda>sql_expression.
      if MAX_STR_CONST cfg \<le> length sql_expression then (\<lambda>s. Undefined)
      else seq (start_input (cstr sql_expression)) (\<lambda>_.
           seq (describe_loop (query_bound cfg) cfg eng) (\<lambda>_. ret 0))))))"

end
