(* ===== verification/Rocto_Server.thy ===== *)
theory Rocto_Server
  imports Rocto_Handlers
begin

text \<open>
  A connection from its first byte to its last: the part of \<open>main\<close> (\<open>rocto.c\<close>) that the process of a connection
  runs, with the startup message, the authentication and the parameters of the session, and \<open>rocto_main_loop\<close>, which
  reads messages and hands them to their handlers.
\<close>

section \<open>The surroundings\<close>

text \<open>
  What the process gets from its configuration and its libraries: whether TLS is configured and its context and
  socket can be made, the hash function, the random salt, and the numbers and texts of system errors.
\<close>

record rocto_env =
  ssl_on :: bool
  tls_context :: bool
  tls_socket :: bool
  md5_hash :: "string \<Rightarrow> string"
  getrandom :: "string \<Rightarrow> string"
  errno_number :: "errno \<Rightarrow> i32"
  strerror :: "errno \<Rightarrow> string"
  tls_error :: string

section \<open>Reading\<close>

text \<open>
  \<open>read_bytes\<close> and \<open>read_message\<close> of a session, with what they log. The left value is the result of a read that
  failed, after which nothing more is read.
\<close>

definition read_error_args :: "rocto_env \<Rightarrow> nat \<Rightarrow> int \<Rightarrow> net_event option \<Rightarrow> octo_error \<Rightarrow> fmt_arg list" where
  "read_error_args env buffer_size n ev e =
     (if e = Data ERR_READ_TOO_LARGE then [ArgD (of_int n), ArgD (of_nat buffer_size)]
      else if e = Data ERR_INVALID_READ_SIZE then [ArgD (of_int n)]
      else if e = System ERR_SYSCALL then
        (case ev of Some (Net_error x) \<Rightarrow> [ArgS ''read'', ArgD (errno_number env x), ArgS (strerror env x)] | _ \<Rightarrow> [])
      else [ArgS []])"

definition session_read_bytes :: "rocto_env \<Rightarrow> 'db octo_config \<Rightarrow> int \<Rightarrow> ('db, int + string) act" where
  "session_read_bytes env cfg n s =
     (case read_bytes (ssl_active s) (s_in s) (int (MAX_STR_CONST cfg)) n of
        Read_ok bs evs \<Rightarrow> Done (Inr bs, s\<lparr>s_in := evs\<rparr>)
      | Read_error c e \<Rightarrow>
          seq (octo_log cfg (if e = Trace ERR_ROCTO_CLEAN_DISCONNECT then INFO else WARNING) e
                 (read_error_args env (MAX_STR_CONST cfg) n (closing (ssl_active s) (s_in s)) e)) (\<lambda>_. ret (Inl c)) s
      | Read_fatal e \<Rightarrow> fatal cfg e [ArgS (tls_error env)] s
      | Read_blocked \<Rightarrow> Failed (Stop_blocked, s))"

definition session_read_message :: "rocto_env \<Rightarrow> 'db octo_config \<Rightarrow> ('db, int + BaseMessage) act" where
  "session_read_message env cfg =
     seq (session_read_bytes env cfg 5) (\<lambda>header.
     case header of
       Inl c \<Rightarrow> ret (Inl c)
     | Inr hdr \<Rightarrow>
         seq (session_read_bytes env cfg (sint (ntohl (drop 1 hdr) - 4))) (\<lambda>rest.
         case rest of
           Inl c \<Rightarrow> ret (Inl c)
         | Inr dat \<Rightarrow>
             if int (MAX_STR_CONST cfg) < 5 + int (length dat) then (\<lambda>s. Undefined)
             else ret (Inr \<lparr>mtype = hd hdr, mlength = drop 1 hdr, mdata = dat\<rparr>)))"

section \<open>The main loop\<close>

definition answer_error :: "'db octo_config \<Rightarrow> reader_error \<Rightarrow> ('db, int) act" where
  "answer_error cfg e =
     seq (defined (reader_error_response (MAX_STR_CONST cfg)
            \<lparr>eb_buffer = replicate (MAX_STR_CONST cfg) NUL, eb_offset = 0\<rparr> e)) (\<lambda>err. session_send cfg (BaseMessage.truncate err))"

fun handled :: "'db octo_config \<Rightarrow> (reader_error, 'm) outcome \<Rightarrow> ('m \<Rightarrow> ('db, int \<times> bool) act) \<Rightarrow> ('db, int \<times> bool) act" where
  "handled cfg Undefined f = (\<lambda>s. Undefined)"
| "handled cfg (Failed e) f = seq (answer_error cfg e) (\<lambda>_. ret (0, True))"
| "handled cfg (Done m) f = f m"

text \<open>
  A message and its handler. The results are the one of the handler and whether the client is told, before the next
  message, that the server is ready. \<open>Terminate\<close> is passed over like a message of an unknown type.
\<close>

definition dispatch :: "'db octo_config \<Rightarrow> ('db, 'q) engine \<Rightarrow> BaseMessage \<Rightarrow> ('db, int \<times> bool) act" where
  "dispatch cfg eng m =
     (let ready = (\<lambda>act. seq act (\<lambda>result. ret (result, True))) in
      if mtype m = PSQL_Bind then handled cfg (read_bind m) (\<lambda>(b, err). ready (handle_bind cfg b))
      else if mtype m = PSQL_Query then handled cfg (read_query m) (\<lambda>query. ready (handle_query cfg eng query))
      else if mtype m = PSQL_Execute then
        handled cfg (read_execute m) (\<lambda>execute. seq (handle_execute cfg eng execute) (\<lambda>result. ret (result, result = 1)))
      else if mtype m = PSQL_Parse then handled cfg (read_parse m) (\<lambda>parse. ready (handle_parse cfg parse))
      else if mtype m = PSQL_Sync then ret (0, True)
      else if mtype m = PSQL_Describe then handled cfg (read_describe m) (\<lambda>describe. ready (handle_describe cfg eng describe))
      else if mtype m = PSQL_Terminate then ret (0, True)
      else seq (octo_log cfg TRACE (Connection ERR_UNKNOWN_MESSAGE_TYPE) [ArgC (mtype m)]) (\<lambda>_. ret (0, True)))"

text \<open>
  What \<open>select\<close> says before each message: whether something has arrived, or that the call has failed. The loop waits
  when nothing more is known of the future.
\<close>

datatype select_event = Select_result bool | Select_failed errno

definition end_loop :: "('db, unit) act" where
  "end_loop = change (\<lambda>s. s\<lparr>sending_message := True\<rparr>)"

definition announce :: "'db octo_config \<Rightarrow> bool \<Rightarrow> bool \<Rightarrow> ('db, int) act" where
  "announce cfg arrived send_ready_for_query =
     (if \<not> arrived \<and> send_ready_for_query then session_send cfg (make_ready_for_query PSQL_TransactionStatus_IDLE) else ret 0)"

definition serve_message :: "'db octo_config \<Rightarrow> ('db, 'q) engine \<Rightarrow> BaseMessage \<Rightarrow> ('db, int \<times> bool) act" where
  "serve_message cfg eng m =
     seq (octo_log cfg TRACE (Trace ERR_READ_MESSAGE) [ArgC (mtype m), ArgD (ntohl (mlength m))]) (\<lambda>_. dispatch cfg eng m)"

primrec message_loop ::
  "select_event list \<Rightarrow> rocto_env \<Rightarrow> 'db octo_config \<Rightarrow> ('db, 'q) engine \<Rightarrow> bool \<Rightarrow> ('db, unit) act" where
  "message_loop [] env cfg eng send_ready_for_query = (\<lambda>s. Failed (Stop_blocked, s))"
| "message_loop (ev # evs) env cfg eng send_ready_for_query =
     (case ev of
        Select_failed e \<Rightarrow>
          if e = EINTR then message_loop evs env cfg eng send_ready_for_query
          else fatal cfg (System ERR_SYSCALL) [ArgS ''select'', ArgD (errno_number env e), ArgS (strerror env e)]
      | Select_result arrived \<Rightarrow>
          seq (announce cfg arrived send_ready_for_query) (\<lambda>result.
          if result \<noteq> 0 then end_loop
          else seq (session_read_message env cfg) (\<lambda>r.
               case r of
                 Inl c \<Rightarrow> end_loop
               | Inr m \<Rightarrow> seq (serve_message cfg eng m) (\<lambda>(result, ready).
                   if result = 1 then ret () else message_loop evs env cfg eng ready))))"

definition rocto_main_loop :: "select_event list \<Rightarrow> rocto_env \<Rightarrow> 'db octo_config \<Rightarrow> ('db, 'q) engine \<Rightarrow> ('db, unit) act" where
  "rocto_main_loop evs env cfg eng =
     seq (octo_log cfg TRACE (Trace ERR_ENTERING_FUNCTION) [ArgS ''rocto_main_loop'']) (\<lambda>_. message_loop evs env cfg eng True)"

section \<open>The start of a session\<close>

definition session_send_bytes :: "string \<Rightarrow> ('db, int) act" where
  "session_send_bytes bs s =
     (case s_sends s of
        [] \<Rightarrow> Failed (Stop_blocked, s)
      | (evs, result, tls_errno) # calls \<Rightarrow>
          let after = \<lambda>bs. s\<lparr>s_wire := s_wire s @ bs, s_sends := calls\<rparr> in
          case send_bytes evs bs (of_nat (length bs)) of
            Undefined \<Rightarrow> Undefined
          | Failed u \<Rightarrow> Undefined
          | Done (Send_status c bs) \<Rightarrow> Done (c, after bs)
          | Done (Send_fatal e bs) \<Rightarrow> Failed (Stop_fatal e, after bs)
          | Done (Send_blocked bs) \<Rightarrow> Failed (Stop_blocked, after bs))"

text \<open>
  The eight bytes at the start. The result of the read is not looked at, so a read that fails leaves the buffer
  without a value.
\<close>

definition read_header :: "rocto_env \<Rightarrow> 'db octo_config \<Rightarrow> ('db, string) act" where
  "read_header env cfg =
     seq (session_read_bytes env cfg 8) (\<lambda>r. case r of Inl c \<Rightarrow> (\<lambda>s. Undefined) | Inr header \<Rightarrow> ret header)"

text \<open>
  A request for TLS is answered with \<open>S\<close> or \<open>N\<close>, and the header of the startup message is read. Whatever
  \<open>gtm_tls_accept\<close> says, the connection is taken to be encrypted afterwards. \<open>None\<close> ends the connection.
\<close>

definition negotiate :: "rocto_env \<Rightarrow> 'db octo_config \<Rightarrow> ('db, string option) act" where
  "negotiate env cfg =
     seq (read_header env cfg) (\<lambda>header.
     case read_ssl_request header of
       Undefined \<Rightarrow> (\<lambda>s. Undefined)
     | Failed e \<Rightarrow> ret (Some header)
     | Done request \<Rightarrow>
         if ssl_on env then
           seq (session_send_bytes ''S'') (\<lambda>result.
           if result \<noteq> 0 \<or> \<not> tls_context env \<or> \<not> tls_socket env then ret None
           else seq (change (\<lambda>s. s\<lparr>ssl_active := True\<rparr>)) (\<lambda>_.
                seq (read_header env cfg) (\<lambda>header. ret (Some header))))
         else seq (session_send_bytes ''N'') (\<lambda>_. seq (read_header env cfg) (\<lambda>header. ret (Some header))))"

text \<open>Nothing that is logged is sent until the authentication is over: \<open>sending_message\<close> is set.\<close>

definition startup :: "'db octo_config \<Rightarrow> string \<Rightarrow> ('db, StartupMessage option) act" where
  "startup cfg header s =
     (case read_startup_message (ssl_active s) (s_in s) header of
        Undefined \<Rightarrow> Undefined
      | Failed (Stop_error e) \<Rightarrow> seq (answer_error cfg e) (\<lambda>_. ret None) s
      | Failed stop \<Rightarrow> Failed (stop, s)
      | Done (m, evs) \<Rightarrow> Done (Some m, s\<lparr>s_in := evs\<rparr>))"

definition connection_error :: "octo_error \<Rightarrow> string \<Rightarrow> reader_error" where
  "connection_error e what = protocol_error e [ArgS what]"

definition authenticate :: "rocto_env \<Rightarrow> 'db octo_config \<Rightarrow> StartupMessage \<Rightarrow> ('db, bool) act" where
  "authenticate env cfg startup_message s =
     (case make_authentication_md5_password (getrandom env) (Some s) (fresh_memory cfg) of
        (None, salt) \<Rightarrow> Undefined
      | (Some md5auth, salt) \<Rightarrow>
          seq (session_send cfg md5auth) (\<lambda>result.
          if result \<noteq> 0 then
            seq (answer_error cfg (connection_error (Connection ERR_ROCTO_SEND_FAILED) ''failed to send MD5 authentication required''))
              (\<lambda>_. ret False)
          else seq (session_read_message env cfg) (\<lambda>r.
               case r of
                 Inl c \<Rightarrow>
                   if c \<noteq> -2 then
                     seq (answer_error cfg (connection_error (Connection ERR_ROCTO_READ_FAILED) ''failed to read MD5 password''))
                       (\<lambda>_. ret False)
                   else ret False
               | Inr m \<Rightarrow>
                   (case read_password_message m of
                      Undefined \<Rightarrow> (\<lambda>s. Undefined)
                    | Failed e \<Rightarrow> seq (answer_error cfg e) (\<lambda>_. ret False)
                    | Done password_message \<Rightarrow> (\<lambda>s.
                        case handle_password_message (md5_hash env) (c_api cfg) (MAX_STR_CONST cfg) (s_db s) (gn_octo cfg)
                            password_message startup_message salt of
                          Undefined \<Rightarrow> Undefined
                        | Failed (Stop_error e) \<Rightarrow> seq (answer_error cfg e) (\<lambda>_. ret False) s
                        | Failed stop \<Rightarrow> Failed (stop, s)
                        | Done u \<Rightarrow>
                            seq (session_send cfg make_authentication_ok) (\<lambda>_.
                            seq (change (\<lambda>s. s\<lparr>sending_message := False\<rparr>)) (\<lambda>_. ret True)) s)))) s)"

text \<open>
  The variables of the session: first the default values (the result of \<open>ydb_set_s\<close> is not looked at), then the
  parameters of the startup message. All of them are reported to the client. The loops end with the last subscript;
  \<open>query_bound\<close> is a bound on their number.
\<close>

primrec copy_defaults :: "nat \<Rightarrow> 'db octo_config \<Rightarrow> string \<Rightarrow> string \<Rightarrow> ('db, unit) act" where
  "copy_defaults 0 cfg sid x = (\<lambda>s. Failed (Stop_looping, s))"
| "copy_defaults (Suc n) cfg sid x =
     seq (next_subscript cfg (gn_octo cfg) [''variables'', x]) (\<lambda>r.
     case r of
       None \<Rightarrow> ret ()
     | Some y \<Rightarrow>
         seq (db_get cfg (gn_octo cfg) [''variables'', y] (MAX_STR_CONST cfg)) (\<lambda>status.
         seq (ydb_check cfg status) (\<lambda>v.
         seq (change (\<lambda>s. case ydb_set_s (c_api cfg) (s_db s) (gn_session cfg) [sid, ''variables'', y] v of
                YDB_OK db \<Rightarrow> s\<lparr>s_db := db\<rparr> | _ \<Rightarrow> s)) (\<lambda>_.
         copy_defaults n cfg sid y))))"

primrec set_parameters :: "'db octo_config \<Rightarrow> string \<Rightarrow> StartupMessageParm list \<Rightarrow> ('db, unit) act" where
  "set_parameters cfg sid [] = ret ()"
| "set_parameters cfg sid (p # ps) =
     seq (session_set cfg (smp_value p) (gn_session cfg) [sid, ''variables'', smp_name p]) (\<lambda>_. set_parameters cfg sid ps)"

primrec report_parameters :: "nat \<Rightarrow> 'db octo_config \<Rightarrow> string \<Rightarrow> string \<Rightarrow> ('db, bool) act" where
  "report_parameters 0 cfg sid x = (\<lambda>s. Failed (Stop_looping, s))"
| "report_parameters (Suc n) cfg sid x =
     seq (next_subscript cfg (gn_session cfg) [sid, ''variables'', x]) (\<lambda>r.
     case r of
       None \<Rightarrow> ret True
     | Some y \<Rightarrow>
         seq (db_get cfg (gn_session cfg) [sid, ''variables'', y] (MAX_STR_CONST cfg)) (\<lambda>status.
         seq (ydb_check cfg status) (\<lambda>v.
         if MAX_STR_CONST cfg \<le> length y \<or> MAX_STR_CONST cfg \<le> length v then (\<lambda>s. Undefined)
         else seq (defined (make_parameter_status (Some \<lparr>smp_name = y, smp_value = v\<rparr>))) (\<lambda>m.
              case m of
                None \<Rightarrow> (\<lambda>s. Undefined)
              | Some msg \<Rightarrow> seq (session_send cfg msg) (\<lambda>result.
                  if result \<noteq> 0 then ret False else report_parameters n cfg sid y)))))"

definition open_session :: "'db octo_config \<Rightarrow> StartupMessage \<Rightarrow> ('db, bool) act" where
  "open_session cfg startup_message =
     seq (db_incr cfg (gn_session cfg) []) (\<lambda>sid.
     seq (change (\<lambda>s. s\<lparr>session_id := sid\<rparr>)) (\<lambda>_.
     seq (copy_defaults (query_bound cfg) cfg sid []) (\<lambda>_.
     seq (set_parameters cfg sid (sm_parameters startup_message)) (\<lambda>_.
     report_parameters (query_bound cfg) cfg sid []))))"

definition login :: "rocto_env \<Rightarrow> 'db octo_config \<Rightarrow> ('db, StartupMessage option) act" where
  "login env cfg =
     seq (change (\<lambda>s. s\<lparr>sending_message := True, ssl_active := False\<rparr>)) (\<lambda>_.
     seq (negotiate env cfg) (\<lambda>header.
     case header of
       None \<Rightarrow> ret None
     | Some hdr \<Rightarrow> seq (startup cfg hdr) (\<lambda>startup_message.
         case startup_message of
           None \<Rightarrow> ret None
         | Some sm \<Rightarrow> seq (authenticate env cfg sm) (\<lambda>ok. ret (if ok then Some sm else None)))))"

definition serve_connection :: "select_event list \<Rightarrow> rocto_env \<Rightarrow> 'db octo_config \<Rightarrow> ('db, 'q) engine \<Rightarrow> ('db, unit) act" where
  "serve_connection evs env cfg eng =
     seq (login env cfg) (\<lambda>startup_message.
     case startup_message of
       None \<Rightarrow> ret ()
     | Some sm \<Rightarrow> seq (open_session cfg sm) (\<lambda>reported.
         if reported then rocto_main_loop evs env cfg eng else ret ()))"

end
