(* ===== verification/Session_Frame.thy ===== *)
theory Session_Frame
  imports Rocto_Server "HOL-Library.Sublist"
begin

text \<open>
  What every handler leaves alone: it neither reads nor looks at the bytes that have not been read yet, keeps the
  identity of the session, and only adds to the bytes that were sent. \<open>local_act\<close> says this of an action, and the
  rules below prove it along the structure of the definitions. In addition, an action may write to \<open>s_tables\<close> and
  to the database.
\<close>

section \<open>Local actions\<close>

definition advances :: "'db RoctoSession \<Rightarrow> 'db RoctoSession \<Rightarrow> bool" where
  "advances s s' \<longleftrightarrow>
     session_id s' = session_id s \<and> ssl_active s' = ssl_active s \<and> prefix (s_wire s) (s_wire s')
     \<and> suffix (s_sends s') (s_sends s)"

fun put_in :: "net_event list \<Rightarrow> (stop \<times> 'db RoctoSession, 'a \<times> 'db RoctoSession) outcome
    \<Rightarrow> (stop \<times> 'db RoctoSession, 'a \<times> 'db RoctoSession) outcome" where
  "put_in evs Undefined = Undefined"
| "put_in evs (Failed (e, s)) = Failed (e, s\<lparr>s_in := evs\<rparr>)"
| "put_in evs (Done (x, s)) = Done (x, s\<lparr>s_in := evs\<rparr>)"

fun ends_in :: "(stop \<times> 'db RoctoSession, 'a \<times> 'db RoctoSession) outcome \<Rightarrow> 'db RoctoSession \<Rightarrow> bool" where
  "ends_in Undefined s' = False"
| "ends_in (Failed (e, s)) s' = (s = s')"
| "ends_in (Done (x, s)) s' = (s = s')"

definition local_act :: "('db, 'a) act \<Rightarrow> bool" where
  "local_act m \<longleftrightarrow> (\<forall>s evs. m (s\<lparr>s_in := evs\<rparr>) = put_in evs (m s)) \<and> (\<forall>s s'. ends_in (m s) s' \<longrightarrow> advances s s')"

named_theorems local_rules

lemma advances_refl [simp]: "advances s s"
  by (simp add: advances_def)

lemma advances_trans: "advances s s' \<Longrightarrow> advances s' s'' \<Longrightarrow> advances s s''"
  unfolding advances_def by (metis prefix_order.trans suffix_order.trans)

lemma advances_change_in [simp]: "advances (s\<lparr>s_in := evs\<rparr>) s' = advances s s'" "advances s (s'\<lparr>s_in := evs\<rparr>) = advances s s'"
  by (simp_all add: advances_def)

lemma local_input: "local_act m \<Longrightarrow> ends_in (m s) s' \<Longrightarrow> s_in s' = s_in s"
proof -
  assume m: "local_act m" and e: "ends_in (m s) s'"
  have "m (s\<lparr>s_in := s_in s\<rparr>) = put_in (s_in s) (m s)" using m unfolding local_act_def by blast
  then have "m s = put_in (s_in s) (m s)" by simp
  with e show "s_in s' = s_in s" by (cases rule: put_in.cases [of "(s_in s, m s)"]) (auto dest: arg_cong [where f = s_in])
qed

lemma local_advances: "local_act m \<Longrightarrow> ends_in (m s) s' \<Longrightarrow> advances s s'"
  by (simp add: local_act_def)

lemma local_session: "local_act m \<Longrightarrow> ends_in (m s) s' \<Longrightarrow> ssl_active s' = ssl_active s \<and> session_id s' = session_id s"
  using local_advances [of m s s'] by (simp add: advances_def)

lemma outcome_cases:
  obtains "m s = Undefined" | e s' where "m s = Failed (e, s')" | x s' where "m s = Done (x, s')"
  by (cases "m s") auto

lemma local_ret [local_rules]: "local_act (ret x)"
  by (simp add: local_act_def ret_def)

lemma local_undefined [local_rules]: "local_act (\<lambda>s. Undefined)"
  by (simp add: local_act_def)

lemma local_failed [local_rules]: "local_act (\<lambda>s. Failed (e, s))"
  by (simp add: local_act_def)

lemma local_seq [local_rules]:
  assumes "local_act m" "\<And>x. local_act (f x)"
  shows "local_act (seq m f)"
  unfolding local_act_def
proof (intro conjI allI impI)
  fix s evs
  show "seq m f (s\<lparr>s_in := evs\<rparr>) = put_in evs (seq m f s)"
    using assms unfolding local_act_def by (cases "m s" rule: outcome.exhaust) (auto simp: seq_def split: prod.splits)
next
  fix s s'
  assume e: "ends_in (seq m f s) s'"
  show "advances s s'"
  proof (cases rule: outcome_cases [of m s])
    case (3 x s1)
    then have "ends_in (f x s1) s'" "advances s s1" using e assms(1) by (simp_all add: seq_def local_act_def)
    then show ?thesis using assms(2) [of x] by (auto simp: local_act_def intro: advances_trans)
  next
    case (2 e s1)
    then show ?thesis using e assms(1) by (simp add: seq_def local_act_def)
  qed (use e in \<open>simp add: seq_def\<close>)
qed

lemma local_gets:
  "(\<And>s evs. f (s\<lparr>s_in := evs\<rparr>) = f s) \<Longrightarrow> local_act (gets f)"
  by (simp add: local_act_def gets_def)

lemma local_change:
  "(\<And>s evs. f (s\<lparr>s_in := evs\<rparr>) = (f s)\<lparr>s_in := evs\<rparr>) \<Longrightarrow> (\<And>s. advances s (f s)) \<Longrightarrow> local_act (change f)"
  by (simp add: local_act_def change_def)

lemma local_if [local_rules]: "(b \<Longrightarrow> local_act m) \<Longrightarrow> (\<not> b \<Longrightarrow> local_act n) \<Longrightarrow> local_act (if b then m else n)"
  by simp

lemma local_option [local_rules]:
  "local_act m \<Longrightarrow> (\<And>x. local_act (f x)) \<Longrightarrow> local_act (case opt of None \<Rightarrow> m | Some x \<Rightarrow> f x)"
  by (cases opt) simp_all

lemma local_sum [local_rules]:
  "(\<And>x. local_act (f x)) \<Longrightarrow> (\<And>x. local_act (g x)) \<Longrightarrow> local_act (case r of Inl x \<Rightarrow> f x | Inr x \<Rightarrow> g x)"
  by (cases r) simp_all

lemma local_prod [local_rules]: "(\<And>x y. local_act (f x y)) \<Longrightarrow> local_act (case p of (x, y) \<Rightarrow> f x y)"
  by (cases p) simp

lemma local_outcome [local_rules]:
  "local_act m \<Longrightarrow> (\<And>e. local_act (f e)) \<Longrightarrow> (\<And>x. local_act (g x)) \<Longrightarrow>
    local_act (case r of Undefined \<Rightarrow> m | Failed e \<Rightarrow> f e | Done x \<Rightarrow> g x)"
  by (cases r) simp_all

lemma local_let [local_rules]: "(\<And>x. local_act (f x)) \<Longrightarrow> local_act (let x = t in f x)"
  by simp

lemma local_defined [local_rules]: "local_act (defined r)"
  by (cases r) (simp_all add: local_act_def)

lemma local_eq: "(\<And>s. m s = f (k s) s) \<Longrightarrow> (\<And>s evs. k (s\<lparr>s_in := evs\<rparr>) = k s) \<Longrightarrow> (\<And>x. local_act (f x)) \<Longrightarrow> local_act m"
  unfolding local_act_def by simp

section \<open>The actions of a session\<close>

lemma local_deliver [local_rules]: "local_act (deliver m)"
  unfolding local_act_def
  by (auto simp: deliver_def advances_def Let_def suffix_def
      split: list.splits outcome.splits send_result.splits if_splits)

lemma local_sending [local_rules]: "local_act (change (\<lambda>s. s\<lparr>sending_message := b\<rparr>))"
  by (rule local_change) (simp_all add: advances_def)

lemma local_reads [local_rules]:
  "local_act (gets sending_message)" "local_act (gets session_id)" "local_act (gets err_buffer)" "local_act (gets eof_hit)"
  "local_act (gets input_buffer_combined)" "local_act (gets s_tables)" "local_act (gets s_db)"
  by (rule local_gets, simp)+

lemma local_octo_log [local_rules]: "local_act (octo_log cfg level error args)"
  unfolding octo_log_def by (intro local_rules)

lemma local_session_send [local_rules]: "local_act (session_send cfg m)"
  unfolding session_send_def by (intro local_rules)

lemma local_send_error [local_rules]: "local_act (send_error cfg severity code message)"
  unfolding send_error_def by (intro local_rules)

lemma local_fatal [local_rules]: "local_act (fatal cfg e args)"
  unfolding fatal_def by (intro local_rules)

lemma local_db [local_rules]: "local_act (change (\<lambda>s. s\<lparr>s_db := db\<rparr>))"
  by (rule local_change) (simp_all add: advances_def)

lemma local_ydb_check [local_rules]: "local_act (ydb_check cfg status)"
  unfolding ydb_check_def by (cases status) (simp_all only: ydb_status.case, (intro local_rules)+)

lemma local_database [local_rules]:
  "local_act (db_get cfg g subs n)" "local_act (db_set cfg g subs v)" "local_act (db_incr cfg g subs)"
  "local_act (db_delete cfg g subs)" "local_act (next_subscript cfg g subs)"
  unfolding db_get_def db_set_def db_incr_def db_delete_def next_subscript_def by (intro local_rules)+

lemma local_count [local_rules]: "local_act (count_subscripts cfg g subs x n)"
proof (induction cfg g subs x n rule: count_subscripts.induct)
  case (1 cfg g subs x n)
  then show ?case by (subst count_subscripts.simps) (intro local_rules, simp)
qed

lemma local_variables [local_rules]: "local_act (session_get cfg g args)" "local_act (session_set cfg v g args)"
  unfolding session_get_def session_set_def Let_def by (intro local_rules)+

section \<open>Tables\<close>

lemma local_or_fatal [local_rules]: "local_act (or_fatal cfg r)"
  by (cases r) (simp_all only: or_fatal.simps, (intro local_rules)+)

lemma local_store_columns [local_rules]: "local_act (store_columns cfg oid len cols buffer)"
  by (induction cols arbitrary: buffer) (simp_all only: store_columns.simps Let_def, (intro local_rules, assumption?)+)

lemma local_store_table [local_rules]: "local_act (store_table_in_pg_class cfg table)"
  unfolding store_table_in_pg_class_def by (intro local_rules)

lemma local_store_parts [local_rules]: "local_act (store_parts cfg name bin cur i)"
proof (induction cfg name bin cur i rule: store_parts.induct)
  case (1 cfg name bin cur i)
  then show ?case by (subst store_parts.simps) (intro local_rules, simp)
qed

lemma local_create_table [local_rules]: "local_act (create_table cfg compress table)"
proof -
  have "local_act (change (\<lambda>s. case ydb_set_s (c_api cfg) (s_db s) g subs v of YDB_OK db \<Rightarrow> s\<lparr>s_db := db\<rparr> | _ \<Rightarrow> s))" for g subs v
    by (rule local_change) (auto simp: advances_def split: ydb_status.splits)
  then show ?thesis unfolding create_table_def by (intro local_rules)
qed

lemma local_drop_table [local_rules]: "local_act (drop_table cfg name)"
  unfolding drop_table_def by (intro local_rules)

section \<open>Queries\<close>

lemma local_plan_columns [local_rules]:
  "local_act (count_columns cfg subs)" "local_act (meta_text cfg subs)" "local_act (meta_int cfg subs)" "local_act (column_parm cfg subs)"
  unfolding count_columns_def meta_text_def meta_int_def column_parm_def by (intro local_rules)+

lemma local_fill_columns [local_rules]: "local_act (fill_columns cfg subs x room)"
proof (induction room arbitrary: x)
  case 0
  show ?case by (subst fill_columns.simps) (simp, intro local_rules)
next
  case (Suc n)
  then show ?case by (subst fill_columns.simps) (simp, intro local_rules, assumption?)
qed

lemma local_row_description [local_rules]: "local_act (get_plan_row_description cfg plan)"
  unfolding get_plan_row_description_def by (intro local_rules)

lemma local_send_row [local_rules]: "local_act (send_command_complete cfg tag)" "local_act (send_row cfg row)"
  unfolding send_command_complete_def send_row_def by (intro local_rules)+

lemma local_send_rows [local_rules]: "local_act (send_rows left cfg subs row_id row_count)"
  by (induction left arbitrary: row_id row_count) (simp_all only: send_rows.simps, (intro local_rules, assumption?)+)

lemma local_respond [local_rules]:
  "local_act (respond_set cfg var v)" "local_act (respond_show cfg var)" "local_act (respond_rows cfg cursor plan limit)"
proof -
  have "local_act (change (\<lambda>s. if b then s\<lparr>s_db := (case ydb_delete_s (c_api cfg) (s_db s) g subs of YDB_OK db \<Rightarrow> db | _ \<Rightarrow> s_db s)\<rparr> else s))"
    for b g subs by (rule local_change) (auto simp: advances_def split: ydb_status.splits)
  then show "local_act (respond_rows cfg cursor plan limit)" unfolding respond_rows_def respond_cursor_def by (intro local_rules)
qed (unfold respond_set_def respond_show_def, (intro local_rules)+)

lemma local_statement [local_rules]:
  "(\<And>q. local_act (f1 q)) \<Longrightarrow> (\<And>t. local_act (f2 t)) \<Longrightarrow> (\<And>n. local_act (f3 n)) \<Longrightarrow> local_act f4 \<Longrightarrow> local_act f5 \<Longrightarrow> local_act f6
    \<Longrightarrow> (\<And>x v. local_act (f7 x v)) \<Longrightarrow> (\<And>x. local_act (f8 x)) \<Longrightarrow> local_act f9 \<Longrightarrow> local_act f10 \<Longrightarrow>
    local_act (case_sql_stmt f1 f2 f3 f4 f5 f6 f7 f8 f9 f10 stmt)"
  by (cases stmt) simp_all

lemma local_query_response [local_rules]: "local_act (handle_query_response cfg stmt cursor parms plan)"
  unfolding handle_query_response_def by (intro local_rules)

lemma local_parse_line [local_rules]: "local_act (parse_line cfg eng)"
proof -
  have "local_act (gets (\<lambda>s. yyparse eng (input_buffer_combined s) (cur_input_index s) (s_db s)))" by (rule local_gets) simp
  moreover have "local_act (change (\<lambda>s. s\<lparr>cur_input_index := index, eof_hit := eof_hit s \<or> eof, err_buffer := err_buffer s @ errors, s_db := db\<rparr>))"
    for index eof errors db by (rule local_change) (simp_all add: advances_def)
  moreover have "local_act (change (\<lambda>s. s\<lparr>cur_input_index := cur_input_index s - 1\<rparr>))"
    by (rule local_change) (simp_all add: advances_def)
  ultimately show ?thesis unfolding parse_line_def by (intro local_rules)
qed

lemma local_ensure_plan [local_rules]: "local_act (ensure_plan eng q plan)"
  unfolding ensure_plan_def Let_def by (intro local_rules)

lemma local_run_query [local_rules]:
  assumes "\<And>stmt cursor p plan. local_act (callback stmt cursor p plan)"
  shows "local_act (run_query cfg eng query callback parms)"
  unfolding run_query_def run_select_def by (intro local_rules assms)

section \<open>Handlers\<close>

lemma local_start [local_rules]: "local_act (report_errors cfg)" "local_act (start_input query)"
  unfolding report_errors_def start_input_def by (intro local_rules local_change, simp_all add: advances_def)+

lemma local_query_loop [local_rules]: "local_act (query_loop n cfg eng parms)"
  by (induction n arbitrary: parms) (simp_all only: query_loop.simps, (intro local_rules, assumption?)+)

lemma local_execute_loop [local_rules]: "local_act (execute_loop n cfg eng parms)"
  by (induction n arbitrary: parms) (simp_all only: execute_loop.simps, (intro local_rules, assumption?)+)

lemma local_describe [local_rules]: "local_act (describe_plan cfg eng q)" "local_act (describe_statement cfg eng stmt)"
proof -
  show d: "local_act (describe_plan cfg eng q)" for q unfolding describe_plan_def by (intro local_rules)
  show "local_act (describe_statement cfg eng stmt)" unfolding describe_statement_def by (intro local_rules d)
qed

lemma local_describe_loop [local_rules]: "local_act (describe_loop n cfg eng)"
  by (induction n) (simp_all only: describe_loop.simps, (intro local_rules, assumption?)+)

lemma local_handlers [local_rules]:
  "local_act (handle_parse cfg parse)" "local_act (handle_bind cfg b)" "local_act (handle_query cfg eng query)"
  "local_act (handle_execute cfg eng execute)" "local_act (handle_describe cfg eng describe)"
  unfolding handle_parse_def handle_bind_def handle_query_def handle_execute_def execute_text_def handle_describe_def
  by (intro local_rules)+

lemma local_handled [local_rules]: "(\<And>m. local_act (f m)) \<Longrightarrow> local_act (handled cfg r f)"
  by (cases r) (simp_all only: handled.simps answer_error_def, (intro local_rules)+)

lemma local_serve_message [local_rules]: "local_act (serve_message cfg eng m)"
  unfolding serve_message_def dispatch_def Let_def by (intro local_rules)

lemma local_announce [local_rules]: "local_act (announce cfg arrived ready)"
  unfolding announce_def by (intro local_rules)

end
