(* ===== verification/Query_Results.thy ===== *)
theory Query_Results
  imports Query_Runner
begin

text \<open>
  What a client is sent for a query whose plan has run: the description of the columns that the plan's metadata
  holds, one message for every row of the cursor up to the limit, and the tag that counts them. The specification is
  a list of messages (\<open>result_messages\<close>); \<open>respond_rows\<close> is shown to send it.
\<close>

section \<open>The metadata of a plan\<close>

definition number_at :: "'db octo_config \<Rightarrow> 'db \<Rightarrow> string list \<Rightarrow> int \<Rightarrow> bool" where
  "number_at cfg db subs n \<longleftrightarrow> length (int_dec n) < MAX_STR_CONST cfg
     \<and> ydb_get_s (c_api cfg) db (gn_octo cfg) subs (MAX_STR_CONST cfg) = YDB_OK (int_dec n)"

definition stored_column :: "'db octo_config \<Rightarrow> 'db \<Rightarrow> string list \<Rightarrow> string \<Rightarrow> RowDescriptionParm \<Rightarrow> bool" where
  "stored_column cfg db subs c p \<longleftrightarrow>
     nul_free (rd_name p)
     \<and> ydb_get_s (c_api cfg) db (gn_octo cfg) (subs @ [c, ''name'']) (MAX_STR_CONST cfg) = YDB_OK (rd_name p)
     \<and> number_at cfg db (subs @ [c, ''table_id'']) (sint (rd_table_id p))
     \<and> number_at cfg db (subs @ [c, ''column_id'']) (sint (rd_column_id p))
     \<and> number_at cfg db (subs @ [c, ''data_type'']) (sint (rd_data_type p))
     \<and> number_at cfg db (subs @ [c, ''data_type_size'']) (sint (rd_data_type_size p))
     \<and> number_at cfg db (subs @ [c, ''type_modifier'']) (sint (rd_type_modifier p))
     \<and> number_at cfg db (subs @ [c, ''format_code'']) (sint (rd_format_code p))"

definition plan_columns :: "'db octo_config \<Rightarrow> 'db \<Rightarrow> string \<Rightarrow> RowDescriptionParm list \<Rightarrow> bool" where
  "plan_columns cfg db plan ps \<longleftrightarrow>
     (let subs = [''plan_metadata'', plan, ''output_columns''] in
      \<exists>cs. visits (c_api cfg) db (gn_octo cfg) subs [] cs \<and> list_all2 (stored_column cfg db subs) cs ps)"

lemma nul_free_nat_dec: "nul_free (nat_dec n)"
  using nat_dec_digits [of n] by (auto simp: is_digit_def)

lemma nul_free_int_dec: "nul_free (int_dec n)"
  using nul_free_nat_dec by (auto simp: int_dec_def)

lemma atoi_int_dec [simp]: "atoi (int_dec n) = n"
proof (cases "n < 0")
  case True
  have "takeWhile is_digit (nat_dec (nat (- n))) = nat_dec (nat (- n))"
    using nat_dec_digits by (simp add: takeWhile_eq_all_conv)
  with True show ?thesis unfolding int_dec_def atoi_def by (simp add: digits_val_nat_dec del: takeWhile_eq_all_conv)
qed (simp add: int_dec_def)

lemma meta_int_value:
  assumes "number_at cfg (s_db s) subs n" "- (2 ^ 31) \<le> n" "n < 2 ^ 31"
  shows "meta_int cfg subs s = Done (n, s)"
  using assms nul_free_int_dec [of n]
  by (simp add: meta_int_def meta_text_def db_get_def number_at_def act_defs)

lemma meta_int_word:
  fixes w :: i32 and v :: i16
  shows "number_at cfg (s_db s) subs (sint w) \<Longrightarrow> meta_int cfg subs s = Done (sint w, s)"
    "number_at cfg (s_db s) subs (sint v) \<Longrightarrow> meta_int cfg subs s = Done (sint v, s)"
  using sint_range_size [of w] sint_range_size [of v] by (auto intro: meta_int_value simp: word_size)

lemma column_parm_value:
  assumes "stored_column cfg (s_db s) subs c p"
  shows "column_parm cfg (subs @ [c]) s = Done (p, s)"
proof -
  have "meta_text cfg (subs @ [c, ''name'']) s = Done (rd_name p, s)"
    using assms by (simp add: stored_column_def meta_text_def db_get_def act_defs)
  moreover have "meta_int cfg (subs @ [c, ''table_id'']) s = Done (sint (rd_table_id p), s)"
      "meta_int cfg (subs @ [c, ''column_id'']) s = Done (sint (rd_column_id p), s)"
      "meta_int cfg (subs @ [c, ''data_type'']) s = Done (sint (rd_data_type p), s)"
      "meta_int cfg (subs @ [c, ''data_type_size'']) s = Done (sint (rd_data_type_size p), s)"
      "meta_int cfg (subs @ [c, ''type_modifier'']) s = Done (sint (rd_type_modifier p), s)"
      "meta_int cfg (subs @ [c, ''format_code'']) s = Done (sint (rd_format_code p), s)"
    using assms unfolding stored_column_def by (simp_all only: meta_int_word)
  ultimately show ?thesis
    using assms by (simp add: stored_column_def column_parm_def act_defs)
qed

lemma fill_columns_value:
  "visits (c_api cfg) (s_db s) (gn_octo cfg) subs x cs \<Longrightarrow> list_all2 (stored_column cfg (s_db s) subs) cs ps \<Longrightarrow>
    fill_columns cfg subs x (length cs) s = Done (ps, s)"
proof (induction cs arbitrary: x ps)
  case Nil
  then show ?case by (subst fill_columns.simps) (simp add: act_defs next_subscript_visits [OF Nil(1)])
next
  case (Cons c cs)
  then obtain p ps' where ps: "ps = p # ps'" "stored_column cfg (s_db s) subs c p" "list_all2 (stored_column cfg (s_db s) subs) cs ps'"
    by (auto simp: list_all2_Cons1)
  have "visits (c_api cfg) (s_db s) (gn_octo cfg) subs c cs" using Cons.prems(1) by simp
  from Cons.IH [OF this ps(3)] column_parm_value [OF ps(2)] show ?case
    by (subst fill_columns.simps) (simp add: act_defs next_subscript_visits [OF Cons.prems(1)] ps(1))
qed

lemma plan_row_description_value:
  assumes "plan_columns cfg (s_db s) plan ps" "length ps < 2 ^ 31"
    and "make_row_description ps (of_nat (length ps)) = Done m"
  shows "get_plan_row_description cfg plan s = Done (m, s)"
proof -
  let ?subs = "[''plan_metadata'', plan, ''output_columns'']"
  obtain cs where cs: "visits (c_api cfg) (s_db s) (gn_octo cfg) ?subs [] cs" "list_all2 (stored_column cfg (s_db s) ?subs) cs ps"
    using assms(1) by (auto simp: plan_columns_def Let_def)
  have len: "length cs = length ps" using cs(2) by (rule list_all2_lengthD)
  with count_subscripts_visits [OF cs(1), of 0] assms(2) have "count_columns cfg ?subs s = Done (length ps, s)"
    by (simp add: count_columns_def)
  with fill_columns_value [OF cs] len assms(3) show ?thesis
    by (simp add: get_plan_row_description_def act_defs Let_def)
qed

section \<open>The rows\<close>

definition row_message :: "string \<Rightarrow> backend_message" where
  "row_message row = (let parms = split_row [] (cstr row) in DataRow parms (of_nat (length parms)))"

definition cursor_rows :: "'db octo_config \<Rightarrow> 'db \<Rightarrow> string list \<Rightarrow> string \<Rightarrow> string list \<Rightarrow> string list \<Rightarrow> bool" where
  "cursor_rows cfg db subs x ids rows \<longleftrightarrow> visits (c_api cfg) db (gn_cursor cfg) subs x ids
     \<and> list_all2 (\<lambda>i row. ydb_get_s (c_api cfg) db (gn_cursor cfg) (subs @ [i]) (MAX_STR_CONST cfg) = YDB_OK row) ids rows"

definition sendable :: "backend_message \<Rightarrow> bool" where
  "sendable b \<longleftrightarrow> (\<exists>m. build b = Done m \<and> framed m \<and> length (wire_image m) < 2 ^ 31)"

definition message_of :: "backend_message \<Rightarrow> BaseMessage" where
  "message_of b = (case build b of Done m \<Rightarrow> m | _ \<Rightarrow> make_no_data)"

lemma sent_wire [simp]: "s_wire (sent ms s) = s_wire s @ concat (map wire_image ms)"
  by (simp add: sent_def)

lemma sendable_message: "sendable b \<Longrightarrow> build b = Done (message_of b) \<and> framed (message_of b) \<and> length (wire_image (message_of b)) < 2 ^ 31"
  by (auto simp: sendable_def message_of_def)

lemma send_sendable:
  assumes "quiet cfg" "sendable b" "willing (Suc n) s"
  shows "session_send cfg (message_of b) s = Done (0, sent [message_of b] s)"
  using sendable_message [OF assms(2)] by (intro session_send_sent [OF assms(1,3)]) simp_all

lemma send_row_value:
  assumes "quiet cfg" "sendable (row_message row)" "length row < MAX_STR_CONST cfg" "willing (Suc n) s"
  shows "send_row cfg row s = Done (0, sent [message_of (row_message row)] s)"
  using sendable_message [OF assms(2)] send_sendable [OF assms(1,2,4)] assms(3)
  by (simp add: send_row_def row_message_def Let_def seq_def)

lemma send_rows_value:
  "quiet cfg \<Longrightarrow> cursor_rows cfg (s_db s) subs x (i # ids) rows \<Longrightarrow> \<forall>row \<in> set rows. length row < MAX_STR_CONST cfg \<and> sendable (row_message row) \<Longrightarrow>
    willing (min left (length rows) + n) s \<Longrightarrow>
    send_rows left cfg subs i k s = Done (k + min left (length rows), sent (map (\<lambda>row. message_of (row_message row)) (take left rows)) s)"
proof (induction ids arbitrary: i x left k s rows)
  case Nil
  then obtain row where rows: "rows = [row]" "ydb_get_s (c_api cfg) (s_db s) (gn_cursor cfg) (subs @ [i]) (MAX_STR_CONST cfg) = YDB_OK row"
    by (auto simp: cursor_rows_def list_all2_Cons1)
  show ?case
  proof (cases left)
    case (Suc l)
    have v: "visits (c_api cfg) (s_db s) (gn_cursor cfg) subs i []" using Nil(2) by (simp add: cursor_rows_def)
    have "send_row cfg row s = Done (0, sent [message_of (row_message row)] s)"
      using Nil rows Suc by (intro send_row_value [where n = n]) simp_all
    with rows Suc v show ?thesis
      using next_subscript_visits [of cfg "sent [message_of (row_message row)] s" "gn_cursor cfg" subs i "[]"]
      by (simp add: act_defs db_get_def)
  qed (simp add: ret_def)
next
  case (Cons j ids)
  then obtain row rows' where rows: "rows = row # rows'" "ydb_get_s (c_api cfg) (s_db s) (gn_cursor cfg) (subs @ [i]) (MAX_STR_CONST cfg) = YDB_OK row"
    and tail: "cursor_rows cfg (s_db s) subs i (j # ids) rows'"
    by (auto simp: cursor_rows_def list_all2_Cons1)
  show ?case
  proof (cases left)
    case (Suc l)
    let ?m = "message_of (row_message row)"
    have "send_row cfg row s = Done (0, sent [?m] s)"
      using Cons.prems rows Suc by (intro send_row_value [where n = "min l (length rows') + n"]) simp_all
    moreover have "willing (min l (length rows') + n) (sent [?m] s)"
      using Cons.prems(4) rows(1) Suc by (intro willing_sent) simp
    then have "send_rows l cfg subs j (k + 1) (sent [?m] s)
        = Done (k + 1 + min l (length rows'), sent (map (\<lambda>row. message_of (row_message row)) (take l rows')) (sent [?m] s))"
      using Cons.prems(1,3) rows(1) tail by (intro Cons.IH [of _ i]) simp_all
    moreover have "next_subscript cfg (gn_cursor cfg) (subs @ [i]) (sent [?m] s) = Done (Some j, sent [?m] s)"
      using next_subscript_visits [of cfg "sent [?m] s" "gn_cursor cfg" subs i "j # ids"] tail by (simp add: cursor_rows_def)
    ultimately show ?thesis using rows Suc by (simp add: act_defs db_get_def)
  qed (simp add: ret_def)
qed

section \<open>The size of the messages\<close>

lemma split_row_length: "length (split_row cur cs) \<le> length cs + 1"
  by (induction cur cs rule: split_row.induct) auto

lemma split_row_size:
  "length cur + length cs < 2 ^ 32 \<Longrightarrow>
    list_all data_row_parm_ok (split_row cur cs) \<and> data_row_size (split_row cur cs) \<le> length cur + 4 * length cs + 4"
  by (induction cur cs rule: split_row.induct) (auto simp: data_row_parm_ok_def data_row_size_def unat_of_nat take_bit_nat_eq_self)

lemma framed_build:
  assumes "fits b" "build b = Done m"
  shows "framed m"
  using build_framed [OF assms(1)] assms(2) by (metis outcome.inject(2))

lemma short_count_of_nat: "n < 2 ^ 15 \<Longrightarrow> short_count (of_nat n) = n"
  by (simp add: sint_count)

lemma sendable_row:
  assumes "length row + 1 < 2 ^ 15"
  shows "sendable (row_message row)"
proof -
  let ?ps = "split_row [] (cstr row)"
  have c: "length (cstr row) \<le> length row" by (rule length_cstr_le)
  have l: "length ?ps < 2 ^ 15" using split_row_length [of "[]" "cstr row"] c assms by simp
  have z: "list_all data_row_parm_ok ?ps" "data_row_size ?ps \<le> 4 * length row + 4"
    using split_row_size [of "[]" "cstr row"] c assms by auto
  have f: "fits (row_message row)" unfolding row_message_def Let_def
    using l z assms by (simp add: short_count_of_nat)
  have b: "build (row_message row) = Done \<lparr>mtype = PSQL_DataRow, mlength = htonl (of_nat (data_row_size ?ps + 6)),
      mdata = htons (of_nat (length ?ps)) @ data_row_fill ?ps\<rparr>" (is "_ = Done ?m")
    unfolding row_message_def Let_def
    using make_data_row_Done [of "of_nat (length ?ps)" ?ps] l z assms by (simp add: short_count_of_nat)
  have "length (wire_image ?m) < 2 ^ 31"
    using z assms by (simp add: wire_image_def length_data_row_fill)
  with b framed_build [OF f b] show ?thesis unfolding sendable_def by blast
qed

lemma sendable_description:
  assumes "length ps < 2 ^ 15" "row_description_size ps < 2 ^ 30"
  shows "sendable (RowDescription ps (of_nat (length ps)))"
proof -
  have f: "fits (RowDescription ps (of_nat (length ps)))" using assms by (simp add: short_count_of_nat)
  have b: "build (RowDescription ps (of_nat (length ps))) = Done \<lparr>mtype = PSQL_RowDescription,
      mlength = htonl (of_nat (row_description_size ps + 6)), mdata = htons (of_nat (length ps)) @ row_description_fill ps\<rparr>" (is "_ = Done ?m")
    using make_row_description_Done [of "of_nat (length ps)" ps] assms by (simp add: short_count_of_nat)
  have "length (wire_image ?m) < 2 ^ 31" using assms(2) by (simp add: wire_image_def length_row_description_fill)
  with b framed_build [OF f b] show ?thesis unfolding sendable_def by blast
qed

lemma length_nat_dec: "length (nat_dec n) \<le> 1 + n div 10"
proof (induction n rule: nat_dec.induct)
  case (1 n)
  then show ?case by (subst nat_dec.simps) (auto simp: dec_digit_def)
qed

lemma sendable_tag:
  assumes "k < 2 ^ 31"
  shows "sendable (CommandComplete (''SELECT '' @ nat_dec k))"
proof -
  let ?tag = "''SELECT '' @ nat_dec k"
  have f: "nul_free ?tag" using nul_free_nat_dec [of k] by simp
  have l: "length ?tag + 20 < 2 ^ 31" using length_nat_dec [of k] assms by simp
  have fi: "fits (CommandComplete ?tag)" unfolding fits.simps cstr_id [OF f] using l by simp
  have b: "build (CommandComplete ?tag) = Done \<lparr>mtype = PSQL_CommandComplete, mlength = htonl (of_nat (4 + (length ?tag + 1))), mdata = ?tag @ [NUL]\<rparr>" (is "_ = Done ?m")
    unfolding build.simps make_command_complete_def option.case cstr_id [OF f] Let_def using l by simp
  have "length (wire_image ?m) < 2 ^ 31" using l by (simp add: wire_image_def)
  with b framed_build [OF fi b] show ?thesis unfolding sendable_def by blast
qed

lemma willing_clean: "willing n (if b then s\<lparr>s_db := db\<rparr> else s) = willing n s"
  by simp

lemma wire_clean: "s_wire (if b then s\<lparr>s_db := db\<rparr> else s) = s_wire s"
  by simp

definition row_limit :: "int \<Rightarrow> nat" where
  "row_limit max_data = nat (if max_data \<le> 0 then 2 ^ 31 - 1 else max_data)"

lemma row_limit_bound: "max_data < 2 ^ 31 \<Longrightarrow> row_limit max_data < 2 ^ 31"
  by (simp add: row_limit_def nat_less_iff)

lemma respond_cursor_value:
  assumes quiet: "quiet cfg" and rows: "cursor_rows cfg (s_db s) subs x (i # js) rows"
      "\<forall>row \<in> set rows. length row < MAX_STR_CONST cfg \<and> sendable (row_message row)"
    and limit: "max_data < 2 ^ 31" and ready: "willing (length rows + 1) s"
  obtains m s' where "respond_cursor cfg cursor_id subs i max_data s = Done (m, s')"
    "s_wire s' = s_wire s @ concat (map (wire_image \<circ> message_of) (map row_message (take (row_limit max_data) rows)
       @ [CommandComplete (''SELECT '' @ nat_dec (min (row_limit max_data) (length rows)))]))"
proof -
  let ?n = "row_limit max_data"
  let ?t = "CommandComplete (''SELECT '' @ nat_dec (min ?n (length rows)))"
  let ?ms = "map (\<lambda>row. message_of (row_message row)) (take ?n rows)"
  have st: "sendable ?t" using row_limit_bound [OF limit] by (intro sendable_tag) simp
  have w: "willing (min ?n (length rows) + 1) s" using ready by (rule willing_mono) simp
  have r: "send_rows ?n cfg subs i 0 s = Done (min ?n (length rows), sent ?ms s)"
    using send_rows_value [OF quiet rows w, of 0] by simp
  have c: "send_command_complete cfg (''SELECT '' @ nat_dec (min ?n (length rows))) s2 = Done (0, sent [message_of ?t] s2)"
    if "willing (Suc 0) s2" for s2
    using sendable_message [OF st] send_sendable [OF quiet st that] by (simp add: send_command_complete_def seq_def)
  have w2: "willing (Suc 0) (sent ?ms s)" using willing_sent [of ?ms "Suc 0" s] w by (simp add: min.commute)
  let ?clean = "\<lambda>s. if auto_clean_tables cfg
    then s\<lparr>s_db := (case ydb_delete_s (c_api cfg) (s_db s) (gn_cursor cfg) [int_dec cursor_id] of YDB_OK db \<Rightarrow> db | _ \<Rightarrow> s_db s)\<rparr> else s"
  define s2 where "s2 = ?clean (sent ?ms s)"
  have s2: "willing (Suc 0) s2" "s_wire s2 = s_wire (sent ?ms s)"
    unfolding s2_def using w2 by (simp_all only: willing_clean wire_clean)
  have lim: "nat (if max_data \<le> 0 then 2 ^ 31 - 1 else max_data) = ?n" by (simp add: row_limit_def)
  have "respond_cursor cfg cursor_id subs i max_data s
      = seq (send_command_complete cfg (''SELECT '' @ nat_dec (min ?n (length rows)))) (\<lambda>_. ret (if max_data \<le> 0 then 2 ^ 31 - 1 else max_data)) s2"
    unfolding respond_cursor_def Let_def lim s2_def by (subst seq_def, subst r) (simp only: and_then.simps split_conv seq_simps)
  also have "\<dots> = Done (if max_data \<le> 0 then 2 ^ 31 - 1 else max_data, sent [message_of ?t] s2)"
    by (subst seq_def, subst c [OF s2(1)]) (simp add: ret_def)
  finally show thesis by (rule that) (use s2(2) in \<open>simp add: comp_def\<close>)
qed

section \<open>Properties\<close>

definition result_messages :: "RowDescriptionParm list \<Rightarrow> string list \<Rightarrow> nat \<Rightarrow> backend_message list" where
  "result_messages ps rows limit =
     RowDescription ps (of_nat (length ps))
     # (if rows = [] then []
        else map row_message (take limit rows) @ [CommandComplete (''SELECT '' @ nat_dec (min limit (length rows)))])"

text \<open>C6.
  The result of a query. The columns in the plan's metadata and the rows of the cursor are sent as the specification
  says: the description of the columns, a row of values, cut at the bars, for each row up to the limit, and the tag with
  their number. An empty result is only described. Every message has its form. The server
  logs nothing below warnings, since the client would be sent that too.
\<close>

theorem query_result_sent:
  assumes quiet: "quiet cfg"
    and columns: "plan_columns cfg (s_db s) plan ps" "length ps < 2 ^ 15" "row_description_size ps < 2 ^ 30"
    and key: "nul_free plan" "ydb_get_s (c_api cfg) (s_db s) ''^%ydboctoocto'' [''plan_metadata'', plan, ''output_key''] (MAX_STR_CONST cfg) = YDB_OK key"
    and rows: "cursor_rows cfg (s_db s) [int_dec cursor_id, ''keys'', key, [], []] [] ids rows"
      "\<forall>row \<in> set rows. length row < MAX_STR_CONST cfg \<and> length row + 1 < 2 ^ 15"
    and limit: "max_data < 2 ^ 31" and ready: "willing (length rows + 2) s"
  shows "\<exists>s' m. respond_rows cfg cursor_id plan max_data s = Done (m, s')
    \<and> list_all sendable (result_messages ps rows (row_limit max_data))
    \<and> s_wire s' = s_wire s @ concat (map (wire_image \<circ> message_of) (result_messages ps rows (row_limit max_data)))"
proof -
  let ?d = "RowDescription ps (of_nat (length ps))" and ?n = "row_limit max_data"
    and ?subs = "[int_dec cursor_id, ''keys'', key, [], []]"
  have sd: "sendable ?d" by (rule sendable_description [OF columns(2,3)])
  have "make_row_description ps (of_nat (length ps)) = Done (message_of ?d)"
    using sendable_message [OF sd] by simp
  from plan_row_description_value [OF columns(1) _ this] columns(2)
  have "get_plan_row_description cfg plan s = Done (message_of ?d, s)" by simp
  moreover have "session_send cfg (message_of ?d) s = Done (0, sent [message_of ?d] s)"
    using ready by (intro send_sendable [OF quiet sd, of "length rows + 1"]) simp
  moreover have "session_get cfg ''^%ydboctoocto'' [''plan_metadata'', plan, ''output_key''] (sent [message_of ?d] s)
      = Done (Some key, sent [message_of ?d] s)"
    using key by (intro session_get_value) simp
  moreover have "next_subscript cfg (gn_cursor cfg) (?subs @ [[]]) (sent [message_of ?d] s)
      = Done (case ids of [] \<Rightarrow> None | i # js \<Rightarrow> Some i, sent [message_of ?d] s)"
    using rows(1) by (intro next_subscript_visits) (simp add: cursor_rows_def)
  ultimately have start: "respond_rows cfg cursor_id plan max_data s =
      (case ids of [] \<Rightarrow> Done (max_data, sent [message_of ?d] s)
       | i # js \<Rightarrow> respond_cursor cfg cursor_id ?subs i max_data (sent [message_of ?d] s))"
    by (simp add: respond_rows_def act_defs Let_def split: list.split)
  show ?thesis
  proof (cases ids)
    case Nil
    with rows(1) have "rows = []" by (simp add: cursor_rows_def)
    with start Nil sd show ?thesis by (simp add: result_messages_def)
  next
    case (Cons i js)
    have ne: "rows \<noteq> []" using rows(1) Cons by (auto simp: cursor_rows_def)
    have sr: "\<forall>row \<in> set rows. length row < MAX_STR_CONST cfg \<and> sendable (row_message row)"
      using rows(2) sendable_row by blast
    have st: "sendable (CommandComplete (''SELECT '' @ nat_dec (min ?n (length rows))))"
      using row_limit_bound [OF limit] by (intro sendable_tag) simp
    have "willing (length rows + 1) (sent [message_of ?d] s)" using ready by (intro willing_sent) simp
    from respond_cursor_value [OF quiet _ sr limit this] rows(1) Cons obtain m s' where
      "respond_cursor cfg cursor_id ?subs i max_data (sent [message_of ?d] s) = Done (m, s')"
      "s_wire s' = s_wire (sent [message_of ?d] s) @ concat (map (wire_image \<circ> message_of)
        (map row_message (take ?n rows) @ [CommandComplete (''SELECT '' @ nat_dec (min ?n (length rows)))]))"
      by (metis sent_fields(4))
    with start Cons sd st sr ne show ?thesis
      by (auto simp: result_messages_def list_all_iff dest: in_set_takeD)
  qed
qed

definition sample_result :: tree where
  "sample_result =
     (let column = (\<lambda>field v. ((''^octo'', [''plan_metadata'', ''p'', ''output_columns'', ''1'', field]), v)) in
      [column ''name'' ''id'', column ''table_id'' ''0'', column ''column_id'' ''0'', column ''data_type'' ''23'',
       column ''data_type_size'' ''4'', column ''type_modifier'' ''-1'', column ''format_code'' ''0'',
       ((''^%ydboctoocto'', [''plan_metadata'', ''p'', ''output_key'']), ''k''),
       ((''^cursor'', [''7'', ''keys'', ''k'', [], [], ''1'']), ''5|a''),
       ((''^cursor'', [''7'', ''keys'', ''k'', [], [], ''2'']), ''6''),
       ((''^cursor'', [''7'', ''keys'', ''k'', [], [], ''3'']), ''8'')])"

theorem query_result_sent_witness:
  "let p = \<lparr>rd_name = ''id'', rd_table_id = 0, rd_column_id = 0, rd_data_type = 23, rd_data_type_size = 4,
         rd_type_modifier = -1, rd_format_code = 0\<rparr>;
       s = sample_session [] (replicate 5 ([Accepted (2 ^ 31)], 0, None)) sample_result
   in \<exists>s' m. respond_rows sample_config 7 ''p'' 2 s = Done (m, s')
     \<and> list_all sendable (result_messages [p] [''5|a'', ''6'', ''8''] 2)
     \<and> s_wire s' = concat (map (wire_image \<circ> message_of) (result_messages [p] [''5|a'', ''6'', ''8''] 2))"
proof -
  let ?p = "\<lparr>rd_name = ''id'', rd_table_id = 0, rd_column_id = 0, rd_data_type = 23, rd_data_type_size = 4,
    rd_type_modifier = -1, rd_format_code = 0\<rparr> :: RowDescriptionParm"
  let ?s = "sample_session [] (replicate 5 ([Accepted (2 ^ 31)], 0, None)) sample_result"
  have config: "c_api sample_config = tree_api" "gn_octo sample_config = ''^octo''" "gn_cursor sample_config = ''^cursor''"
      "MAX_STR_CONST sample_config = 200" "s_db ?s = sample_result"
    by (simp_all add: sample_config_def sample_session_def)
  have d: "int_dec 0 = ''0''" "int_dec 7 = ''7''" "int_dec 4 = ''4''" "int_dec 23 = ''23''" "int_dec (- 1) = ''-1''"
    by code_simp+
  have v: "visits tree_api sample_result ''^octo'' [''plan_metadata'', ''p'', ''output_columns''] [] [''1'']" by code_simp
  have c: "stored_column sample_config sample_result [''plan_metadata'', ''p'', ''output_columns''] ''1'' ?p"
    unfolding stored_column_def number_at_def config d by (simp add: d) (code_simp)
  have columns: "plan_columns sample_config (s_db ?s) ''p'' [?p]"
    unfolding plan_columns_def Let_def config by (rule exI [of _ "[''1'']"], rule conjI [OF v]) (simp add: c)
  have key: "ydb_get_s (c_api sample_config) (s_db ?s) ''^%ydboctoocto'' [''plan_metadata'', ''p'', ''output_key''] (MAX_STR_CONST sample_config) = YDB_OK ''k''"
    unfolding config by code_simp
  have rows: "cursor_rows sample_config (s_db ?s) [int_dec 7, ''keys'', ''k'', [], []] [] [''1'', ''2'', ''3''] [''5|a'', ''6'', ''8'']"
    unfolding cursor_rows_def config d by code_simp
  have willing: "willing (length [''5|a'', ''6'', ''8''] + 2) ?s" by (simp add: willing_def sample_session_def)
  have small: "length [?p] < 2 ^ 15" "row_description_size [?p] < 2 ^ 30" "nul_free ''p''"
    by (simp_all add: row_description_size_def)
  have bounds: "\<forall>row \<in> set [''5|a'', ''6'', ''8'']. length row < MAX_STR_CONST sample_config \<and> length row + 1 < 2 ^ 15"
    unfolding config by simp
  have limit: "row_limit 2 = 2" "(2 :: int) < 2 ^ 31" "s_wire ?s = []" by (simp_all add: row_limit_def sample_session_def)
  from query_result_sent [OF sample_config_laws(3) columns small key rows bounds limit(2) willing]
  show ?thesis unfolding Let_def limit append_Nil .
qed

end
