(* ===== verification/Server_Properties.thy ===== *)
theory Server_Properties
  imports Session_Frame Query_Results
begin

text \<open>
  What the server does with the messages of a connection: the main loop serves the messages of the byte stream one
  after the other, whatever its division into chunks; a prepared statement is stored, bound and executed with its
  parameters.
\<close>

section \<open>The abstract server\<close>

text \<open>
  A server that is handed whole messages, each with what \<open>select\<close> says before it.
\<close>

primrec serve :: "(bool \<times> BaseMessage) list \<Rightarrow> 'db octo_config \<Rightarrow> ('db, 'q) engine \<Rightarrow> bool \<Rightarrow> ('db, unit) act" where
  "serve [] cfg eng ready = (\<lambda>s. Failed (Stop_blocked, s))"
| "serve (am # ams) cfg eng ready =
     seq (announce cfg (fst am) ready) (\<lambda>result.
     if result \<noteq> 0 then end_loop
     else seq (serve_message cfg eng (snd am)) (\<lambda>(result, ready').
          if result = 1 then ret () else serve ams cfg eng ready'))"

lemma local_serve: "local_act (serve ams cfg eng ready)"
proof (induction ams arbitrary: ready)
  case Nil
  show ?case unfolding serve.simps by (intro local_rules)
next
  case (Cons am ams)
  then show ?case unfolding serve.simps end_loop_def by (intro local_rules)
qed

fun select_answers :: "select_event list \<Rightarrow> bool list" where
  "select_answers [] = []"
| "select_answers (Select_result a # evs) = a # select_answers evs"
| "select_answers (Select_failed e # evs) = select_answers evs"

section \<open>Reading a message\<close>

lemma session_read_message_eq:
  assumes "read_message (ssl_active s) (s_in s) (int (MAX_STR_CONST cfg)) = Message m evs"
  shows "session_read_message env cfg s = Done (Inr m, s\<lparr>s_in := evs\<rparr>)"
  using assms
  by (auto simp: read_message_def session_read_message_def session_read_bytes_def act_defs Let_def
      split: read_result.splits if_splits)

lemma session_read_next:
  assumes "framed m" "incoming (ssl_active s) (s_in s) = wire_image m @ rest"
    "length (wire_image m) \<le> MAX_STR_CONST cfg" "MAX_STR_CONST cfg < 2 ^ 31"
  obtains evs where "session_read_message env cfg s = Done (Inr m, s\<lparr>s_in := evs\<rparr>)"
    "incoming (ssl_active s) evs = rest" "closing (ssl_active s) evs = closing (ssl_active s) (s_in s)"
proof -
  have "int (length (wire_image m)) \<le> int (MAX_STR_CONST cfg)" "int (MAX_STR_CONST cfg) < 2 ^ 31" using assms(3,4) by simp_all
  with read_message_next [OF assms(1,2)] obtain evs where
    "read_message (ssl_active s) (s_in s) (int (MAX_STR_CONST cfg)) = Message m evs" "incoming (ssl_active s) evs = rest"
    "closing (ssl_active s) evs = closing (ssl_active s) (s_in s)" by blast
  then show thesis using that session_read_message_eq by blast
qed

text \<open>With nothing left to read and the connection open, the server waits.\<close>

lemma session_read_blocked:
  assumes "incoming (ssl_active s) (s_in s) = []" "closing (ssl_active s) (s_in s) = None" "5 \<le> MAX_STR_CONST cfg"
  shows "session_read_message env cfg s = Failed (Stop_blocked, s)"
  using assms recv_loop_short [of "ssl_active s" "s_in s" 5]
  by (simp add: session_read_message_def session_read_bytes_def read_bytes_def act_defs)

section \<open>The main loop\<close>

lemma put_in_put_in [simp]: "put_in a (put_in b r) = put_in a r"
  by (cases r) auto

lemma put_in_seq:
  "(\<And>x s'. m s = Done (x, s') \<Longrightarrow> put_in evs (f x s') = put_in evs (g x s')) \<Longrightarrow> put_in evs (seq m f s) = put_in evs (seq m g s)"
  by (cases "m s") (auto simp: seq_def)

lemma main_loop_serves:
  assumes small: "MAX_STR_CONST cfg < 2 ^ 31"
    and ms: "\<forall>m \<in> set ms. framed m \<and> length (wire_image m) \<le> MAX_STR_CONST cfg"
    and sel: "\<forall>e. Select_failed e \<in> set sels \<longrightarrow> e = EINTR" "length (select_answers sels) \<le> length ms"
    and str: "incoming (ssl_active s) (s_in s) = concat (map wire_image ms) @ rest"
  shows "put_in [] (message_loop sels env cfg eng ready s) = put_in [] (serve (zip (select_answers sels) ms) cfg eng ready s)"
  using ms sel str
proof (induction sels arbitrary: ms s ready rule: select_answers.induct)
  case 1
  then show ?case by simp
next
  case (3 e evs)
  then show ?case by simp
next
  case (2 a evs)
  then obtain m ms' where m: "ms = m # ms'" by (cases ms) auto
  have l: "local_act (announce cfg a ready)" by (rule local_announce)
  have step: "put_in [] ((if result \<noteq> 0 then end_loop
        else seq (session_read_message env cfg) (\<lambda>r. case r of Inl c \<Rightarrow> end_loop
             | Inr m \<Rightarrow> seq (serve_message cfg eng m) (\<lambda>(result, ready). if result = 1 then ret () else message_loop evs env cfg eng ready))) s1)
      = put_in [] ((if result \<noteq> 0 then end_loop
        else seq (serve_message cfg eng m) (\<lambda>(result, ready'). if result = 1 then ret () else serve (zip (select_answers evs) ms') cfg eng ready')) s1)"
    if d: "announce cfg a ready s = Done (result, s1)" for result s1
  proof (cases "result = 0")
    case True
    have e: "ends_in (announce cfg a ready s) s1" using d by simp
    have i: "s_in s1 = s_in s" "ssl_active s1 = ssl_active s"
      using local_input [OF l e] local_session [OF l e] by simp_all
    then have str: "incoming (ssl_active s1) (s_in s1) = wire_image m @ (concat (map wire_image ms') @ rest)"
      using "2.prems"(4) m by simp
    have "framed m" "length (wire_image m) \<le> MAX_STR_CONST cfg" using "2.prems"(1) m by simp_all
    from session_read_next [OF this(1) str this(2) small, where env = env] obtain evs' where
      r: "session_read_message env cfg s1 = Done (Inr m, s1\<lparr>s_in := evs'\<rparr>)"
        "incoming (ssl_active s1) evs' = concat (map wire_image ms') @ rest" by blast
    have "put_in [] (seq (serve_message cfg eng m) (\<lambda>(result, ready). if result = 1 then ret () else message_loop evs env cfg eng ready) (s1\<lparr>s_in := evs'\<rparr>))
      = put_in [] (seq (serve_message cfg eng m) (\<lambda>(result, ready'). if result = 1 then ret () else serve (zip (select_answers evs) ms') cfg eng ready') (s1\<lparr>s_in := evs'\<rparr>))"
    proof (rule put_in_seq)
      fix x s2
      assume sm: "serve_message cfg eng m (s1\<lparr>s_in := evs'\<rparr>) = Done (x, s2)"
      then have e2: "ends_in (serve_message cfg eng m (s1\<lparr>s_in := evs'\<rparr>)) s2" by simp
      have l2: "local_act (serve_message cfg eng m)" by (rule local_serve_message)
      have j: "s_in s2 = evs'" "ssl_active s2 = ssl_active s1"
        using local_input [OF l2 e2] local_session [OF l2 e2] by simp_all
      have "put_in [] (message_loop evs env cfg eng rdy s2) = put_in [] (serve (zip (select_answers evs) ms') cfg eng rdy s2)" for rdy
        using "2.prems" m r(2) j by (intro "2.IH") auto
      then show "put_in [] ((case x of (result, ready) \<Rightarrow> if result = 1 then ret () else message_loop evs env cfg eng ready) s2)
          = put_in [] ((case x of (result, ready') \<Rightarrow> if result = 1 then ret () else serve (zip (select_answers evs) ms') cfg eng ready') s2)"
        by (cases x) simp
    qed
    also have "\<dots> = put_in [] (seq (serve_message cfg eng m) (\<lambda>(result, ready'). if result = 1 then ret () else serve (zip (select_answers evs) ms') cfg eng ready') s1)"
    proof -
      have "local_act (seq (serve_message cfg eng m) (\<lambda>(result, ready'). if result = 1 then ret () else serve (zip (select_answers evs) ms') cfg eng ready'))"
        by (intro local_rules local_serve)
      then show ?thesis unfolding local_act_def by simp
    qed
    finally show ?thesis using True r(1) by (simp add: act_defs)
  qed simp
  then show ?case unfolding m by (simp del: put_in.simps) (intro put_in_seq, simp)
qed

section \<open>Prepared statements\<close>

lemma fixed_messages:
  "framed make_parse_complete" "framed make_bind_complete" "framed make_empty_query_response" "framed make_authentication_ok"
  "framed (make_ready_for_query status)"
  "length (wire_image make_parse_complete) < 2 ^ 31" "length (wire_image make_bind_complete) < 2 ^ 31"
  "length (wire_image make_empty_query_response) < 2 ^ 31" "length (wire_image make_authentication_ok) < 2 ^ 31"
  "length (wire_image (make_ready_for_query status)) < 2 ^ 31"
  by (simp_all add: framed_def wire_image_def make_parse_complete_def make_bind_complete_def make_empty_query_response_def
      make_authentication_ok_def make_ready_for_query_def)

lemma handle_parse_works:
  assumes "ydb_works (c_api cfg)" "quiet cfg" "willing (Suc n) s"
  obtains db where "ydb_set_s (c_api cfg) (s_db s) (gn_session cfg) [session_id s, ''prepared'', p_dest p] (p_query p) = YDB_OK db"
    "handle_parse cfg p s = Done (0, sent [make_parse_complete] (s\<lparr>s_db := db\<rparr>))"
proof -
  obtain db where d: "ydb_set_s (c_api cfg) (s_db s) (gn_session cfg) [session_id s, ''prepared'', p_dest p] (p_query p) = YDB_OK db"
      "db_set cfg (gn_session cfg) [session_id s, ''prepared'', p_dest p] (p_query p) s = Done ((), s\<lparr>s_db := db\<rparr>)"
    using db_set_works [OF assms(1)] by blast
  have "session_send cfg make_parse_complete (s\<lparr>s_db := db\<rparr>) = Done (0, sent [make_parse_complete] (s\<lparr>s_db := db\<rparr>))"
    using assms(3) by (intro session_send_sent [OF assms(2), where n = n] fixed_messages) simp
  with d show thesis by (intro that [of db]) (simp_all add: handle_parse_def act_defs octo_log_quiet [OF assms(2)])
qed

lemma handle_bind_works:
  assumes "ydb_works (c_api cfg)" "quiet cfg" "willing (Suc n) s"
    and "ydb_get_s (c_api cfg) (s_db s) (gn_session cfg) [session_id s, ''prepared'', bind_source b] (MAX_STR_CONST cfg - 1) = YDB_OK stmt"
    and "bind_loop (MAX_STR_CONST cfg) b stmt [] = Done q"
  obtains db where "ydb_set_s (c_api cfg) (s_db s) (gn_session cfg) [session_id s, ''bound'', bind_dest b] q = YDB_OK db"
    "handle_bind cfg b s = Done (0, sent [make_bind_complete] (s\<lparr>s_db := db\<rparr>))"
proof -
  obtain db where d: "ydb_set_s (c_api cfg) (s_db s) (gn_session cfg) [session_id s, ''bound'', bind_dest b] q = YDB_OK db"
      "db_set cfg (gn_session cfg) [session_id s, ''bound'', bind_dest b] q s = Done ((), s\<lparr>s_db := db\<rparr>)"
    using db_set_works [OF assms(1)] by blast
  have "session_send cfg make_bind_complete (s\<lparr>s_db := db\<rparr>) = Done (0, sent [make_bind_complete] (s\<lparr>s_db := db\<rparr>))"
    using assms(3) by (intro session_send_sent [OF assms(2), where n = n] fixed_messages) simp
  with d assms(4,5) show thesis
    by (intro that [of db]) (simp_all add: handle_bind_def act_defs octo_log_quiet [OF assms(2)] db_get_def)
qed

lemma handle_execute_works:
  assumes "quiet cfg"
    and "ydb_get_s (c_api cfg) (s_db s) (gn_session cfg) [session_id s, ''bound'', e_source e] (MAX_STR_CONST cfg - 1) = YDB_OK q"
  shows "handle_execute cfg eng e s = execute_text cfg eng (e_rows_to_return e) (cstr q) s"
  using assms(2) by (simp add: handle_execute_def act_defs octo_log_quiet [OF assms(1)] db_get_def)

text \<open>The three handlers in a row. The statement and its portal are kept in different nodes.\<close>

lemma prepared_nodes:
  assumes laws: "ydb_laws (c_api cfg)" "ydb_works (c_api cfg)" "quiet cfg" and ready: "willing (Suc (Suc n)) s"
    and names: "bind_source b = p_dest p" and len: "length (p_query p) < MAX_STR_CONST cfg" "length q < MAX_STR_CONST cfg"
    and bound: "bind_loop (MAX_STR_CONST cfg) b (p_query p) [] = Done q"
  obtains db1 db2 where "handle_parse cfg p s = Done (0, sent [make_parse_complete] (s\<lparr>s_db := db1\<rparr>))"
    "handle_bind cfg b (sent [make_parse_complete] (s\<lparr>s_db := db1\<rparr>)) = Done (0, sent [make_parse_complete, make_bind_complete] (s\<lparr>s_db := db2\<rparr>))"
    "ydb_get_s (c_api cfg) db2 (gn_session cfg) [session_id s, ''prepared'', p_dest p] (MAX_STR_CONST cfg - 1) = YDB_OK (p_query p)"
    "ydb_get_s (c_api cfg) db2 (gn_session cfg) [session_id s, ''bound'', bind_dest b] (MAX_STR_CONST cfg - 1) = YDB_OK q"
proof -
  obtain db1 where d1: "ydb_set_s (c_api cfg) (s_db s) (gn_session cfg) [session_id s, ''prepared'', p_dest p] (p_query p) = YDB_OK db1"
      "handle_parse cfg p s = Done (0, sent [make_parse_complete] (s\<lparr>s_db := db1\<rparr>))"
    using handle_parse_works [OF laws(2,3) ready] by blast
  let ?s = "sent [make_parse_complete] (s\<lparr>s_db := db1\<rparr>)"
  have w: "willing (Suc n) ?s" using willing_sent [of "[make_parse_complete]" "Suc n" "s\<lparr>s_db := db1\<rparr>"] ready by simp
  have g: "ydb_get_s (c_api cfg) db1 (gn_session cfg) [session_id s, ''prepared'', p_dest p] (MAX_STR_CONST cfg - 1) = YDB_OK (p_query p)"
    using len by (intro ydb_get_set [OF laws(1) d1(1)]) simp
  from handle_bind_works [OF laws(2,3) w _ bound] g names obtain db2 where
    d2: "ydb_set_s (c_api cfg) db1 (gn_session cfg) [session_id s, ''bound'', bind_dest b] q = YDB_OK db2"
      "handle_bind cfg b ?s = Done (0, sent [make_bind_complete] (?s\<lparr>s_db := db2\<rparr>))"
    by (auto simp del: sent_sent)
  have "ydb_get_s (c_api cfg) db2 (gn_session cfg) [session_id s, ''prepared'', p_dest p] (MAX_STR_CONST cfg - 1) = YDB_OK (p_query p)"
    using ydb_get_set_other [OF laws(1) d2(1)] g by simp
  moreover have "ydb_get_s (c_api cfg) db2 (gn_session cfg) [session_id s, ''bound'', bind_dest b] (MAX_STR_CONST cfg - 1) = YDB_OK q"
    using len by (intro ydb_get_set [OF laws(1) d2(1)]) simp
  ultimately show thesis using that d1(2) d2(2) by simp
qed

lemma bind_struct_names:
  assumes "bind_wf x"
  shows "bind_source (bind_struct x) = bm_source x" "bind_dest (bind_struct x) = bm_dest x"
  using arg_cong [OF bind_view_struct [OF assms], of bm_source] arg_cong [OF bind_view_struct [OF assms], of bm_dest]
  by (simp_all add: bind_view_def bind_source_def bind_dest_def)

lemma sent_in [simp]: "(sent ms s)\<lparr>s_in := evs\<rparr> = sent ms (s\<lparr>s_in := evs\<rparr>)"
  by (simp add: sent_def)

lemma main_loop_step:
  assumes "announce cfg a ready s = Done (0, s1)" "session_read_message env cfg s1 = Done (Inr m, s2)"
    "serve_message cfg eng m s2 = Done ((result, ready'), s3)" "result \<noteq> 1"
  shows "message_loop (Select_result a # sels) env cfg eng ready s = message_loop sels env cfg eng ready' s3"
  using assms by (simp add: act_defs)

text \<open>A message that has arrived is read and served; the answer is one message or none.\<close>

lemma main_loop_next:
  assumes m: "framed m" "length (wire_image m) \<le> MAX_STR_CONST cfg" "MAX_STR_CONST cfg < 2 ^ 31"
    and str: "incoming (ssl_active s) (s_in s) = wire_image m @ rest"
    and serve: "\<And>evs. \<exists>db. serve_message cfg eng m (s\<lparr>s_in := evs\<rparr>) = Done ((0, True), sent rs (s\<lparr>s_in := evs, s_db := db\<rparr>)) \<and> P db"
    and ready: "willing (length rs + n) s"
  obtains s' where
    "message_loop (Select_result True # sels) env cfg eng ready s = message_loop sels env cfg eng True s'"
    "P (s_db s')" "session_id s' = session_id s" "s_wire s' = s_wire s @ concat (map wire_image rs)" "willing n s'"
    "incoming (ssl_active s') (s_in s') = rest" "closing (ssl_active s') (s_in s') = closing (ssl_active s) (s_in s)"
proof -
  from session_read_next [OF m(1) str m(2,3), where env = env] obtain evs where
    e: "session_read_message env cfg s = Done (Inr m, s\<lparr>s_in := evs\<rparr>)" "incoming (ssl_active s) evs = rest"
      "closing (ssl_active s) evs = closing (ssl_active s) (s_in s)" by blast
  from serve [of evs] obtain db where d: "serve_message cfg eng m (s\<lparr>s_in := evs\<rparr>) = Done ((0, True), sent rs (s\<lparr>s_in := evs, s_db := db\<rparr>))"
    and P: "P db" by blast
  have "announce cfg True ready s = Done (0, s)" by (simp add: announce_def ret_def)
  from main_loop_step [OF this e(1) d]
  have "message_loop (Select_result True # sels) env cfg eng ready s = message_loop sels env cfg eng True (sent rs (s\<lparr>s_in := evs, s_db := db\<rparr>))"
    by simp
  moreover have "willing n (sent rs (s\<lparr>s_in := evs, s_db := db\<rparr>))" using ready by (intro willing_sent) simp
  ultimately show thesis using that [of "sent rs (s\<lparr>s_in := evs, s_db := db\<rparr>)"] P e(2,3) by simp
qed

text \<open>When nothing has arrived, the client is told that the server is ready, and the server waits.\<close>

lemma main_loop_waits:
  assumes "quiet cfg" "willing (Suc n) s" "incoming (ssl_active s) (s_in s) = []" "closing (ssl_active s) (s_in s) = None" "5 \<le> MAX_STR_CONST cfg"
  shows "message_loop (Select_result False # sels) env cfg eng True s
    = Failed (Stop_blocked, sent [make_ready_for_query PSQL_TransactionStatus_IDLE] s)"
proof -
  let ?s = "sent [make_ready_for_query PSQL_TransactionStatus_IDLE] s"
  have "announce cfg False True s = Done (0, ?s)"
    using session_send_sent [OF assms(1,2) fixed_messages(5,10)] by (simp add: announce_def)
  moreover have "session_read_message env cfg ?s = Failed (Stop_blocked, ?s)"
    using assms by (intro session_read_blocked) simp_all
  ultimately show ?thesis by (simp add: act_defs)
qed

lemma serve_parse:
  assumes "ydb_works (c_api cfg)" "quiet cfg" "willing (Suc n) s" "parse_wf p" "length (parse_image p) + 4 < 2 ^ 32"
  shows "\<exists>db. serve_message cfg eng (client_message PSQL_Parse (parse_image p)) s = Done ((0, True), sent [make_parse_complete] (s\<lparr>s_db := db\<rparr>))
    \<and> ydb_set_s (c_api cfg) (s_db s) (gn_session cfg) [session_id s, ''prepared'', p_dest p] (p_query p) = YDB_OK db"
proof -
  obtain db where "ydb_set_s (c_api cfg) (s_db s) (gn_session cfg) [session_id s, ''prepared'', p_dest p] (p_query p) = YDB_OK db"
    "handle_parse cfg p s = Done (0, sent [make_parse_complete] (s\<lparr>s_db := db\<rparr>))"
    using handle_parse_works [OF assms(1-3)] by blast
  with parse_reader.reads_client_message [OF assms(4,5)] show ?thesis
    by (simp add: serve_message_def dispatch_def act_defs octo_log_quiet [OF assms(2)] Let_def) (simp add: client_message_def act_defs)
qed

lemma serve_bind:
  assumes "ydb_works (c_api cfg)" "quiet cfg" "willing (Suc n) s" "mtype m = PSQL_Bind" "read_bind m = Done (b, err)"
    and "ydb_get_s (c_api cfg) (s_db s) (gn_session cfg) [session_id s, ''prepared'', bind_source b] (MAX_STR_CONST cfg - 1) = YDB_OK stmt"
    and "bind_loop (MAX_STR_CONST cfg) b stmt [] = Done q"
  shows "\<exists>db. serve_message cfg eng m s = Done ((0, True), sent [make_bind_complete] (s\<lparr>s_db := db\<rparr>))
    \<and> ydb_set_s (c_api cfg) (s_db s) (gn_session cfg) [session_id s, ''bound'', bind_dest b] q = YDB_OK db"
proof -
  obtain db where "ydb_set_s (c_api cfg) (s_db s) (gn_session cfg) [session_id s, ''bound'', bind_dest b] q = YDB_OK db"
    "handle_bind cfg b s = Done (0, sent [make_bind_complete] (s\<lparr>s_db := db\<rparr>))"
    using handle_bind_works [OF assms(1-3,6,7)] by blast
  with assms(4,5) show ?thesis
    by (simp add: serve_message_def dispatch_def act_defs octo_log_quiet [OF assms(2)] Let_def)
qed

lemma serve_sync:
  assumes "quiet cfg"
  shows "serve_message cfg eng (client_message PSQL_Sync []) s = Done ((0, True), s)"
  by (simp add: serve_message_def dispatch_def client_message_def act_defs octo_log_quiet [OF assms] Let_def)

lemma main_loop_sync:
  assumes "quiet cfg" "MAX_STR_CONST cfg < 2 ^ 31" "5 \<le> MAX_STR_CONST cfg" "willing 1 s"
    and "incoming (ssl_active s) (s_in s) = wire_image (client_message PSQL_Sync []) @ []" "closing (ssl_active s) (s_in s) = None"
  obtains s' where "message_loop [Select_result True, Select_result False] env cfg eng ready s = Failed (Stop_blocked, s')"
    "s_db s' = s_db s" "s_wire s' = s_wire s @ wire_image (make_ready_for_query PSQL_TransactionStatus_IDLE)"
proof -
  have ss: "\<exists>db. serve_message cfg eng (client_message PSQL_Sync []) (s\<lparr>s_in := evs\<rparr>)
      = Done ((0, True), sent [] (s\<lparr>s_in := evs, s_db := db\<rparr>)) \<and> db = s_db s" for evs
    using serve_sync [OF assms(1)] by simp
  have "willing (length ([] :: BaseMessage list) + 1) s" using assms(4) by simp
  from main_loop_next [OF framed_client_message _ assms(2,5) ss this, of "[Select_result False]" env ready] assms(3)
  obtain s' where s': "message_loop [Select_result True, Select_result False] env cfg eng ready s
        = message_loop [Select_result False] env cfg eng True s'"
      "s_db s' = s_db s" "s_wire s' = s_wire s" "willing (Suc 0) s'"
      "incoming (ssl_active s') (s_in s') = []" "closing (ssl_active s') (s_in s') = None"
    using assms(6) by (auto simp del: message_loop.simps simp: wire_image_def client_message_def)
  then show thesis
    using main_loop_waits [OF assms(1) s'(4-6) assms(3), of "[]" env eng]
    by (intro that [of "sent [make_ready_for_query PSQL_TransactionStatus_IDLE] s'"]) (simp_all del: message_loop.simps)
qed

text \<open>Parse, Bind and Sync.\<close>

lemma prepare_loop:
  assumes laws: "ydb_laws (c_api cfg)" "ydb_works (c_api cfg)" "quiet cfg" and ready: "willing 3 s"
    and size: "MAX_STR_CONST cfg < 2 ^ 31" "5 \<le> MAX_STR_CONST cfg"
    and parse: "parse_wf p" "length (wire_image (client_message PSQL_Parse (parse_image p))) \<le> MAX_STR_CONST cfg"
    and bind_message: "framed mb" "mtype mb = PSQL_Bind" "read_bind mb = Done (b, err)" "length (wire_image mb) \<le> MAX_STR_CONST cfg"
    and arrived: "incoming (ssl_active s) (s_in s) = wire_image (client_message PSQL_Parse (parse_image p)) @ wire_image mb
        @ wire_image (client_message PSQL_Sync [])" "closing (ssl_active s) (s_in s) = None"
    and bound: "bind_source b = p_dest p" "bind_loop (MAX_STR_CONST cfg) b (p_query p) [] = Done q"
      "length (p_query p) < MAX_STR_CONST cfg" "length q < MAX_STR_CONST cfg"
  shows "\<exists>s'. message_loop [Select_result True, Select_result True, Select_result True, Select_result False] env cfg eng True s
        = Failed (Stop_blocked, s')
    \<and> s_wire s' = s_wire s @ wire_image make_parse_complete @ wire_image make_bind_complete
        @ wire_image (make_ready_for_query PSQL_TransactionStatus_IDLE)
    \<and> ydb_get_s (c_api cfg) (s_db s') (gn_session cfg) [session_id s, ''prepared'', p_dest p] (MAX_STR_CONST cfg) = YDB_OK (p_query p)
    \<and> ydb_get_s (c_api cfg) (s_db s') (gn_session cfg) [session_id s, ''bound'', bind_dest b] (MAX_STR_CONST cfg) = YDB_OK q"
proof -
  let ?mp = "client_message PSQL_Parse (parse_image p)" and ?ms = "client_message PSQL_Sync []" and ?n = "MAX_STR_CONST cfg"
    and ?g = "gn_session cfg" and ?id = "session_id s"
  have lp: "length (parse_image p) + 4 < 2 ^ 32" using parse(2) size(1) by (simp add: wire_image_def client_message_def)
  have sp: "\<exists>db. serve_message cfg eng ?mp (s\<lparr>s_in := evs\<rparr>) = Done ((0, True), sent [make_parse_complete] (s\<lparr>s_in := evs, s_db := db\<rparr>))
      \<and> ydb_set_s (c_api cfg) (s_db s) ?g [?id, ''prepared'', p_dest p] (p_query p) = YDB_OK db" for evs
    using serve_parse [OF laws(2,3) _ parse(1) lp, of 2 "s\<lparr>s_in := evs\<rparr>" eng] ready by (auto simp: numeral_3_eq_3)
  have ready': "willing (length [make_parse_complete] + 2) s" using ready by (simp add: numeral_3_eq_3)
  from main_loop_next [OF framed_client_message [OF lp] parse(2) size(1) arrived(1) sp ready',
      of "[Select_result True, Select_result True, Select_result False]" env True]
  obtain s1 where s1: "message_loop [Select_result True, Select_result True, Select_result True, Select_result False] env cfg eng True s
        = message_loop [Select_result True, Select_result True, Select_result False] env cfg eng True s1"
      "session_id s1 = ?id" "s_wire s1 = s_wire s @ wire_image make_parse_complete" "willing 2 s1"
      "incoming (ssl_active s1) (s_in s1) = wire_image mb @ wire_image ?ms" "closing (ssl_active s1) (s_in s1) = None"
    and d1: "ydb_set_s (c_api cfg) (s_db s) ?g [?id, ''prepared'', p_dest p] (p_query p) = YDB_OK (s_db s1)"
    using arrived(2) by (auto simp del: message_loop.simps)
  have g1: "ydb_get_s (c_api cfg) (s_db s1) ?g [?id, ''prepared'', p_dest p] r = YDB_OK (p_query p)" if "length (p_query p) \<le> r" for r
    using that by (intro ydb_get_set [OF laws(1) d1]) simp
  have sb: "\<exists>db. serve_message cfg eng mb (s1\<lparr>s_in := evs\<rparr>) = Done ((0, True), sent [make_bind_complete] (s1\<lparr>s_in := evs, s_db := db\<rparr>))
      \<and> ydb_set_s (c_api cfg) (s_db s1) ?g [?id, ''bound'', bind_dest b] q = YDB_OK db" for evs
    using serve_bind [OF laws(2,3) _ bind_message(2,3) _ bound(2), of 1 "s1\<lparr>s_in := evs\<rparr>" eng] g1 [of "?n - 1"] bound(1,3) s1(2,4)
    by (simp add: numeral_2_eq_2)
  have "willing (length [make_bind_complete] + 1) s1" using s1(4) by (simp add: numeral_2_eq_2)
  from main_loop_next [OF bind_message(1,4) size(1) s1(5) sb this, of "[Select_result True, Select_result False]" env True]
  obtain s2 where s2: "message_loop [Select_result True, Select_result True, Select_result False] env cfg eng True s1
        = message_loop [Select_result True, Select_result False] env cfg eng True s2"
      "session_id s2 = ?id" "s_wire s2 = s_wire s @ wire_image make_parse_complete @ wire_image make_bind_complete" "willing 1 s2"
      "incoming (ssl_active s2) (s_in s2) = wire_image ?ms @ []" "closing (ssl_active s2) (s_in s2) = None"
    and d2: "ydb_set_s (c_api cfg) (s_db s1) ?g [?id, ''bound'', bind_dest b] q = YDB_OK (s_db s2)"
    using s1(2,3,6) by (auto simp del: message_loop.simps)
  obtain s3 where s3: "message_loop [Select_result True, Select_result False] env cfg eng True s2 = Failed (Stop_blocked, s3)"
      "s_db s3 = s_db s2" "s_wire s3 = s_wire s2 @ wire_image (make_ready_for_query PSQL_TransactionStatus_IDLE)"
    using main_loop_sync [OF laws(3) size s2(4-6)] by blast
  have g2: "ydb_get_s (c_api cfg) (s_db s2) ?g [?id, ''prepared'', p_dest p] ?n = YDB_OK (p_query p)"
    using ydb_get_set_other [OF laws(1) d2] g1 [of ?n] bound(3) by simp
  have g3: "ydb_get_s (c_api cfg) (s_db s2) ?g [?id, ''bound'', bind_dest b] ?n = YDB_OK q"
    using bound(4) by (intro ydb_get_set [OF laws(1) d2]) simp
  have "message_loop [Select_result True, Select_result True, Select_result True, Select_result False] env cfg eng True s
      = Failed (Stop_blocked, s3)"
    using s1(1) s2(1) s3(1) by (simp del: message_loop.simps)
  then show ?thesis using g2 g3 s2(3) s3(2,3) by (auto simp del: message_loop.simps)
qed

section \<open>Properties of the message loop\<close>

text \<open>C1.
  The main loop behaves as the abstract server that is handed whole messages: whatever the chunks are in which the
  bytes of the messages \<open>ms\<close> arrive, and wherever \<open>select\<close> is interrupted, the messages are served in their order, each
  exactly once, after the function's first log message. The two runs agree in everything but the bytes that are left to read.
\<close>

theorem messages_served_in_order:
  assumes "MAX_STR_CONST cfg < 2 ^ 31" "\<forall>m \<in> set ms. framed m \<and> length (wire_image m) \<le> MAX_STR_CONST cfg"
    "\<forall>e. Select_failed e \<in> set sels \<longrightarrow> e = EINTR" "length (select_answers sels) \<le> length ms"
    "incoming (ssl_active s) (s_in s) = concat (map wire_image ms) @ rest"
  shows "put_in [] (rocto_main_loop sels env cfg eng s)
    = put_in [] (seq (octo_log cfg TRACE (Trace ERR_ENTERING_FUNCTION) [ArgS ''rocto_main_loop'']) (\<lambda>_.
        serve (zip (select_answers sels) ms) cfg eng True) s)"
  unfolding rocto_main_loop_def
proof (rule put_in_seq)
  fix x s'
  assume "octo_log cfg TRACE (Trace ERR_ENTERING_FUNCTION) [ArgS ''rocto_main_loop''] s = Done (x, s')"
  then have e: "ends_in (octo_log cfg TRACE (Trace ERR_ENTERING_FUNCTION) [ArgS ''rocto_main_loop''] s) s'" by simp
  have "incoming (ssl_active s') (s_in s') = concat (map wire_image ms) @ rest"
    using local_input [OF local_octo_log e] local_session [OF local_octo_log e] assms(5) by simp
  then show "put_in [] (message_loop sels env cfg eng True s') = put_in [] (serve (zip (select_answers sels) ms) cfg eng True s')"
    by (rule main_loop_serves [OF assms(1-4)])
qed

definition sample_env :: rocto_env where
  "sample_env =
     \<lparr>ssl_on = False, tls_context = False, tls_socket = False, md5_hash = (\<lambda>s. take 16 (s @ replicate 16 NUL)),
      getrandom = (\<lambda>old. ''salt'' @ [NUL]), errno_number = (\<lambda>e. 5), strerror = (\<lambda>e. ''error''), tls_error = []\<rparr>"

text \<open>An engine whose parser takes every input for the end of the input.\<close>

definition sample_engine :: "(tree, unit) engine" where
  "sample_engine =
     \<lparr>yyparse = (\<lambda>input i db. (Some No_data_stmt, length input, True, [], db)), canonical_hash = (\<lambda>q. (1, 2)),
      plan_exists = (\<lambda>plan db. False), lock_file = (\<lambda>plan db. db), unlock_file = (\<lambda>plan db. db),
      emit_select_statement = (\<lambda>q plan db. None), ydb_ci_select = (\<lambda>c plan routine db. YDB_ERR 0), compress_statement = (\<lambda>t. [])\<rparr>"

theorem messages_served_in_order_witness:
  "let ms = [client_message PSQL_Sync [], client_message PSQL_Terminate []];
       s = sample_session [Received (take 3 (concat (map wire_image ms))), Received (drop 3 (concat (map wire_image ms)))] [] [];
       sels = [Select_result True, Select_failed EINTR, Select_result True]
   in put_in [] (rocto_main_loop sels sample_env sample_config sample_engine s)
     = put_in [] (serve (zip [True, True] ms) sample_config sample_engine True s)"
proof -
  let ?ms = "[client_message PSQL_Sync [], client_message PSQL_Terminate []]"
  let ?s = "sample_session [Received (take 3 (concat (map wire_image ?ms))), Received (drop 3 (concat (map wire_image ?ms)))] [] []"
  let ?sels = "[Select_result True, Select_failed EINTR, Select_result True]"
  have "MAX_STR_CONST sample_config < 2 ^ 31" by (simp add: sample_config_def)
  moreover have "\<forall>m \<in> set ?ms. framed m \<and> length (wire_image m) \<le> MAX_STR_CONST sample_config"
    by (simp add: sample_config_def client_message_def framed_def wire_image_def)
  moreover have "incoming (ssl_active ?s) (s_in ?s) = concat (map wire_image ?ms) @ []"
    by (simp add: sample_session_def ends_def wire_image_def client_message_def)
  moreover have "\<forall>e. Select_failed e \<in> set ?sels \<longrightarrow> e = EINTR" "length (select_answers ?sels) \<le> length ?ms" by simp_all
  ultimately show ?thesis
    using messages_served_in_order [of sample_config ?ms ?sels ?s "[]" sample_env sample_engine]
    by (simp add: Let_def seq_def octo_log_quiet [OF sample_config_laws(3)])
qed

text \<open>C4.
  A client that prepares a statement, binds its parameters and sends Sync is answered with ParseComplete,
  BindComplete and, once nothing more has arrived, ReadyForQuery; then the server waits for the next message. The
  database holds the statement, and as the portal its text with every parameter replaced by the value that was sent.
  The bytes may arrive in any chunks.
\<close>

theorem prepare_is_answered:
  assumes laws: "ydb_laws (c_api cfg)" "ydb_works (c_api cfg)" "quiet cfg" and ready: "willing 3 s"
    and size: "MAX_STR_CONST cfg < 2 ^ 31" "5 \<le> MAX_STR_CONST cfg"
    and parse: "parse_wf p" "p_query p = statement_text ps rest" "length (p_query p) < MAX_STR_CONST cfg"
      "length (wire_image (client_message PSQL_Parse (parse_image p))) \<le> MAX_STR_CONST cfg"
    and parameters: "bind_wf x" "bm_source x = p_dest p" "separated ps rest" "length (bound_text v ps rest) < MAX_STR_CONST cfg"
      "\<forall>(piece, n) \<in> set ps. n < length (bm_parms x) \<and> sent_text (MAX_STR_CONST cfg) x n = Done (v n)"
      "length (wire_image (client_message PSQL_Bind (bind_image x))) \<le> MAX_STR_CONST cfg"
    and arrived: "incoming (ssl_active s) (s_in s) = wire_image (client_message PSQL_Parse (parse_image p))
        @ wire_image (client_message PSQL_Bind (bind_image x)) @ wire_image (client_message PSQL_Sync [])"
      "closing (ssl_active s) (s_in s) = None"
  shows "\<exists>s'. rocto_main_loop [Select_result True, Select_result True, Select_result True, Select_result False] env cfg eng s
        = Failed (Stop_blocked, s')
    \<and> s_wire s' = s_wire s @ wire_image make_parse_complete @ wire_image make_bind_complete
        @ wire_image (make_ready_for_query PSQL_TransactionStatus_IDLE)
    \<and> ydb_get_s (c_api cfg) (s_db s') (gn_session cfg) [session_id s, ''prepared'', p_dest p] (MAX_STR_CONST cfg) = YDB_OK (p_query p)
    \<and> ydb_get_s (c_api cfg) (s_db s') (gn_session cfg) [session_id s, ''bound'', bm_dest x] (MAX_STR_CONST cfg)
      = YDB_OK (bound_text v ps rest)"
proof -
  let ?mb = "client_message PSQL_Bind (bind_image x)"
  have fr: "framed ?mb"
    using parameters(6) size(1) by (intro framed_client_message) (simp add: wire_image_def client_message_def)
  have mt: "mtype ?mb = PSQL_Bind" "mdata ?mb = bind_image x" by (simp_all only: client_message_def BaseMessage.simps)
  have names: "bind_source (bind_struct x) = p_dest p" "bind_dest (bind_struct x) = bm_dest x"
    using bind_struct_names [OF parameters(1)] parameters(2) by simp_all
  have "bind_loop (MAX_STR_CONST cfg) (bind_struct x) (p_query p) [] = Done (bound_text v ps rest)"
    unfolding parse(2) by (rule bind_loop_struct [OF parameters(1,3,5,4)])
  from prepare_loop [OF laws ready size parse(1,4) fr mt(1) read_bind_image [OF fr mt(1) parameters(1) mt(2)] parameters(6)
      arrived names(1) this parse(3) parameters(4)] names(2)
  show ?thesis by (simp del: message_loop.simps add: rocto_main_loop_def seq_def octo_log_quiet [OF laws(3)])
qed

theorem prepare_is_answered_witness:
  "let x = \<lparr>bm_dest = ''p'', bm_source = ''s'', bm_formats = [], bm_parms = [''a''], bm_results = []\<rparr>;
       input = wire_image (client_message PSQL_Parse (parse_image \<lparr>p_dest = ''s'', p_query = ''select $0;'',
           p_num_parm_data_types = 0, p_parm_data_types = []\<rparr>))
         @ wire_image (client_message PSQL_Bind (bind_image x)) @ wire_image (client_message PSQL_Sync []);
       s = sample_session [Received input] (replicate 3 ([Accepted (2 ^ 31)], 0, None)) []
   in \<exists>s'. rocto_main_loop [Select_result True, Select_result True, Select_result True, Select_result False]
         sample_env sample_config sample_engine s = Failed (Stop_blocked, s')
     \<and> s_wire s' = wire_image make_parse_complete @ wire_image make_bind_complete
         @ wire_image (make_ready_for_query PSQL_TransactionStatus_IDLE)
     \<and> ydb_get_s tree_api (s_db s') ''^session'' [''1'', ''bound'', ''p''] 200 = YDB_OK (''select '' @ CHR 0x22 # ''a'' @ CHR 0x22 # '';'')"
proof -
  let ?x = "\<lparr>bm_dest = ''p'', bm_source = ''s'', bm_formats = [], bm_parms = [''a''], bm_results = []\<rparr>"
  let ?p = "\<lparr>p_dest = ''s'', p_query = ''select $0;'', p_num_parm_data_types = 0, p_parm_data_types = []\<rparr>"
  let ?ps = "[(''select '', 0)] :: (string \<times> nat) list" and ?v = "\<lambda>n :: nat. ''a''"
  let ?input = "wire_image (client_message PSQL_Parse (parse_image ?p)) @ wire_image (client_message PSQL_Bind (bind_image ?x))
      @ wire_image (client_message PSQL_Sync [])"
  let ?s = "sample_session [Received ?input] (replicate 3 ([Accepted (2 ^ 31)], 0, None)) []"
  have d: "nat_dec 0 = ''0''" by (subst nat_dec.simps) (simp add: dec_digit_def char_of_def bit_0)
  have willing: "willing 3 ?s" by (simp add: willing_def sample_session_def)
  have small: "MAX_STR_CONST sample_config < 2 ^ 31" "5 \<le> MAX_STR_CONST sample_config" by (simp_all add: sample_config_def)
  have parse: "parse_wf ?p" "p_query ?p = statement_text ?ps '';''" "length (p_query ?p) < MAX_STR_CONST sample_config"
      "length (wire_image (client_message PSQL_Parse (parse_image ?p))) \<le> MAX_STR_CONST sample_config"
    by (simp_all add: parse_wf_def parse_image_def client_message_def wire_image_def sample_config_def d)
  have parameters: "bind_wf ?x" "bm_source ?x = p_dest ?p" "separated ?ps '';''" "length (bound_text ?v ?ps '';'') < MAX_STR_CONST sample_config"
      "\<forall>(piece, n) \<in> set ?ps. n < length (bm_parms ?x) \<and> sent_text (MAX_STR_CONST sample_config) ?x n = Done (?v n)"
      "length (wire_image (client_message PSQL_Bind (bind_image ?x))) \<le> MAX_STR_CONST sample_config"
    by (simp_all add: bind_wf_def is_digit_def d sample_config_def sent_text_def sent_format_def bind_image_def client_message_def wire_image_def)
  have "wire_image (client_message PSQL_Sync []) \<noteq> []" by (simp add: wire_image_def)
  then have str: "incoming (ssl_active ?s) (s_in ?s) = ?input" "closing (ssl_active ?s) (s_in ?s) = None"
    by (simp_all add: sample_session_def ends_def)
  have config: "c_api sample_config = tree_api" "gn_session sample_config = ''^session''" "MAX_STR_CONST sample_config = 200"
      "session_id ?s = ''1''" "s_wire ?s = []"
    by (simp_all add: sample_config_def sample_session_def)
  have portal: "bound_text ?v ?ps '';'' = ''select '' @ CHR 0x22 # ''a'' @ CHR 0x22 # '';''" by simp
  from prepare_is_answered [OF sample_config_laws willing small parse parameters str, of sample_env sample_engine, unfolded config portal]
  show ?thesis unfolding Let_def by auto
qed



end
