(* ===== verification/Login_Properties.thy ===== *)
theory Login_Properties
  imports Server_Properties
begin

text \<open>
  Authentication: nobody changes the database before the password was checked, and a client that knows the
  password gets in. \<open>keeps_db\<close> says of an action that it leaves the database as it is; the rules prove it along the
  structure of the definitions.
\<close>

section \<open>Actions that leave the database alone\<close>

definition keeps_db :: "('db, 'a) act \<Rightarrow> bool" where
  "keeps_db m \<longleftrightarrow> (\<forall>s s'. ends_in (m s) s' \<longrightarrow> s_db s' = s_db s)"

named_theorems db_rules

lemma keeps_basic [db_rules]: "keeps_db (ret x)" "keeps_db (gets f)" "keeps_db (\<lambda>s. Undefined)" "keeps_db (\<lambda>s. Failed (e, s))"
  by (simp_all add: keeps_db_def ret_def gets_def)

lemma keeps_change: "(\<And>s. s_db (f s) = s_db s) \<Longrightarrow> keeps_db (change f)"
  by (simp add: keeps_db_def change_def)

lemma keeps_seq [db_rules]:
  assumes "keeps_db m" "\<And>x. keeps_db (f x)"
  shows "keeps_db (seq m f)"
  unfolding keeps_db_def
proof (intro allI impI)
  fix s s'
  assume e: "ends_in (seq m f s) s'"
  show "s_db s' = s_db s"
  proof (cases rule: outcome_cases [of m s])
    case (3 x s1)
    then have "ends_in (f x s1) s'" "s_db s1 = s_db s" using e assms(1) by (simp_all add: seq_def keeps_db_def)
    then show ?thesis using assms(2) [of x] by (simp add: keeps_db_def)
  qed (use e assms(1) in \<open>simp_all add: seq_def keeps_db_def\<close>)
qed

lemma keeps_branches [db_rules]:
  "(b \<Longrightarrow> keeps_db m) \<Longrightarrow> (\<not> b \<Longrightarrow> keeps_db n) \<Longrightarrow> keeps_db (if b then m else n)"
  "keeps_db m \<Longrightarrow> (\<And>x. keeps_db (f x)) \<Longrightarrow> keeps_db (case opt of None \<Rightarrow> m | Some x \<Rightarrow> f x)"
  "(\<And>x. keeps_db (h x)) \<Longrightarrow> (\<And>x. keeps_db (g x)) \<Longrightarrow> keeps_db (case r of Inl x \<Rightarrow> h x | Inr x \<Rightarrow> g x)"
  "keeps_db m \<Longrightarrow> (\<And>x. keeps_db (k x)) \<Longrightarrow> (\<And>x. keeps_db (l x)) \<Longrightarrow>
    keeps_db (case q of Undefined \<Rightarrow> m | Failed x \<Rightarrow> k x | Done x \<Rightarrow> l x)"
  by (auto split: option.split sum.split outcome.split)

lemma keeps_pointwise: "(\<And>s. \<exists>n. keeps_db n \<and> m s = n s) \<Longrightarrow> keeps_db m"
  unfolding keeps_db_def by metis

lemma keeps_defined [db_rules]: "keeps_db (defined r)"
  by (cases r) (simp_all add: keeps_db_def)

lemma keeps_deliver [db_rules]: "keeps_db (deliver m)"
  by (auto simp: keeps_db_def deliver_def Let_def split: list.splits outcome.splits send_result.splits prod.splits)

lemma keeps_session_send_bytes [db_rules]: "keeps_db (session_send_bytes bs)"
  by (auto simp: keeps_db_def session_send_bytes_def Let_def split: list.splits outcome.splits send_result.splits prod.splits)

lemma keeps_octo_log [db_rules]: "keeps_db (octo_log cfg level e args)"
  unfolding octo_log_def by (intro db_rules keeps_change) simp_all

lemma keeps_session_send [db_rules]: "keeps_db (session_send cfg m)"
  unfolding session_send_def by (intro db_rules)

lemma keeps_answer_error [db_rules]: "keeps_db (answer_error cfg e)"
  unfolding answer_error_def by (intro db_rules)

lemma keeps_fatal [db_rules]: "keeps_db (fatal cfg e args)"
  unfolding fatal_def by (intro db_rules)

lemma keeps_read_bytes [db_rules]: "keeps_db (session_read_bytes env cfg n)"
proof -
  have "keeps_db (seq (octo_log cfg level e args) (\<lambda>_. ret (Inl c :: int + string)))" for level e args c by (intro db_rules)
  moreover have "keeps_db (fatal cfg e args :: ('a, int + string) act)" for e args by (rule keeps_fatal)
  ultimately show ?thesis
    unfolding keeps_db_def session_read_bytes_def by (auto split: read_result.splits simp del: if_split)
qed

lemma keeps_read_message [db_rules]: "keeps_db (session_read_message env cfg)"
  unfolding session_read_message_def by (intro db_rules)

lemma keeps_negotiate [db_rules]: "keeps_db (negotiate env cfg)"
  unfolding negotiate_def read_header_def by (intro db_rules keeps_change) simp

lemma keeps_startup [db_rules]: "keeps_db (startup cfg header)"
proof -
  have a: "keeps_db (seq (answer_error cfg e) (\<lambda>_. ret (None :: StartupMessage option)))" for e
    by (intro db_rules)
  show ?thesis
    unfolding keeps_db_def startup_def using a [unfolded keeps_db_def]
    by (auto split: outcome.splits stop.splits prod.splits)
qed

section \<open>The check of the password\<close>

definition login_salt :: "rocto_env \<Rightarrow> 'db octo_config \<Rightarrow> string" where
  "login_salt env cfg = getrandom env (fresh_memory cfg)"

text \<open>
  A password message that answers the challenge for the user of a startup message: it is the hash, as hexadecimal
  digits, of the digits in the user's row followed by the salt.
\<close>

definition proves_password :: "rocto_env \<Rightarrow> 'db octo_config \<Rightarrow> 'db \<Rightarrow> StartupMessage \<Rightarrow> PasswordMessage \<Rightarrow> bool" where
  "proves_password env cfg db sm pm \<longleftrightarrow>
     (\<exists>parm row hash hex.
        find (\<lambda>p. smp_name p = ''user'') (sm_parameters sm) = Some parm
        \<and> ydb_get_s (c_api cfg) db (gn_octo cfg) [''users'', smp_value parm] (MAX_STR_CONST cfg) = YDB_OK row
        \<and> get_user_column_value (MAX_STR_CONST cfg) row UserColumn_ROLPASSWORD = Done hash \<and> 3 \<le> length hash
        \<and> md5_to_hex (md5_hash env (drop 3 hash @ take 4 (login_salt env cfg))) 33 = Done (Some hex)
        \<and> pm_password pm = ''md5'' @ hex)"

lemma no_error_Done: "no_error r = Done x \<Longrightarrow> r = Done x"
  by (cases r) simp_all

lemma password_accepted:
  assumes "handle_password_message (md5_hash env) (c_api cfg) (MAX_STR_CONST cfg) db (gn_octo cfg) pm sm (login_salt env cfg) = Done u"
  shows "proves_password env cfg db sm pm"
proof -
  let ?n = "MAX_STR_CONST cfg" and ?salt = "login_salt env cfg"
  have p: "take 3 (pm_password pm) = ''md5''" using assms by (auto simp: handle_password_message_def Let_def split: if_splits)
  then obtain parm where parm: "find (\<lambda>p. smp_name p = ''user'') (sm_parameters sm) = Some parm"
    using assms by (auto simp: handle_password_message_def Let_def split: option.splits)
  then obtain row where row: "ydb_get_s (c_api cfg) db (gn_octo cfg) [''users'', smp_value parm] ?n = YDB_OK row"
    using assms p by (auto simp: handle_password_message_def Let_def split: if_splits ydb_status.splits)
  then obtain hash where hash: "get_user_column_value ?n row UserColumn_ROLPASSWORD = Done hash"
    using assms p parm by (cases "get_user_column_value ?n row UserColumn_ROLPASSWORD") (auto simp: handle_password_message_def Let_def split: if_splits)
  then have l: "3 \<le> length hash"
    using assms p parm row by (auto simp: handle_password_message_def Let_def split: if_splits)
  obtain hex where hex: "md5_to_hex (md5_hash env (drop 3 hash @ take 4 ?salt)) 33 = Done (Some hex)" "hex = drop 3 (pm_password pm)"
    using assms p parm row hash
    by (cases "md5_to_hex (md5_hash env (drop 3 hash @ take 4 ?salt)) 33")
      (auto simp: handle_password_message_def Let_def split: if_splits option.splits)
  have "pm_password pm = ''md5'' @ hex" using append_take_drop_id [of 3 "pm_password pm"] p hex(2) by simp
  with parm row hash l hex(1) show ?thesis unfolding proves_password_def by blast
qed

lemma report_Done: "and_then (report r) f = Done y \<Longrightarrow> (\<And>x. r = Done x \<Longrightarrow> f x = Done y \<Longrightarrow> P) \<Longrightarrow> P"
  by (cases r) simp_all

lemma seq_Done: "seq m f s = Done y \<longleftrightarrow> (\<exists>x s1. m s = Done (x, s1) \<and> f x s1 = Done y)"
  by (cases "m s") (auto simp: seq_def)

lemma keeps_Done: "keeps_db m \<Longrightarrow> m s = Done (x, s') \<Longrightarrow> s_db s' = s_db s"
  by (simp add: keeps_db_def)

section \<open>What was read\<close>

abbreviation to_read :: "'db RoctoSession \<Rightarrow> string" where
  "to_read s \<equiv> incoming (ssl_active s) (s_in s)"

lemma read_bytes_ok:
  assumes "read_bytes tls evs bsize n = Read_ok bs evs'"
  shows "incoming tls evs = bs @ incoming tls evs' \<and> int (length bs) = n"
proof -
  have n: "0 \<le> n" "n \<le> bsize" "recv_loop tls evs (nat n) = Read_ok bs evs'"
    using assms by (auto simp: read_bytes_def split: if_splits)
  have "nat n \<le> length (incoming tls evs)"
  proof (rule ccontr)
    assume "\<not> nat n \<le> length (incoming tls evs)"
    then have "recv_loop tls evs (nat n) = closing_result tls (closing tls evs)" by (intro recv_loop_short) simp
    with n(3) show False by (auto simp: closing_result_def split: option.splits net_event.splits if_splits)
  qed
  with recv_loop_enough [OF this] n show ?thesis by auto
qed

lemma session_read_bytes_ok:
  assumes "session_read_bytes env cfg n s = Done (Inr bs, s')"
  shows "to_read s = bs @ to_read s' \<and> int (length bs) = n \<and> ssl_active s' = ssl_active s"
proof (cases "read_bytes (ssl_active s) (s_in s) (int (MAX_STR_CONST cfg)) n")
  case (Read_ok bs' evs)
  with assms have "bs' = bs" "s' = s\<lparr>s_in := evs\<rparr>" by (simp_all add: session_read_bytes_def)
  with read_bytes_ok [OF Read_ok] show ?thesis by simp
qed (use assms in \<open>auto simp: session_read_bytes_def seq_Done ret_def fatal_def\<close>)

lemma session_read_message_ok:
  assumes "session_read_message env cfg s = Done (Inr m, s')"
  shows "to_read s = wire_image m @ to_read s' \<and> ssl_active s' = ssl_active s"
proof -
  obtain r s1 where r: "session_read_bytes env cfg 5 s = Done (r, s1)" using assms by (auto simp: session_read_message_def seq_Done)
  with assms obtain hdr where h: "session_read_bytes env cfg 5 s = Done (Inr hdr, s1)"
    by (cases r) (auto simp: session_read_message_def seq_Done ret_def)
  with assms obtain q s2 where q: "session_read_bytes env cfg (sint (ntohl (drop 1 hdr) - 4)) s1 = Done (q, s2)"
    by (auto simp: session_read_message_def seq_Done ret_def)
  with assms h obtain dat where d: "session_read_bytes env cfg (sint (ntohl (drop 1 hdr) - 4)) s1 = Done (Inr dat, s')"
      "m = \<lparr>mtype = hd hdr, mlength = drop 1 hdr, mdata = dat\<rparr>"
    by (cases q) (auto simp: session_read_message_def seq_Done ret_def split: if_splits)
  have "length hdr = 5" using session_read_bytes_ok [OF h] by simp
  then have "hd hdr # drop 1 hdr = hdr" by (cases hdr) simp_all
  then have "wire_image m = hdr @ dat" using d(2) by (simp add: wire_image_def flip: append_Cons)
  then show ?thesis using session_read_bytes_ok [OF h] session_read_bytes_ok [OF d(1)] by simp
qed

lemma local_to_read: "local_act m \<Longrightarrow> m s = Done (x, s') \<Longrightarrow> to_read s' = to_read s \<and> ssl_active s' = ssl_active s"
  using local_input [of m s s'] local_session [of m s s'] by simp

lemma local_send_bytes: "session_send_bytes bs s = Done (x, s') \<Longrightarrow> to_read s' = to_read s \<and> ssl_active s' = ssl_active s"
  by (auto simp: session_send_bytes_def Let_def split: list.splits outcome.splits send_result.splits)

lemma negotiate_read:
  assumes "negotiate env cfg s = Done (Some hdr, s')" "\<not> ssl_on env"
  shows "(\<exists>request. to_read s = request @ hdr @ to_read s' \<and> (length request = 0 \<or> length request = 8)) \<and> length hdr = 8
    \<and> ssl_active s' = ssl_active s"
proof -
  have r: "to_read t = h @ to_read t' \<and> length h = 8 \<and> ssl_active t' = ssl_active t" if "read_header env cfg t = Done (h, t')" for t h t'
  proof -
    from that obtain q t1 where "session_read_bytes env cfg 8 t = Done (q, t1)" by (auto simp: read_header_def seq_Done)
    with that have "session_read_bytes env cfg 8 t = Done (Inr h, t')" by (cases q) (auto simp: read_header_def seq_Done ret_def)
    from session_read_bytes_ok [OF this] show ?thesis by simp
  qed
  from assms obtain h s1 where s1: "read_header env cfg s = Done (h, s1)"
    by (auto simp: negotiate_def seq_Done)
  show ?thesis
  proof (cases "read_ssl_request h")
    case (Done request)
    with assms s1 obtain c s2 where "session_send_bytes ''N'' s1 = Done (c, s2)" "read_header env cfg s2 = Done (hdr, s')"
      by (auto simp: negotiate_def seq_Done ret_def)
    with r [OF s1] r [of s2 hdr s'] local_send_bytes [of "''N''" s1 c s2] show ?thesis by auto
  next
    case (Failed e)
    with assms s1 r [OF s1] show ?thesis by (auto simp: negotiate_def seq_Done ret_def intro!: exI [of _ "[]"])
  qed (use assms s1 in \<open>auto simp: negotiate_def seq_Done\<close>)
qed

lemma startup_read:
  assumes "startup cfg hdr s = Done (Some sm, s')"
  shows "to_read s = startup_image (sm_parameters sm) @ to_read s' \<and> (\<forall>p \<in> set (sm_parameters sm). parm_wf p) \<and> ssl_active s' = ssl_active s"
proof -
  from assms obtain evs where e: "read_startup_message (ssl_active s) (s_in s) hdr = Done (sm, evs)" "s' = s\<lparr>s_in := evs\<rparr>"
    by (auto simp: startup_def seq_Done ret_def split: outcome.splits stop.splits prod.splits)
  then obtain n d where d: "read_bytes (ssl_active s) (s_in s) n n = Read_ok d evs" "parse_startup (take 8 hdr) d = Done sm"
    by (auto simp: read_startup_message_def Let_def split: if_splits read_result.splits elim!: report_Done)
  with read_bytes_ok [OF d(1)] e(2) show ?thesis by (simp add: parse_startup_iff)
qed

lemma authenticate_accepts:
  assumes "authenticate env cfg sm s = Done (True, s')"
  shows "\<exists>m pm. to_read s = wire_image m @ to_read s' \<and> read_password_message m = Done pm \<and> proves_password env cfg (s_db s) sm pm
    \<and> ssl_active s' = ssl_active s"
proof -
  let ?auth = "\<lparr>mtype = PSQL_AuthenticationMD5Password, mlength = htonl (4 + 4 + 4), mdata = htonl 5 @ take 4 (login_salt env cfg)\<rparr>"
  have a: "make_authentication_md5_password (getrandom env) (Some s) (fresh_memory cfg) = (Some ?auth, login_salt env cfg)"
    by (simp add: make_authentication_md5_password_def login_salt_def Let_def)
  from assms obtain s1 where s1: "session_send cfg ?auth s = Done (0, s1)"
    by (auto simp: authenticate_def a seq_Done ret_def split: if_splits)
  with assms obtain r s2 where s2: "session_read_message env cfg s1 = Done (r, s2)"
    by (auto simp: authenticate_def a seq_Done ret_def split: if_splits)
  with assms s1 obtain m where m: "r = Inr m"
    by (cases r) (auto simp: authenticate_def a seq_Done ret_def split: if_splits)
  with assms s1 s2 obtain pm where pm: "read_password_message m = Done pm"
    by (cases "read_password_message m") (auto simp: authenticate_def a seq_Done ret_def split: if_splits)
  with assms s1 s2 m obtain u c s3 where
    h: "handle_password_message (md5_hash env) (c_api cfg) (MAX_STR_CONST cfg) (s_db s2) (gn_octo cfg) pm sm (login_salt env cfg) = Done u"
      "session_send cfg make_authentication_ok s2 = Done (c, s3)" "s' = s3\<lparr>sending_message := False\<rparr>"
    by (auto simp: authenticate_def a seq_Done ret_def change_def split: if_splits outcome.splits stop.splits)
  have "s_db s2 = s_db s"
    using keeps_Done [OF keeps_session_send s1] keeps_Done [OF keeps_read_message s2] by simp
  moreover have "to_read s = wire_image m @ to_read s'" "ssl_active s' = ssl_active s"
    using local_to_read [OF local_session_send s1] session_read_message_ok [OF s2 [unfolded m]]
      local_to_read [OF local_session_send h(2)] unfolding h(3) by auto
  ultimately show ?thesis using pm h(1) password_accepted by metis
qed

lemma keeps_password_check:
  "keeps_db (\<lambda>s. case handle_password_message md5 api n (s_db s) octo pm sm salt of
      Undefined \<Rightarrow> Undefined
    | Failed (Stop_error e) \<Rightarrow> seq (answer_error cfg e) (\<lambda>_. ret False) s
    | Failed stop \<Rightarrow> Failed (stop, s)
    | Done u \<Rightarrow> seq (session_send cfg make_authentication_ok) (\<lambda>_. seq (change (\<lambda>s. s\<lparr>sending_message := False\<rparr>)) (\<lambda>_. ret True)) s)"
proof -
  have "keeps_db (seq (answer_error cfg e) (\<lambda>_. ret False))" for e by (intro db_rules)
  moreover have "keeps_db (seq (session_send cfg make_authentication_ok) (\<lambda>_. seq (change (\<lambda>s. s\<lparr>sending_message := False\<rparr>)) (\<lambda>_. ret True)))"
    by (intro db_rules keeps_change) simp
  ultimately show ?thesis unfolding keeps_db_def by (auto split: outcome.splits stop.splits)
qed

lemma keeps_authenticate [db_rules]: "keeps_db (authenticate env cfg sm)"
proof (rule keeps_pointwise)
  fix s
  show "\<exists>n. keeps_db n \<and> authenticate env cfg sm s = n s"
    unfolding authenticate_def make_authentication_md5_password_def Let_def option.case prod.case
    by (rule exI, rule conjI [rotated], rule refl) (intro db_rules keeps_password_check)
qed

lemma keeps_login: "keeps_db (login env cfg)"
  unfolding login_def by (intro db_rules keeps_change) simp

lemma login_accepts:
  assumes "login env cfg s = Done (Some sm, s')" "\<not> ssl_on env"
  shows "\<exists>hdr m pm. incoming False (s_in s) = hdr @ startup_image (sm_parameters sm) @ wire_image m @ incoming False (s_in s')
    \<and> (length hdr = 8 \<or> length hdr = 16) \<and> read_password_message m = Done pm \<and> proves_password env cfg (s_db s) sm pm"
proof -
  let ?s = "s\<lparr>sending_message := True, ssl_active := False\<rparr>"
  from assms obtain hdr s1 where s1: "negotiate env cfg ?s = Done (Some hdr, s1)"
    by (auto simp: login_def seq_Done change_def ret_def split: option.splits)
  with assms obtain s2 where s2: "startup cfg hdr s1 = Done (Some sm, s2)" "authenticate env cfg sm s2 = Done (True, s')"
    by (auto simp: login_def seq_Done change_def ret_def split: option.splits if_splits)
  have "s_db s2 = s_db s" using keeps_Done [OF keeps_negotiate s1] keeps_Done [OF keeps_startup s2(1)] by simp
  with authenticate_accepts [OF s2(2)] obtain m pm where m: "to_read s2 = wire_image m @ to_read s'" "ssl_active s' = ssl_active s2"
      "read_password_message m = Done pm" "proves_password env cfg (s_db s) sm pm" by auto
  from negotiate_read [OF s1 assms(2)] obtain request where "incoming False (s_in s) = request @ hdr @ to_read s1"
      "length request = 0 \<or> length request = 8" "length hdr = 8" "\<not> ssl_active s1" by auto
  with startup_read [OF s2(1)] m show ?thesis by (intro exI [of _ "request @ hdr"] exI [of _ m] exI [of _ pm]) auto
qed

section \<open>A client that knows the password\<close>

lemma session_read_bytes_next:
  assumes "to_read s = bs @ rest" "length bs \<le> MAX_STR_CONST cfg"
  obtains evs where "session_read_bytes env cfg (int (length bs)) s = Done (Inr bs, s\<lparr>s_in := evs\<rparr>)"
    "incoming (ssl_active s) evs = rest"
proof -
  have "0 \<le> int (length bs)" "int (length bs) \<le> int (MAX_STR_CONST cfg)" "nat (int (length bs)) \<le> length (to_read s)"
    using assms by simp_all
  from read_bytes_enough [OF this] obtain evs where
    "read_bytes (ssl_active s) (s_in s) (int (MAX_STR_CONST cfg)) (int (length bs)) = Read_ok bs evs" "incoming (ssl_active s) evs = rest"
    unfolding assms(1) by (metis append_eq_conv_conj nat_int)
  then show thesis by (intro that [of evs]) (simp_all add: session_read_bytes_def)
qed

lemma negotiate_plain:
  assumes "to_read s = startup_header n @ rest" "8 < n" "n < 2 ^ 31" "8 \<le> MAX_STR_CONST cfg"
  obtains evs where "negotiate env cfg s = Done (Some (startup_header n), s\<lparr>s_in := evs\<rparr>)" "incoming (ssl_active s) evs = rest"
proof -
  have n: "n < 2 ^ 32" using assms(3) by simp
  have l: "length (startup_header n) \<le> MAX_STR_CONST cfg" using startup_header_reads(1) [OF n] assms(4) by simp
  obtain evs where e: "session_read_bytes env cfg 8 s = Done (Inr (startup_header n), s\<lparr>s_in := evs\<rparr>)" "incoming (ssl_active s) evs = rest"
    using session_read_bytes_next [OF assms(1) l, of env] unfolding startup_header_reads(1) [OF n] by auto
  have "unat (of_nat n :: u32) = n" using n by (simp add: unat_of_nat)
  then have "of_nat n \<noteq> (8 :: u32)" using assms(2) by auto
  then obtain x where "read_ssl_request (startup_header n) = Failed x"
    using startup_header_reads [OF n] by (simp add: read_ssl_request_def Let_def)
  with e(1) show thesis by (intro that [OF _ e(2)]) (simp add: negotiate_def read_header_def act_defs)
qed

lemma startup_plain:
  assumes "to_read s = startup_image ps @ rest" "n = length (startup_image ps) + 8" "n < 2 ^ 31" "\<forall>p \<in> set ps. parm_wf p"
  obtains evs sm where "startup cfg (startup_header n) s = Done (Some sm, s\<lparr>s_in := evs\<rparr>)" "sm_parameters sm = ps"
    "incoming (ssl_active s) evs = rest"
proof -
  have "8 < n" using assms(2) by (simp add: startup_image_def)
  from read_startup_image [OF this assms(3,1) assms(2) [symmetric] assms(4)] obtain evs sm where
    r: "read_startup_message (ssl_active s) (s_in s) (startup_header n) = Done (sm, evs)" "sm_parameters sm = ps"
      "incoming (ssl_active s) evs = rest" by blast
  then show thesis by (intro that [OF _ r(2,3)]) (simp add: startup_def)
qed

definition challenge :: "string \<Rightarrow> BaseMessage" where
  "challenge salt = \<lparr>mtype = PSQL_AuthenticationMD5Password, mlength = htonl 12, mdata = htonl 5 @ take 4 salt\<rparr>"

lemma authenticate_plain:
  assumes quiet: "quiet cfg" and "willing 2 s" "4 \<le> length (login_salt env cfg)" "framed m" "to_read s = wire_image m @ rest"
    and "length (wire_image m) \<le> MAX_STR_CONST cfg" "MAX_STR_CONST cfg < 2 ^ 31" "read_password_message m = Done pm"
    and "handle_password_message (md5_hash env) (c_api cfg) (MAX_STR_CONST cfg) (s_db s) (gn_octo cfg) pm sm (login_salt env cfg) = Done ()"
  obtains evs where "authenticate env cfg sm s
      = Done (True, (sent [challenge (login_salt env cfg), make_authentication_ok] (s\<lparr>s_in := evs\<rparr>))\<lparr>sending_message := False\<rparr>)"
    "incoming (ssl_active s) evs = rest"
proof -
  let ?c = "challenge (login_salt env cfg)"
  have a: "make_authentication_md5_password (getrandom env) (Some s) (fresh_memory cfg) = (Some ?c, login_salt env cfg)"
    by (simp add: make_authentication_md5_password_def login_salt_def challenge_def Let_def)
  have c: "framed ?c" "length (wire_image ?c) < 2 ^ 31" using assms(3) by (simp_all add: framed_def wire_image_def challenge_def)
  have s1: "session_send cfg ?c s = Done (0, sent [?c] s)"
    using assms(2) by (intro session_send_sent [OF quiet _ c, of 1]) (simp add: numeral_2_eq_2)
  obtain evs where r: "session_read_message env cfg (sent [?c] s) = Done (Inr m, sent [?c] (s\<lparr>s_in := evs\<rparr>))"
      "incoming (ssl_active s) evs = rest"
    using session_read_next [OF assms(4) _ assms(6,7), of "sent [?c] s" rest env] assms(5) by auto
  have "willing (Suc 0) (sent [?c] (s\<lparr>s_in := evs\<rparr>))"
    using assms(2) by (intro willing_sent) (simp add: numeral_2_eq_2)
  then have "session_send cfg make_authentication_ok (sent [?c] (s\<lparr>s_in := evs\<rparr>))
      = Done (0, sent [make_authentication_ok] (sent [?c] (s\<lparr>s_in := evs\<rparr>)))"
    by (intro session_send_sent [OF quiet] fixed_messages)
  with s1 r assms(8,9) show thesis by (intro that [OF _ r(2)]) (simp add: authenticate_def a act_defs)
qed

lemma password_message_size:
  assumes "\<And>x. length (md5 x) = 16" "make_password_message md5 n u (Some pw) salt = Done (Some m)"
  shows "framed m" "length (wire_image m) = 41"
proof -
  obtain h where "m = \<lparr>mtype = PSQL_PasswordMessage, mlength = htonl (4 + 36), mdata = ''md5'' @ hex_text (md5 h) @ [NUL]\<rparr>"
    using assms(2) by (auto simp: make_password_message_def md5_to_hex_text [OF assms(1)] Let_def split: if_splits)
  then show "framed m" "length (wire_image m) = 41" by (simp_all add: framed_def wire_image_def assms(1))
qed

lemma find_parm_wf: "\<forall>p \<in> set ps. parm_wf p \<Longrightarrow> find P ps = Some p \<Longrightarrow> parm_wf p"
  by (auto simp: find_Some_iff)

lemma login_works:
  assumes quiet: "quiet cfg" and md5: "\<And>x. length (md5_hash env x) = 16"
    and size: "45 \<le> MAX_STR_CONST cfg" "MAX_STR_CONST cfg < 2 ^ 31" and ready: "willing 2 s"
    and ps: "\<forall>p \<in> set ps. parm_wf p" "length (startup_image ps) + 8 < 2 ^ 31"
      "find (\<lambda>p. smp_name p = ''user'') ps = Some \<lparr>smp_name = ''user'', smp_value = u\<rparr>"
    and row: "ydb_get_s (c_api cfg) (s_db s) (gn_octo cfg) [''users'', u] (MAX_STR_CONST cfg) = YDB_OK (row_text cs)"
      "\<forall>c \<in> set cs. COLUMN_DELIMITER \<notin> set c" "11 < length cs" "cs ! 10 = ''md5'' @ hex_text (md5_hash env (pw @ u))"
    and pw: "nul_free pw" "length (pw @ u) < MAX_STR_CONST cfg"
    and salt: "login_salt env cfg = s4 @ NUL # r" "length s4 = 4" "nul_free s4"
    and made: "make_password_message (md5_hash env) (MAX_STR_CONST cfg) u (Some pw) (login_salt env cfg) = Done (Some m)"
    and arrived: "incoming False (s_in s) = startup_header (length (startup_image ps) + 8) @ startup_image ps @ wire_image m @ rest"
  shows "\<exists>sm evs. login env cfg s
      = Done (Some sm, (sent [challenge (login_salt env cfg), make_authentication_ok] (s\<lparr>s_in := evs\<rparr>))\<lparr>sending_message := False\<rparr>)
    \<and> sm_parameters sm = ps \<and> incoming False evs = rest"
proof -
  let ?s = "s\<lparr>sending_message := True, ssl_active := False\<rparr>" and ?n = "length (startup_image ps) + 8"
  have ssl: "\<not> ssl_active s" "?s = s\<lparr>sending_message := True\<rparr>" using ready by (simp_all add: willing_def)
  have n: "8 < ?n" by (simp add: startup_image_def)
  have "8 \<le> MAX_STR_CONST cfg" using size by simp
  note small = this
  have "to_read ?s = startup_header ?n @ startup_image ps @ wire_image m @ rest" using arrived by simp
  then obtain e1 where
    e1: "negotiate env cfg ?s = Done (Some (startup_header ?n), ?s\<lparr>s_in := e1\<rparr>)" "incoming False e1 = startup_image ps @ wire_image m @ rest"
    by (rule negotiate_plain [OF _ n ps(2) small, of ?s _ env]) (rule that, simp_all)
  have "to_read (?s\<lparr>s_in := e1\<rparr>) = startup_image ps @ wire_image m @ rest" using e1(2) by simp
  then obtain e2 sm where
    e2: "startup cfg (startup_header ?n) (?s\<lparr>s_in := e1\<rparr>) = Done (Some sm, ?s\<lparr>s_in := e2\<rparr>)" "sm_parameters sm = ps"
      "incoming False e2 = wire_image m @ rest"
    by (rule startup_plain [OF _ refl ps(2,1), of _ _ cfg]) (rule that, simp_all)
  have user: "find (\<lambda>p. smp_name p = ''user'') (sm_parameters sm) = Some \<lparr>smp_name = ''user'', smp_value = u\<rparr>" using ps(3) e2(2) by simp
  have strings: "nul_free u" "40 \<le> MAX_STR_CONST cfg" using find_parm_wf [OF ps(1,3)] size(1) by (simp_all add: parm_wf_def)
  from password_exchange [of "md5_hash env", OF md5 user row strings(1) pw strings(2) salt] made
  obtain pm where pm: "read_password_message m = Done pm" "handle_password_message (md5_hash env) (c_api cfg) (MAX_STR_CONST cfg) (s_db s) (gn_octo cfg) pm sm (login_salt env cfg) = Done ()"
    by auto
  have m: "framed m" "length (wire_image m) \<le> MAX_STR_CONST cfg" using password_message_size [OF md5 made] size(1) by simp_all
  have w: "willing 2 (?s\<lparr>s_in := e2\<rparr>)" using ready unfolding ssl(2) by simp
  have four: "4 \<le> length (login_salt env cfg)" using salt by simp
  have "to_read (?s\<lparr>s_in := e2\<rparr>) = wire_image m @ rest" using e2(3) by simp
  then obtain e3 where
    e3: "authenticate env cfg sm (?s\<lparr>s_in := e2\<rparr>) = Done (True, (sent [challenge (login_salt env cfg), make_authentication_ok] (?s\<lparr>s_in := e3\<rparr>))\<lparr>sending_message := False\<rparr>)"
      "incoming False e3 = rest"
    by (rule authenticate_plain [OF quiet w four m(1) _ m(2) size(2) pm(1), of rest sm]) (simp add: pm(2), rule that, simp_all)
  have "login env cfg s = Done (Some sm, (sent [challenge (login_salt env cfg), make_authentication_ok] (?s\<lparr>s_in := e3\<rparr>))\<lparr>sending_message := False\<rparr>)"
    using e1(1) e2(1) e3(1) by (simp add: login_def act_defs)
  moreover have "(sent ms (?s\<lparr>s_in := e3\<rparr>))\<lparr>sending_message := False\<rparr> = (sent ms (s\<lparr>s_in := e3\<rparr>))\<lparr>sending_message := False\<rparr>" for ms
    unfolding ssl(2) by (simp add: sent_def)
  ultimately show ?thesis using e2(2) e3(2) by (intro exI [of _ sm] exI [of _ e3]) simp
qed

section \<open>Properties\<close>

text \<open>The row of a user, and the bytes of a client that knows the password.\<close>

definition sample_users :: tree where
  "sample_users = [((''^octo'', [''users'', ''ann'']),
     row_text (replicate 10 ''x'' @ [''md5'' @ hex_text (md5_hash sample_env ''secretann''), ''never'']))]"

definition sample_parms :: "StartupMessageParm list" where
  "sample_parms = [\<lparr>smp_name = ''user'', smp_value = ''ann''\<rparr>]"

definition sample_client :: "BaseMessage \<Rightarrow> tree RoctoSession" where
  "sample_client m = sample_session [Received (startup_header 18 @ startup_image sample_parms @ wire_image m)]
     (replicate 2 ([Accepted (2 ^ 31)], 0, None)) sample_users"

lemma sample_client_knows:
  "\<And>x. length (md5_hash sample_env x) = 16" "45 \<le> MAX_STR_CONST sample_config" "MAX_STR_CONST sample_config < 2 ^ 31"
  "willing 2 (sample_client m)" "\<forall>p \<in> set sample_parms. parm_wf p" "length (startup_image sample_parms) + 8 < 2 ^ 31"
  "find (\<lambda>p. smp_name p = ''user'') sample_parms = Some \<lparr>smp_name = ''user'', smp_value = ''ann''\<rparr>"
  "nul_free ''secret''" "length (''secret'' @ ''ann'') < MAX_STR_CONST sample_config"
  "login_salt sample_env sample_config = ''salt'' @ NUL # []" "length ''salt'' = 4" "nul_free ''salt''"
  "incoming False (s_in (sample_client m)) = startup_header (length (startup_image sample_parms) + 8) @ startup_image sample_parms @ wire_image m @ []"
  by (simp_all add: sample_env_def sample_config_def sample_client_def sample_session_def sample_parms_def willing_def parm_wf_def
      login_salt_def startup_image_def parm_image_def ends_def startup_header_def)

lemma sample_row:
  defines "cs \<equiv> replicate 10 ''x'' @ [''md5'' @ hex_text (md5_hash sample_env ''secretann''), ''never'']"
  shows "ydb_get_s (c_api sample_config) (s_db (sample_client m)) (gn_octo sample_config) [''users'', ''ann''] (MAX_STR_CONST sample_config) = YDB_OK (row_text cs)"
    "\<forall>c \<in> set cs. COLUMN_DELIMITER \<notin> set c" "11 < length cs" "cs ! 10 = ''md5'' @ hex_text (md5_hash sample_env (''secret'' @ ''ann''))"
proof -
  have bytes: "md5_hash sample_env ''secretann'' = ''secretann'' @ replicate 7 NUL" by (simp add: sample_env_def)
  have "COLUMN_DELIMITER \<notin> set (hex_text (md5_hash sample_env ''secretann''))" unfolding bytes by code_simp
  then show "\<forall>c \<in> set cs. COLUMN_DELIMITER \<notin> set c" by (simp add: cs_def)
  show "11 < length cs" "cs ! 10 = ''md5'' @ hex_text (md5_hash sample_env (''secret'' @ ''ann''))" by (simp_all add: cs_def nth_append)
  have len: "length (row_text cs) \<le> 200" unfolding cs_def bytes by (simp add: eval_nat_numeral)
  have db: "s_db (sample_client m) = [((''^octo'', [''users'', ''ann'']), row_text cs)]"
    by (simp only: sample_users_def cs_def sample_client_def sample_session_def RoctoSession.simps)
  show "ydb_get_s (c_api sample_config) (s_db (sample_client m)) (gn_octo sample_config) [''users'', ''ann''] (MAX_STR_CONST sample_config) = YDB_OK (row_text cs)"
    unfolding db using len by (simp add: sample_config_def tree_api_def tree_get_def)
qed

lemma sample_password_made:
  "\<exists>m. make_password_message (md5_hash sample_env) (MAX_STR_CONST sample_config) ''ann'' (Some ''secret'') (login_salt sample_env sample_config) = Done (Some m)"
  using sample_client_knows(1) by (simp add: make_password_message_def md5_to_hex_text sample_client_knows(10)) (simp add: sample_config_def)

lemma sample_open:
  assumes "s_db s = sample_users" "s_sends s = []" "sm_parameters sm = sample_parms"
  shows "\<exists>s'. open_session sample_config sm s = Failed (Stop_blocked, s') \<and> s_db s' \<noteq> sample_users"
proof -
  let ?db1 = "((''^session'', []), ''1'') # sample_users"
  let ?db2 = "((''^session'', [''1'', ''variables'', ''user'']), ''ann'') # ?db1"
  let ?s1 = "s\<lparr>s_db := ?db1, session_id := ''1''\<rparr>" and ?s2 = "s\<lparr>s_db := ?db2, session_id := ''1''\<rparr>"
  have one: "int_dec 1 = ''1''" by code_simp
  have fields: "c_api sample_config = tree_api" "gn_octo sample_config = ''^octo''" "gn_session sample_config = ''^session''"
      "query_bound sample_config = Suc 4" "MAX_STR_CONST sample_config = 200" by (simp_all add: sample_config_def)
  have "tree_incr sample_users ''^session'' [] = YDB_OK (''1'', ?db1)"
    by (simp add: tree_incr_def sample_users_def one Let_def)
  then have incr: "db_incr sample_config ''^session'' [] s = Done (''1'', s\<lparr>s_db := ?db1\<rparr>)"
    using assms(1) by (simp add: db_incr_def act_defs fields tree_api_def)
  have defaults: "copy_defaults (Suc 4) sample_config ''1'' [] ?s1 = Done ((), ?s1)"
  proof -
    have "tree_next ?db1 ''^octo'' [''variables'', []] = YDB_ERR_NODEEND"
      by (simp add: tree_next_def children_def strictly_below_def sample_users_def Let_def)
    then have "next_subscript sample_config ''^octo'' [''variables'', []] ?s1 = Done (None, ?s1)"
      by (simp add: next_subscript_def act_defs fields tree_api_def Let_def)
    then show ?thesis unfolding copy_defaults.simps fields by (simp add: seq_def ret_def)
  qed
  have params: "set_parameters sample_config ''1'' (sm_parameters sm) ?s1 = Done ((), ?s2)"
    by (simp add: assms(3) sample_parms_def session_set_def db_set_def act_defs fields tree_api_def tree_set_def)
  have "tree_next ?db2 ''^session'' [''1'', ''variables'', []] = YDB_OK ''user''"
    by (simp add: tree_next_def children_def strictly_below_def sample_users_def collation_def)
  then have nxt: "next_subscript sample_config ''^session'' [''1'', ''variables'', []] ?s2 = Done (Some ''user'', ?s2)"
    by (simp add: next_subscript_def act_defs fields tree_api_def Let_def)
  have val: "db_get sample_config ''^session'' [''1'', ''variables'', ''user''] 200 ?s2 = Done (YDB_OK ''ann'', ?s2)"
    by (simp add: db_get_def act_defs fields tree_api_def tree_get_def)
  have "session_send sample_config m ?s2 = Failed (Stop_blocked, ?s2)" for m 
    using assms(2) by (simp add: session_send_def deliver_def seq_def octo_log_quiet [OF sample_config_laws(3)])
  with nxt val have report: "report_parameters (Suc 4) sample_config ''1'' [] ?s2 = Failed (Stop_blocked, ?s2)"
    unfolding report_parameters.simps fields by (simp add: act_defs make_parameter_status_def Let_def)
  have "open_session sample_config sm s = Failed (Stop_blocked, ?s2)"
    using incr defaults params report by (simp only: open_session_def fields seq_def change_def and_then.simps split_conv)
  moreover have "s_db ?s2 \<noteq> sample_users" by (simp add: sample_users_def)
  ultimately show ?thesis by blast
qed

text \<open>C2.
  A server without TLS, whatever its client sends and however the connection ends: if the database is not what it was,
  then the client's first bytes were a startup message, after a request for TLS perhaps, and a
  password message that answers the challenge for the user of this startup message.
\<close>

theorem no_change_without_password:
  assumes "\<not> ssl_on env" "ends_in (serve_connection evs env cfg eng s) s'" "s_db s' \<noteq> s_db s"
  shows "\<exists>hdr sm m pm rest. incoming False (s_in s) = hdr @ startup_image (sm_parameters sm) @ wire_image m @ rest
    \<and> (length hdr = 8 \<or> length hdr = 16) \<and> read_password_message m = Done pm \<and> proves_password env cfg (s_db s) sm pm"
proof (cases rule: outcome_cases [of "login env cfg" s])
  case (3 sm s1)
  have db: "s_db s1 = s_db s" by (rule keeps_Done [OF keeps_login 3])
  show ?thesis
  proof (cases sm)
    case None
    then have "s' = s1" using assms(2) 3 by (simp add: serve_connection_def act_defs)
    with db assms(3) show ?thesis by simp
  next
    case (Some m)
    then show ?thesis using login_accepts [of env cfg s m s1] 3 assms(1) by blast
  qed
next
  case (2 e s1)
  then have "s1 = s'" using assms(2) by (simp add: serve_connection_def seq_def)
  then show ?thesis using 2 keeps_login [of env cfg] assms(3) unfolding keeps_db_def by (metis ends_in.simps(2))
qed (use assms(2) in \<open>simp add: serve_connection_def seq_def\<close>)

theorem no_change_without_password_witness:
  "\<exists>m s'. ends_in (serve_connection [] sample_env sample_config sample_engine (sample_client m)) s' \<and> s_db s' \<noteq> sample_users
    \<and> (\<exists>hdr sm w pm rest. incoming False (s_in (sample_client m)) = hdr @ startup_image (sm_parameters sm) @ wire_image w @ rest
       \<and> (length hdr = 8 \<or> length hdr = 16) \<and> read_password_message w = Done pm
       \<and> proves_password sample_env sample_config sample_users sm pm)"
proof -
  obtain m where m: "make_password_message (md5_hash sample_env) (MAX_STR_CONST sample_config) ''ann'' (Some ''secret'') (login_salt sample_env sample_config) = Done (Some m)"
    using sample_password_made by blast
  from login_works [OF sample_config_laws(3) sample_client_knows(1-7) sample_row sample_client_knows(8-12) m sample_client_knows(13)]
  obtain sm s1 where l: "login sample_env sample_config (sample_client m) = Done (Some sm, s1)" "s_db s1 = sample_users" "s_sends s1 = []"
      "sm_parameters sm = sample_parms"
    by (auto simp: sent_def sample_client_def sample_session_def)
  have "sm_parameters sm = sample_parms" using l(4) .
  from sample_open [OF l(2,3) this] obtain s' where
    s': "open_session sample_config sm s1 = Failed (Stop_blocked, s')" "s_db s' \<noteq> sample_users" by blast
  have e: "ends_in (serve_connection [] sample_env sample_config sample_engine (sample_client m)) s'"
    using l(1) s'(1) by (simp add: serve_connection_def seq_def)
  have db: "s_db (sample_client m) = sample_users" and off: "\<not> ssl_on sample_env"
    by (simp_all add: sample_client_def sample_session_def sample_env_def)
  show ?thesis
    by (intro exI [of _ m] exI [of _ s'] conjI e s'(2)) (rule no_change_without_password [OF off e, unfolded db, OF s'(2)])
qed

text \<open>C3.
  A client that follows the protocol gets in: it sends a startup message in any chunks and the password message made from
  the password whose hash the user's row holds. The server sends the challenge and AuthenticationOk, keeps the parameters
  of the startup message, has read just the client's messages, and leaves the database as it is.
\<close>

theorem right_password_admits:
  assumes "quiet cfg" and "\<And>x. length (md5_hash env x) = 16"
    and "45 \<le> MAX_STR_CONST cfg" "MAX_STR_CONST cfg < 2 ^ 31" "willing 2 s"
    and "\<forall>p \<in> set ps. parm_wf p" "length (startup_image ps) + 8 < 2 ^ 31"
      "find (\<lambda>p. smp_name p = ''user'') ps = Some \<lparr>smp_name = ''user'', smp_value = u\<rparr>"
    and "ydb_get_s (c_api cfg) (s_db s) (gn_octo cfg) [''users'', u] (MAX_STR_CONST cfg) = YDB_OK (row_text cs)"
      "\<forall>c \<in> set cs. COLUMN_DELIMITER \<notin> set c" "11 < length cs" "cs ! 10 = ''md5'' @ hex_text (md5_hash env (pw @ u))"
    and "nul_free pw" "length (pw @ u) < MAX_STR_CONST cfg"
    and "login_salt env cfg = s4 @ NUL # r" "length s4 = 4" "nul_free s4"
    and "make_password_message (md5_hash env) (MAX_STR_CONST cfg) u (Some pw) (login_salt env cfg) = Done (Some m)"
    and "incoming False (s_in s) = startup_header (length (startup_image ps) + 8) @ startup_image ps @ wire_image m @ rest"
  shows "\<exists>sm s'. login env cfg s = Done (Some sm, s') \<and> sm_parameters sm = ps \<and> s_db s' = s_db s
    \<and> s_wire s' = s_wire s @ wire_image (challenge (login_salt env cfg)) @ wire_image make_authentication_ok
    \<and> incoming False (s_in s') = rest"
proof -
  obtain sm evs where "login env cfg s
      = Done (Some sm, (sent [challenge (login_salt env cfg), make_authentication_ok] (s\<lparr>s_in := evs\<rparr>))\<lparr>sending_message := False\<rparr>)"
    "sm_parameters sm = ps" "incoming False evs = rest"
    using login_works [OF assms] by blast
  then show ?thesis by (intro exI conjI) (assumption, simp_all)
qed

theorem right_password_admits_witness:
  "\<exists>m sm s'. make_password_message (md5_hash sample_env) 200 ''ann'' (Some ''secret'') (''salt'' @ [NUL]) = Done (Some m)
    \<and> login sample_env sample_config (sample_client m) = Done (Some sm, s') \<and> sm_parameters sm = sample_parms"
proof -
  obtain m where m: "make_password_message (md5_hash sample_env) (MAX_STR_CONST sample_config) ''ann'' (Some ''secret'') (login_salt sample_env sample_config) = Done (Some m)"
    using sample_password_made by blast
  have "MAX_STR_CONST sample_config = 200" "login_salt sample_env sample_config = (''salt'' @ [NUL])"
    by (simp_all add: sample_config_def sample_env_def login_salt_def)
  with right_password_admits [OF sample_config_laws(3) sample_client_knows(1-7) sample_row sample_client_knows(8-12) m sample_client_knows(13)] m
  show ?thesis by metis
qed

end
