(* ===== verification/Double_List.thy ===== *)
theory Double_List
  imports Octo_Prelude
begin

text \<open>
  The circular doubly linked lists of \<open>src/src/double_list.h\<close>, with which Octo links columns, keywords,
  joins and memory chunks. The links are an explicit heap: one map for \<open>next\<close> and one for \<open>prev\<close>, from
  addresses to addresses. \<open>ring h xs\<close> says that the addresses \<open>xs\<close> form one circle that starts at
  \<open>hd xs\<close>. The lemmas show what the macros do to circles and that the traversal loop
  \<open>do ... while (cur != start)\<close> of the sources visits a circle once, in order.
\<close>

section \<open>The macros\<close>

record dq_heap =
  dq_next :: "nat \<Rightarrow> nat"
  dq_prev :: "nat \<Rightarrow> nat"

definition dqinit :: "nat \<Rightarrow> dq_heap \<Rightarrow> dq_heap" where
  "dqinit p h = h\<lparr>dq_next := (dq_next h)(p := p), dq_prev := (dq_prev h)(p := p)\<rparr>"

text \<open>The four assignments of the macro, in its order.\<close>

definition dqinsert :: "nat \<Rightarrow> nat \<Rightarrow> dq_heap \<Rightarrow> dq_heap" where
  "dqinsert self new h =
     (let temp = dq_prev h self;
          h1 = h\<lparr>dq_next := (dq_next h)(dq_prev h self := new)\<rparr>;
          h2 = h1\<lparr>dq_prev := (dq_prev h1)(self := dq_prev h1 new)\<rparr>;
          h3 = h2\<lparr>dq_next := (dq_next h2)(dq_prev h2 new := self)\<rparr>
      in h3\<lparr>dq_prev := (dq_prev h3)(new := temp)\<rparr>)"

text \<open>
  The search loop of \<open>get_keyword_from_keywords\<close> and its like: it starts at an element, stops at the
  first hit, and gives up when it is back at the start.
\<close>

partial_function (option) dq_search :: "(nat \<Rightarrow> nat) \<Rightarrow> (nat \<Rightarrow> bool) \<Rightarrow> nat \<Rightarrow> nat \<Rightarrow> nat option option"
where
  "dq_search nxt P start cur =
     (if P cur then Some (Some cur)
      else if nxt cur = start then Some None
      else dq_search nxt P start (nxt cur))"

section \<open>Circles\<close>

definition ring :: "dq_heap \<Rightarrow> nat list \<Rightarrow> bool" where
  "ring h xs \<longleftrightarrow> xs \<noteq> [] \<and> distinct xs \<and> map (dq_next h) xs = rotate1 xs \<and> map (dq_prev h) (rotate1 xs) = xs"

lemma ring_nonempty: "ring h xs \<Longrightarrow> xs \<noteq> []"
  by (simp add: ring_def)

lemma ring_singleton [simp]: "ring (dqinit p h) [p]"
  by (simp add: ring_def dqinit_def)

lemma ring_dqinit_other: "ring h xs \<Longrightarrow> p \<notin> set xs \<Longrightarrow> ring (dqinit p h) xs"
  by (simp add: ring_def dqinit_def map_fun_upd)

text \<open>In terms of the two ends: the links inside and the two links that close the circle.\<close>

lemma ring_next_iff:
  assumes "xs \<noteq> []"
  shows "map f xs = rotate1 xs \<longleftrightarrow> map f (butlast xs) = tl xs \<and> f (last xs) = hd xs"
proof -
  have split: "xs = butlast xs @ [last xs]" using assms by simp
  have "rotate1 xs = tl xs @ [hd xs]" using assms by (cases xs) auto
  moreover have "map f xs = map f (butlast xs) @ [f (last xs)]"
    by (subst split) (simp only: map_append list.map)
  ultimately show ?thesis by simp
qed

lemma ring_prev_iff:
  assumes "xs \<noteq> []"
  shows "map f (rotate1 xs) = xs \<longleftrightarrow> map f (tl xs) = butlast xs \<and> f (hd xs) = last xs"
proof -
  have split: "xs = butlast xs @ [last xs]" using assms by simp
  have "map f (rotate1 xs) = map f (tl xs) @ [f (hd xs)]" using assms by (cases xs) auto
  then have "map f (rotate1 xs) = xs \<longleftrightarrow> map f (tl xs) @ [f (hd xs)] = butlast xs @ [last xs]"
    using split by simp
  then show ?thesis by simp
qed

lemma ring_iff:
  "ring h xs \<longleftrightarrow> xs \<noteq> [] \<and> distinct xs
     \<and> map (dq_next h) (butlast xs) = tl xs \<and> dq_next h (last xs) = hd xs
     \<and> map (dq_prev h) (tl xs) = butlast xs \<and> dq_prev h (hd xs) = last xs"
  by (cases "xs = []") (auto simp: ring_def ring_next_iff ring_prev_iff)

lemmas ring_prev_head = ring_iff [THEN iffD1, THEN conjunct2, THEN conjunct2, THEN conjunct2, THEN conjunct2, THEN conjunct2]

lemma map_upd_outside: "p \<notin> set xs \<Longrightarrow> map (f(p := v)) xs = map f xs"
  by (simp add: map_fun_upd)

lemma last_not_before: "distinct xs \<Longrightarrow> xs \<noteq> [] \<Longrightarrow> last xs \<notin> set (butlast xs)"
  by (cases xs rule: rev_cases) auto

lemma head_not_after: "distinct xs \<Longrightarrow> hd xs \<notin> set (tl xs)"
  by (cases xs) auto

text \<open>\<open>dqinsert\<close> joins two circles; seen from either start, the other circle comes after its own.\<close>

lemma dqinsert_fields:
  assumes "dq_prev h self \<noteq> dq_prev h new" "self \<noteq> new"
  shows "dq_next (dqinsert self new h) = (dq_next h)(dq_prev h self := new, dq_prev h new := self)"
    and "dq_prev (dqinsert self new h) = (dq_prev h)(self := dq_prev h new, new := dq_prev h self)"
  using assms by (simp_all add: dqinsert_def Let_def)

lemma ring_dqinsert:
  assumes xs: "ring h xs" and ys: "ring h ys" and disj: "set xs \<inter> set ys = {}"
  shows "ring (dqinsert (hd xs) (hd ys) h) (xs @ ys)"
proof -
  have X: "xs \<noteq> []" "distinct xs" "map (dq_next h) (butlast xs) = tl xs" "map (dq_prev h) (tl xs) = butlast xs"
      "dq_prev h (hd xs) = last xs"
    using xs by (simp_all add: ring_iff)
  have Y: "ys \<noteq> []" "distinct ys" "map (dq_next h) (butlast ys) = tl ys" "map (dq_prev h) (tl ys) = butlast ys"
      "dq_prev h (hd ys) = last ys"
    using ys by (simp_all add: ring_iff)
  have ends: "last xs \<in> set xs" "hd xs \<in> set xs" "last ys \<in> set ys" "hd ys \<in> set ys"
    using X(1) Y(1) by simp_all
  have sub: "set (butlast xs) \<subseteq> set xs" "set (tl xs) \<subseteq> set xs" "set (butlast ys) \<subseteq> set ys" "set (tl ys) \<subseteq> set ys"
    by (auto dest: in_set_butlastD intro: list.set_sel(2) X(1) Y(1))
  have ne: "last xs \<noteq> last ys" "hd xs \<noteq> hd ys" using ends disj by auto
  let ?h = "dqinsert (hd xs) (hd ys) h"
  have nxt: "dq_next ?h = (dq_next h)(last xs := hd ys, last ys := hd xs)"
    and prv: "dq_prev ?h = (dq_prev h)(hd xs := last ys, hd ys := last xs)"
    using dqinsert_fields [of h "hd xs" "hd ys"] ne X(5) Y(5) by simp_all
  have notin: "last xs \<notin> set (butlast xs)" "last ys \<notin> set (butlast xs)" "last xs \<notin> set (butlast ys)"
      "last ys \<notin> set (butlast ys)" "hd xs \<notin> set (tl xs)" "hd ys \<notin> set (tl xs)" "hd xs \<notin> set (tl ys)"
      "hd ys \<notin> set (tl ys)"
    using last_not_before head_not_after X Y ends sub disj by blast+
  have xs_split: "xs = butlast xs @ [last xs]" using X(1) by simp
  have ys_split: "ys = hd ys # tl ys" using Y(1) by simp
  have "butlast (xs @ ys) = butlast xs @ [last xs] @ butlast ys"
    using Y(1) xs_split by (simp add: butlast_append)
  then have "map (dq_next ?h) (butlast (xs @ ys)) = map (dq_next ?h) (butlast xs @ [last xs] @ butlast ys)"
    by simp
  also have "\<dots> = tl xs @ ys"
    using X Y ne notin ys_split by (simp add: nxt map_upd_outside)
  finally have next_in: "map (dq_next ?h) (butlast (xs @ ys)) = tl (xs @ ys)" using X(1) by simp
  have "map (dq_prev ?h) (tl (xs @ ys)) = map (dq_prev ?h) (tl xs @ hd ys # tl ys)"
    using X(1) ys_split by simp
  also have "\<dots> = butlast xs @ last xs # butlast ys"
    using X Y ne notin by (simp add: prv map_upd_outside del: list.collapse hd_Cons_tl)
  also have "\<dots> = xs @ butlast ys"
    using xs_split by (metis append.assoc append_Cons append_Nil)
  finally have prev_in: "map (dq_prev ?h) (tl (xs @ ys)) = butlast (xs @ ys)"
    using Y(1) by (simp add: butlast_append)
  show ?thesis
    unfolding ring_iff using next_in prev_in X Y ne disj by (simp add: nxt prv)
qed

lemma dqinsert_sym:
  assumes "dq_prev h a \<noteq> dq_prev h b" "a \<noteq> b"
  shows "dqinsert a b h = dqinsert b a h"
proof -
  have "dq_next (dqinsert a b h) = dq_next (dqinsert b a h)" "dq_prev (dqinsert a b h) = dq_prev (dqinsert b a h)"
    using assms dqinsert_fields [of h a b] dqinsert_fields [of h b a] by (simp_all add: fun_upd_twist)
  then show ?thesis by (cases "dqinsert a b h"; cases "dqinsert b a h") (simp add: dqinsert_def Let_def)
qed

lemma ring_dqinsert_other:
  assumes xs: "ring h xs" and ys: "ring h ys" and zs: "ring h zs"
    and disj: "set xs \<inter> set ys = {}" "set xs \<inter> set zs = {}" "set ys \<inter> set zs = {}"
  shows "ring (dqinsert (hd xs) (hd ys) h) zs"
proof -
  have e: "dq_prev h (hd xs) = last xs" "dq_prev h (hd ys) = last ys" "xs \<noteq> []" "ys \<noteq> []"
    using xs ys by (simp_all add: ring_iff)
  have mem: "last xs \<in> set xs" "hd xs \<in> set xs" "last ys \<in> set ys" "hd ys \<in> set ys" using e by simp_all
  have ne: "last xs \<noteq> last ys" "hd xs \<noteq> hd ys" using mem disj by auto
  have out: "last xs \<notin> set zs" "hd xs \<notin> set zs" "last ys \<notin> set zs" "hd ys \<notin> set zs" using mem disj by auto
  show ?thesis
    using zs dqinsert_fields [of h "hd xs" "hd ys"] ne out
    by (simp add: ring_def e map_upd_outside)
qed

section \<open>Traversal\<close>

text \<open>The loop returns on every circle, with the first element of the circle that satisfies the test.\<close>

lemma dq_search_segment:
  assumes "map nxt (butlast (c # cs)) = cs" "nxt (last (c # cs)) = start" "start \<notin> set cs"
  shows "dq_search nxt P start c = Some (List.find P (c # cs))"
  using assms
proof (induction cs arbitrary: c)
  case Nil
  then show ?case by (simp add: dq_search.simps)
next
  case (Cons d ds)
  have n: "nxt c = d" "map nxt (butlast (d # ds)) = ds" using Cons.prems(1) by (auto split: if_splits)
  have "dq_search nxt P start d = Some (List.find P (d # ds))"
    using n Cons.prems by (intro Cons.IH) auto
  then show ?case using n Cons.prems(3) by (subst dq_search.simps) auto
qed

lemma dq_search_ring:
  assumes "ring h xs"
  shows "dq_search (dq_next h) P (hd xs) (hd xs) = Some (List.find P xs)"
proof -
  have "xs = hd xs # tl xs" "map (dq_next h) (butlast xs) = tl xs" "dq_next h (last xs) = hd xs" "distinct xs"
    using assms by (simp_all add: ring_iff)
  then show ?thesis
    using dq_search_segment [of "dq_next h" "hd xs" "tl xs" "hd xs" P] head_not_after [of xs] by simp
qed

end
