(* ===== verification/Memory_Chunk.thy ===== *)
theory Memory_Chunk
  imports Double_List
begin

text \<open>
  The arena allocator of \<open>src/src/memory_chunk.c\<close>. Every statement, plan and string of a query lives in
  chunks that are linked in a circle (theory \<open>Double_List\<close>) and freed together. A pointer that
  \<open>octo_cmalloc\<close> returns is a chunk and an offset into it. \<open>size_t\<close> is a 64-bit word, so the test
  \<open>cur->offset + size > cur->max_size\<close> wraps as in C. The build constant \<open>MEMORY_CHUNK_SIZE\<close> is the
  parameter \<open>chunk_size\<close>; \<open>malloc\<close> and \<open>calloc\<close> always succeed, as the source supposes.
\<close>

section \<open>The allocator\<close>

record MemoryChunk =
  ck_offset :: u64
  ck_max_size :: u64

text \<open>The heap: the links, the chunks, and the next address that \<open>malloc\<close> returns.\<close>

record chunk_memory =
  links :: dq_heap
  chunk :: "nat \<Rightarrow> MemoryChunk"
  next_address :: nat

definition alloc_chunk :: "u64 \<Rightarrow> u64 \<Rightarrow> chunk_memory \<Rightarrow> chunk_memory \<times> nat" where
  "alloc_chunk chunk_size sz m =
     (let new = next_address m;
          alloc_size = (if sz > chunk_size then sz else chunk_size)
      in (m\<lparr>links := dqinit new (links m),
            chunk := (chunk m)(new := \<lparr>ck_offset = 0, ck_max_size = alloc_size\<rparr>),
            next_address := Suc new\<rparr>, new))"

definition take_from :: "nat \<Rightarrow> u64 \<Rightarrow> chunk_memory \<Rightarrow> chunk_memory \<times> nat \<times> u64" where
  "take_from cur sz m =
     (m\<lparr>chunk := (chunk m)(cur := (chunk m cur)\<lparr>ck_offset := ck_offset (chunk m cur) + sz\<rparr>)\<rparr>,
      cur, ck_offset (chunk m cur))"

definition octo_cmalloc ::
  "u64 \<Rightarrow> nat \<Rightarrow> u64 \<Rightarrow> chunk_memory \<Rightarrow> (unit, chunk_memory \<times> nat \<times> u64) outcome" where
  "octo_cmalloc chunk_size root sz m =
     (let cur = dq_prev (links m) root in
      if ck_offset (chunk m cur) + sz > ck_max_size (chunk m cur) then
        let (m1, new) = alloc_chunk chunk_size sz m;
            m2 = m1\<lparr>links := dqinsert root new (links m1)\<rparr>
        in if dq_prev (links m2) root = new \<and> dq_next (links m2) new = root
           then Done (take_from (dq_prev (links m2) root) sz m2)
           else Undefined
      else Done (take_from cur sz m))"

text \<open>
  \<open>octo_cfree\<close> walks the circle and frees each chunk. Reading or freeing a chunk that is already
  free is undefined; the result lists the freed chunks in order.
\<close>

partial_function (option) cfree_loop ::
  "(nat \<Rightarrow> nat) \<Rightarrow> nat \<Rightarrow> nat list \<Rightarrow> nat \<Rightarrow> (unit, nat list) outcome option" where
  "cfree_loop nxt root freed cur =
     (if cur \<in> set freed then Some Undefined
      else if nxt cur = root then Some (Done (freed @ [cur]))
      else cfree_loop nxt root (freed @ [cur]) (nxt cur))"

definition octo_cfree :: "nat \<Rightarrow> chunk_memory \<Rightarrow> (unit, nat list) outcome option" where
  "octo_cfree root m = cfree_loop (dq_next (links m)) root [] root"

section \<open>The contract of an arena\<close>

text \<open>
  What a client of an arena relies on: a block, the bytes in use of it and its capacity. An
  allocation takes the bytes behind the ones in use of one block and leaves the others alone.
\<close>

locale arena =
  fixes alloc :: "'m \<Rightarrow> u64 \<Rightarrow> ('m \<times> nat \<times> u64) option"
    and ok :: "'m \<Rightarrow> bool"
    and used :: "'m \<Rightarrow> nat \<Rightarrow> nat"
    and capacity :: "'m \<Rightarrow> nat \<Rightarrow> nat"
    and acceptable :: "u64 \<Rightarrow> bool"
  assumes alloc_total: "ok m \<Longrightarrow> acceptable n \<Longrightarrow> \<exists>m' b off. alloc m n = Some (m', b, off)"
    and alloc_ok: "ok m \<Longrightarrow> acceptable n \<Longrightarrow> alloc m n = Some (m', b, off) \<Longrightarrow> ok m'"
    and alloc_fresh: "ok m \<Longrightarrow> acceptable n \<Longrightarrow> alloc m n = Some (m', b, off) \<Longrightarrow> used m b \<le> unat off"
    and alloc_takes: "ok m \<Longrightarrow> acceptable n \<Longrightarrow> alloc m n = Some (m', b, off) \<Longrightarrow> used m' b = unat off + unat n"
    and alloc_in_block: "ok m \<Longrightarrow> acceptable n \<Longrightarrow> alloc m n = Some (m', b, off) \<Longrightarrow> used m' b \<le> capacity m' b"
    and alloc_keeps: "ok m \<Longrightarrow> acceptable n \<Longrightarrow> alloc m n = Some (m', b, off) \<Longrightarrow>
      used m c \<le> used m' c \<and> (0 < used m c \<longrightarrow> capacity m' c = capacity m c)"

fun alloc_all :: "('m \<Rightarrow> u64 \<Rightarrow> ('m \<times> nat \<times> u64) option) \<Rightarrow> 'm \<Rightarrow> u64 list \<Rightarrow> ('m \<times> (nat \<times> nat \<times> nat) list) option"
where
  "alloc_all alloc m [] = Some (m, [])"
| "alloc_all alloc m (n # ns) =
     (case alloc m n of None \<Rightarrow> None
      | Some (m', b, off) \<Rightarrow>
          (case alloc_all alloc m' ns of None \<Rightarrow> None
           | Some (m'', rs) \<Rightarrow> Some (m'', (b, unat off, unat n) # rs)))"

text \<open>A region is a block, an offset and a length; two regions are apart when they share no byte.\<close>

definition apart :: "nat \<times> nat \<times> nat \<Rightarrow> nat \<times> nat \<times> nat \<Rightarrow> bool" where
  "apart r s \<longleftrightarrow> (case (r, s) of ((b, i, n), (c, j, k)) \<Rightarrow> b \<noteq> c \<or> i + n \<le> j \<or> j + k \<le> i)"

definition within :: "(nat \<Rightarrow> nat) \<Rightarrow> nat \<times> nat \<times> nat \<Rightarrow> bool" where
  "within cap r \<longleftrightarrow> (case r of (b, i, n) \<Rightarrow> i + n \<le> cap b)"

context arena
begin

lemma all_regions:
  assumes "ok m" "list_all acceptable ns"
  shows "\<exists>m' rs. alloc_all alloc m ns = Some (m', rs) \<and> ok m' \<and> length rs = length ns
    \<and> map (\<lambda>r. snd (snd r)) rs = map unat ns
    \<and> (\<forall>c. used m c \<le> used m' c \<and> (0 < used m c \<longrightarrow> capacity m' c = capacity m c))
    \<and> (\<forall>(b, i, n) \<in> set rs. used m b \<le> i \<and> i + n \<le> used m' b \<and> (0 < n \<longrightarrow> i + n \<le> capacity m' b))
    \<and> sorted_wrt apart rs"
  using assms
proof (induction ns arbitrary: m)
  case Nil
  then show ?case by simp
next
  case (Cons n ns)
  obtain m1 b off where a: "alloc m n = Some (m1, b, off)"
    using alloc_total Cons.prems by fastforce
  have n: "acceptable n" using Cons.prems by simp
  note one = alloc_ok [OF Cons.prems(1) n a] alloc_fresh [OF Cons.prems(1) n a] alloc_takes [OF Cons.prems(1) n a]
    alloc_in_block [OF Cons.prems(1) n a] alloc_keeps [OF Cons.prems(1) n a]
  obtain m2 rs where r: "alloc_all alloc m1 ns = Some (m2, rs)" "ok m2" "length rs = length ns"
      "map (\<lambda>r. snd (snd r)) rs = map unat ns"
      "\<And>c. used m1 c \<le> used m2 c \<and> (0 < used m1 c \<longrightarrow> capacity m2 c = capacity m1 c)"
      "\<forall>(b, i, n) \<in> set rs. used m1 b \<le> i \<and> i + n \<le> used m2 b \<and> (0 < n \<longrightarrow> i + n \<le> capacity m2 b)"
      "sorted_wrt apart rs"
    using Cons.IH [OF one(1)] Cons.prems(2) by auto
  have keeps: "used m c \<le> used m2 c \<and> (0 < used m c \<longrightarrow> capacity m2 c = capacity m c)" for c
    using one(5) [of c] r(5) [of c] by auto
  have rest: "\<forall>(c, i, k) \<in> set rs. used m c \<le> i \<and> i + k \<le> used m2 c \<and> (0 < k \<longrightarrow> i + k \<le> capacity m2 c)"
    using r(6) one(5) by (fastforce intro: le_trans)
  have first: "used m b \<le> unat off \<and> unat off + unat n \<le> used m2 b
      \<and> (0 < unat n \<longrightarrow> unat off + unat n \<le> capacity m2 b)"
    using one r(5) [of b] by auto
  have "\<forall>s \<in> set rs. apart (b, unat off, unat n) s"
    using r(6) one(3) by (fastforce simp: apart_def)
  then show ?case
    using a r keeps rest first by auto
qed

end

section \<open>The allocator meets the contract\<close>

definition chunk_limit :: nat where
  "chunk_limit = 2 ^ 63"

definition small :: "u64 \<Rightarrow> bool" where
  "small n \<longleftrightarrow> unat n < chunk_limit"

text \<open>
  The invariant: the chunks are a circle that starts at the root, no address beyond the heap is on
  it, and no chunk is filled beyond its size, which is below \<open>2\<^sup>6\<^sup>3\<close>.
\<close>

definition memory_ok :: "nat \<Rightarrow> nat list \<Rightarrow> chunk_memory \<Rightarrow> bool" where
  "memory_ok root xs m \<longleftrightarrow>
     ring (links m) xs \<and> hd xs = root
     \<and> (\<forall>p \<in> set xs. p < next_address m \<and> ck_offset (chunk m p) \<le> ck_max_size (chunk m p)
          \<and> small (ck_max_size (chunk m p)))"

definition chunk_used :: "chunk_memory \<Rightarrow> nat \<Rightarrow> nat" where
  "chunk_used m p = (if p < next_address m then unat (ck_offset (chunk m p)) else 0)"

definition chunk_capacity :: "chunk_memory \<Rightarrow> nat \<Rightarrow> nat" where
  "chunk_capacity m p = unat (ck_max_size (chunk m p))"

lemma small_plus:
  fixes a b :: u64
  assumes "small a" "small b"
  shows "unat (a + b) = unat a + unat b"
proof -
  have "unat a + unat b < 2 ^ LENGTH(64)" using assms by (simp add: small_def chunk_limit_def)
  then show ?thesis by (simp only: unat_add_lem [THEN iffD1])
qed

lemma small_mono: "(a :: u64) \<le> b \<Longrightarrow> small b \<Longrightarrow> small a"
  by (simp add: small_def word_le_nat_alt)

lemma memory_okD:
  assumes "memory_ok root xs m"
  shows "dq_prev (links m) root = last xs" "last xs \<in> set xs" "last xs < next_address m"
    "ck_offset (chunk m (last xs)) \<le> ck_max_size (chunk m (last xs))" "small (ck_max_size (chunk m (last xs)))"
  using assms by (auto simp: memory_ok_def ring_iff)

text \<open>An allocation that fits the last chunk, and one that opens a new one.\<close>

lemma take_from_ok:
  assumes ok: "memory_ok root xs m" and n: "small n"
    and fit: "ck_offset (chunk m (last xs)) + n \<le> ck_max_size (chunk m (last xs))"
  shows "memory_ok root xs (fst (take_from (last xs) n m))"
  using ok fit by (auto simp: memory_ok_def take_from_def)

lemma octo_cmalloc_fits:
  assumes ok: "memory_ok root xs m"
    and fit: "ck_offset (chunk m (last xs)) + n \<le> ck_max_size (chunk m (last xs))"
  shows "octo_cmalloc chunk_size root n m = Done (take_from (last xs) n m)"
  using fit by (simp add: octo_cmalloc_def memory_okD [OF ok] not_le [symmetric])

definition grown :: "u64 \<Rightarrow> nat \<Rightarrow> u64 \<Rightarrow> chunk_memory \<Rightarrow> chunk_memory" where
  "grown chunk_size root n m =
     (let (m1, new) = alloc_chunk chunk_size n m in m1\<lparr>links := dqinsert root new (links m1)\<rparr>)"

lemma grown_fields [simp]:
  "next_address (grown cs root n m) = Suc (next_address m)"
  "chunk (grown cs root n m) = (chunk m)(next_address m := \<lparr>ck_offset = 0, ck_max_size = max n cs\<rparr>)"
  "links (grown cs root n m) = dqinsert root (next_address m) (dqinit (next_address m) (links m))"
  by (auto simp: grown_def alloc_chunk_def Let_def max_def)

lemma grown_ok:
  assumes ok: "memory_ok root xs m" and n: "small n" and cs: "small cs"
  shows "memory_ok root (xs @ [next_address m]) (grown cs root n m)"
proof -
  let ?new = "next_address m"
  have new: "?new \<notin> set xs" and root: "hd xs = root" and ne: "xs \<noteq> []"
    using ok ring_nonempty [of "links m" xs] by (auto simp: memory_ok_def)
  have "ring (dqinit ?new (links m)) xs"
    using ok new by (intro ring_dqinit_other) (simp_all add: memory_ok_def)
  from ring_dqinsert [OF this ring_singleton] have "ring (dqinsert root ?new (dqinit ?new (links m))) (xs @ [?new])"
    using new root by simp
  then show ?thesis
    using ok new root ne n cs by (auto simp: memory_ok_def max_def)
qed

lemma octo_cmalloc_grows:
  assumes ok: "memory_ok root xs m" and n: "small n" and cs: "small cs"
    and full: "\<not> ck_offset (chunk m (last xs)) + n \<le> ck_max_size (chunk m (last xs))"
  shows "octo_cmalloc cs root n m = Done (take_from (next_address m) n (grown cs root n m))"
proof -
  have "ring (links (grown cs root n m)) (xs @ [next_address m])" "hd (xs @ [next_address m]) = root"
    using grown_ok [OF ok n cs] by (simp_all add: memory_ok_def)
  then have "dq_prev (links (grown cs root n m)) root = next_address m"
    "dq_next (links (grown cs root n m)) (next_address m) = root"
    by (auto simp: ring_iff)
  then show ?thesis
    using full by (simp add: octo_cmalloc_def memory_okD [OF ok] Let_def split_beta alloc_chunk_def grown_def max_def not_le)
qed

definition chunk_alloc :: "u64 \<Rightarrow> nat \<Rightarrow> chunk_memory \<Rightarrow> u64 \<Rightarrow> (chunk_memory \<times> nat \<times> u64) option" where
  "chunk_alloc cs root m n = (case octo_cmalloc cs root n m of Done r \<Rightarrow> Some r | _ \<Rightarrow> None)"

definition some_memory_ok :: "u64 \<Rightarrow> nat \<Rightarrow> chunk_memory \<Rightarrow> bool" where
  "some_memory_ok cs root m \<longleftrightarrow> small cs \<and> (\<exists>xs. memory_ok root xs m)"

text \<open>Every allocation is one of the two cases; both take the bytes behind the ones in use.\<close>

lemma chunk_alloc_cases:
  assumes ok: "some_memory_ok cs root m" and n: "small n"
  obtains (same) p where "chunk_alloc cs root m n = Some (take_from p n m)" "p < next_address m"
      "ck_offset (chunk m p) \<le> ck_max_size (chunk m p)" "small (ck_max_size (chunk m p))"
      "ck_offset (chunk m p) + n \<le> ck_max_size (chunk m p)" "some_memory_ok cs root (fst (take_from p n m))"
  | (new) "chunk_alloc cs root m n = Some (take_from (next_address m) n (grown cs root n m))"
      "some_memory_ok cs root (fst (take_from (next_address m) n (grown cs root n m)))"
proof -
  obtain xs where xs: "memory_ok root xs m" and cs: "small cs" using ok by (auto simp: some_memory_ok_def)
  note facts = memory_okD [OF xs]
  show thesis
  proof (cases "ck_offset (chunk m (last xs)) + n \<le> ck_max_size (chunk m (last xs))")
    case True
    have "some_memory_ok cs root (fst (take_from (last xs) n m))"
      using take_from_ok [OF xs n True] cs by (auto simp: some_memory_ok_def)
    then show thesis
      using same [of "last xs"] facts True octo_cmalloc_fits [OF xs True] by (simp add: chunk_alloc_def)
  next
    case False
    note g = grown_ok [OF xs n cs]
    have "memory_ok root (xs @ [next_address m])
        (fst (take_from (last (xs @ [next_address m])) n (grown cs root n m)))"
      using take_from_ok [OF g n] by simp
    then have "some_memory_ok cs root (fst (take_from (next_address m) n (grown cs root n m)))"
      using cs by (auto simp: some_memory_ok_def simp del: grown_fields)
    then show thesis
      using new octo_cmalloc_grows [OF xs n cs False] by (simp add: chunk_alloc_def)
  qed
qed

lemma take_from_fields [simp]:
  "next_address (fst (take_from p n m)) = next_address m"
  "ck_offset (chunk (fst (take_from p n m)) q) = (if q = p then ck_offset (chunk m p) + n else ck_offset (chunk m q))"
  "ck_max_size (chunk (fst (take_from p n m)) q) = ck_max_size (chunk m q)"
  "snd (take_from p n m) = (p, ck_offset (chunk m p))"
  by (simp_all add: take_from_def)

lemma chunk_alloc_law:
  assumes ok: "some_memory_ok cs root m" and n: "small n" and al: "chunk_alloc cs root m n = Some (m', b, off)"
  shows "some_memory_ok cs root m' \<and> chunk_used m b \<le> unat off \<and> chunk_used m' b = unat off + unat n
    \<and> chunk_used m' b \<le> chunk_capacity m' b
    \<and> (chunk_used m c \<le> chunk_used m' c \<and> (0 < chunk_used m c \<longrightarrow> chunk_capacity m' c = chunk_capacity m c))"
  using ok n
proof (cases rule: chunk_alloc_cases)
  case (same p)
  have t: "take_from p n m = (m', b, off)" using same(1) al by simp
  have r: "m' = fst (take_from p n m)" "b = p" "off = ck_offset (chunk m p)"
    using arg_cong [OF t, of fst] arg_cong [OF t, of snd] by auto
  have plus: "unat (ck_offset (chunk m p) + n) = unat (ck_offset (chunk m p)) + unat n"
    using small_plus small_mono same n by blast
  show ?thesis
    using r same plus by (auto simp: chunk_used_def chunk_capacity_def word_le_nat_alt)
next
  case new
  have t: "take_from (next_address m) n (grown cs root n m) = (m', b, off)" using new(1) al by simp
  have r: "m' = fst (take_from (next_address m) n (grown cs root n m))" "b = next_address m" "off = 0"
    using arg_cong [OF t, of fst] arg_cong [OF t, of snd] by auto
  show ?thesis
    using r new by (auto simp: chunk_used_def chunk_capacity_def word_le_nat_alt max_def)
qed

interpretation octo_arena: arena "chunk_alloc cs root" "some_memory_ok cs root" chunk_used chunk_capacity small
  for cs root
proof unfold_locales
  fix m n
  assume "some_memory_ok cs root m" "small n"
  then show "\<exists>m' b off. chunk_alloc cs root m n = Some (m', b, off)"
    by (cases rule: chunk_alloc_cases) (metis prod.collapse)+
qed (use chunk_alloc_law in blast)+

section \<open>Freeing\<close>

lemma cfree_loop_segment:
  assumes "map nxt (butlast (c # cs)) = cs" "nxt (last (c # cs)) = root" "root \<notin> set cs"
    "distinct (freed @ c # cs)"
  shows "cfree_loop nxt root freed c = Some (Done (freed @ c # cs))"
  using assms
proof (induction cs arbitrary: c freed)
  case Nil
  then show ?case by (simp add: cfree_loop.simps)
next
  case (Cons d ds)
  have n: "nxt c = d" "map nxt (butlast (d # ds)) = ds" using Cons.prems(1) by (auto split: if_splits)
  have "cfree_loop nxt root (freed @ [c]) d = Some (Done ((freed @ [c]) @ d # ds))"
    using n Cons.prems by (intro Cons.IH) auto
  then show ?case using n Cons.prems by (subst cfree_loop.simps) auto
qed

lemma octo_cfree_ring:
  assumes "memory_ok root xs m"
  shows "octo_cfree root m = Some (Done xs)"
proof -
  have r: "xs = root # tl xs" "map (dq_next (links m)) (butlast xs) = tl xs" "dq_next (links m) (last xs) = root" "distinct xs"
    using assms by (auto simp: memory_ok_def ring_iff)
  have root: "root \<notin> set (tl xs)" using head_not_after [OF r(4)] arg_cong [OF r(1), of hd] by simp
  have "cfree_loop (dq_next (links m)) root [] root = Some (Done ([] @ root # tl xs))"
    using r root by (intro cfree_loop_segment) (simp_all flip: r(1))
  then show ?thesis
    using r(1) by (simp add: octo_cfree_def)
qed

section \<open>Properties\<close>

text \<open>The memory after the program's first call of \<open>alloc_chunk\<close>.\<close>

definition first_memory :: "u64 \<Rightarrow> chunk_memory" where
  "first_memory chunk_size =
     fst (alloc_chunk chunk_size chunk_size
       \<lparr>links = \<lparr>dq_next = id, dq_prev = id\<rparr>, chunk = (\<lambda>p. \<lparr>ck_offset = 0, ck_max_size = 0\<rparr>), next_address = 0\<rparr>)"

lemma first_memory_ok: "small cs \<Longrightarrow> memory_ok 0 [0] (first_memory cs)"
  by (simp add: first_memory_def alloc_chunk_def memory_ok_def ring_def dqinit_def)

text \<open>C15.
  Requests of less than \<open>2\<^sup>6\<^sup>3\<close> bytes each, starting from one chunk, are all served; every region lies
  in its chunk, has the requested length and shares no byte with another one.
\<close>

theorem octo_cmalloc_regions:
  assumes "small chunk_size" "list_all small ns"
  shows "\<exists>m rs. alloc_all (chunk_alloc chunk_size 0) (first_memory chunk_size) ns = Some (m, rs)
    \<and> map (\<lambda>r. snd (snd r)) rs = map unat ns
    \<and> sorted_wrt apart rs \<and> (\<forall>(b, i, n) \<in> set rs. i + n \<le> chunk_used m b \<and> (0 < n \<longrightarrow> i + n \<le> chunk_capacity m b))"
proof -
  have "some_memory_ok chunk_size 0 (first_memory chunk_size)"
    using first_memory_ok assms(1) by (auto simp: some_memory_ok_def)
  from octo_arena.all_regions [OF this assms(2)] show ?thesis by fastforce
qed

theorem octo_cmalloc_regions_witness:
  "\<exists>m rs. alloc_all (chunk_alloc 64 0) (first_memory 64) [40, 20, 8, 100, 3] = Some (m, rs)
    \<and> map (\<lambda>r. snd (snd r)) rs = map unat [40, 20, 8, 100, 3 :: u64]
    \<and> sorted_wrt apart rs \<and> (\<forall>(b, i, n) \<in> set rs. i + n \<le> chunk_used m b \<and> (0 < n \<longrightarrow> i + n \<le> chunk_capacity m b))"
  by (rule octo_cmalloc_regions) (simp_all add: small_def chunk_limit_def)

text \<open>C33.
  \<open>octo_cfree\<close> returns and frees every chunk of the arena exactly once, never touching a chunk it has
  freed; for the arena that any sequence of requests leaves behind.
\<close>

theorem octo_cfree_frees_all:
  assumes "small chunk_size" "list_all small ns"
    and "alloc_all (chunk_alloc chunk_size 0) (first_memory chunk_size) ns = Some (m, rs)"
  shows "\<exists>xs. octo_cfree 0 m = Some (Done xs) \<and> distinct xs \<and> ring (links m) xs \<and> hd xs = 0"
proof -
  have "some_memory_ok chunk_size 0 (first_memory chunk_size)"
    using first_memory_ok assms(1) by (auto simp: some_memory_ok_def)
  from octo_arena.all_regions [OF this assms(2)] obtain xs where "memory_ok 0 xs m"
    using assms(3) by (auto simp: some_memory_ok_def)
  moreover from this have "octo_cfree 0 m = Some (Done xs)" by (rule octo_cfree_ring)
  ultimately have "octo_cfree 0 m = Some (Done xs)" "ring (links m) xs" "distinct xs" "hd xs = 0"
    by (auto simp: memory_ok_def ring_iff)
  then show ?thesis by blast
qed

theorem octo_cfree_frees_all_witness:
  "\<exists>xs. octo_cfree 0 (fst (the (alloc_all (chunk_alloc 64 0) (first_memory 64) [40, 20, 8, 100, 3]))) = Some (Done xs)"
proof -
  let ?r = "alloc_all (chunk_alloc 64 0) (first_memory 64) [40, 20, 8, 100, 3]"
  have s: "some_memory_ok 64 0 (first_memory 64)" "list_all small [40, 20, 8, 100, 3]"
    using first_memory_ok [of 64] by (auto simp: some_memory_ok_def small_def chunk_limit_def)
  have sm: "small 64" using s(1) by (simp add: some_memory_ok_def)
  obtain m rs where r: "?r = Some (m, rs)" using octo_arena.all_regions [OF s] by auto
  show ?thesis using octo_cfree_frees_all [OF sm s(2) r] by (auto simp: r simp del: alloc_all.simps)
qed

text \<open>
  The size test wraps: after a request of 16 bytes, one of \<open>2\<^sup>6\<^sup>4 - 8\<close> bytes is taken to fit the chunk,
  and the next one gets bytes that are already in use.
\<close>

lemma octo_cmalloc_wraps:
  "map_option snd (alloc_all (chunk_alloc 64 0) (first_memory 64) [16, -8, 16])
     = Some [(0, 0, 16), (0, 16, 2 ^ 64 - 8), (0, 8, 16)]
   \<and> \<not> apart (0, 0, 16) (0, 8, 16)"
  by (simp add: chunk_alloc_def octo_cmalloc_def first_memory_def alloc_chunk_def take_from_def dqinit_def apart_def)

end
