(* ===== verification/Plan_Normal_Form.thy ===== *)
theory Plan_Normal_Form
  imports Plan_Types
begin

text \<open>
  Boolean expressions of logical plans and \<open>optimization_transforms/lp_make_normal_disjunctive_form.c\<close>:
  pushing \<open>NOT\<close> to the comparisons and distributing \<open>AND\<close> over \<open>OR\<close>. The source changes nodes in place and
  lets the terms of the result share subtrees; no shared node is changed afterwards other than into an
  equal one, so the functions here return new trees. \<open>lp_eval\<close> is the meaning of an expression for a given
  truth value of its atoms; the lemmas show that the two functions return, keep the meaning and keep the
  number of terms.
\<close>

section \<open>The functions\<close>

text \<open>
  Operands below which a \<open>NOT\<close> is left where it is. The comparison with \<open>LP_ADDITION\<close> catches columns,
  values, functions and everything else that is not an operator.
\<close>

definition not_recursed :: "LPActionType \<Rightarrow> bool" where
  "not_recursed t \<longleftrightarrow>
     t = LP_BOOLEAN_REGEX_SENSITIVE \<or> t = LP_BOOLEAN_REGEX_INSENSITIVE \<or> t = LP_BOOLEAN_IS
     \<or> action_index t < action_index LP_ADDITION"

text \<open>The comparisons and their inverses, from the \<open>switch\<close> of \<open>lp_apply_not\<close>.\<close>

definition inverse_comparison :: "LPActionType \<Rightarrow> LPActionType option" where
  "inverse_comparison t =
     (if t = LP_BOOLEAN_EQUALS then Some LP_BOOLEAN_NOT_EQUALS
      else if t = LP_BOOLEAN_NOT_EQUALS then Some LP_BOOLEAN_EQUALS
      else if t = LP_BOOLEAN_LESS_THAN then Some LP_BOOLEAN_GREATER_THAN_OR_EQUALS
      else if t = LP_BOOLEAN_GREATER_THAN then Some LP_BOOLEAN_LESS_THAN_OR_EQUALS
      else if t = LP_BOOLEAN_LESS_THAN_OR_EQUALS then Some LP_BOOLEAN_GREATER_THAN
      else if t = LP_BOOLEAN_GREATER_THAN_OR_EQUALS then Some LP_BOOLEAN_LESS_THAN
      else if t = LP_BOOLEAN_IN then Some LP_BOOLEAN_NOT_IN
      else if t = LP_BOOLEAN_NOT_IN then Some LP_BOOLEAN_IN
      else None)"

primrec lp_apply_not :: "LogicalPlan \<Rightarrow> nat \<Rightarrow> LogicalPlan option" where
  "lp_apply_not NullPlan count = None"
| "lp_apply_not (Node t a b) count =
     (if t = LP_BOOLEAN_NOT then
        (case lp_type a of
           None \<Rightarrow> None
         | Some ta \<Rightarrow> if not_recursed ta then Some (Node t a b) else lp_apply_not a (count + 1))
      else if count mod 2 = 1 then
        (if t = LP_BOOLEAN_OR then
           do { a' \<leftarrow> lp_apply_not a count; b' \<leftarrow> lp_apply_not b count; Some (Node LP_BOOLEAN_AND a' b') }
         else if t = LP_BOOLEAN_AND then
           do { a' \<leftarrow> lp_apply_not a count; b' \<leftarrow> lp_apply_not b count; Some (Node LP_BOOLEAN_OR a' b') }
         else map_option (\<lambda>t'. Node t' a b) (inverse_comparison t))
      else Some (Node t a b))"
| "lp_apply_not (ColumnAliasNode c) count = (if count mod 2 = 1 then None else Some (ColumnAliasNode c))"
| "lp_apply_not (ColumnListAliasNode c) count = (if count mod 2 = 1 then None else Some (ColumnListAliasNode c))"
| "lp_apply_not (ValueNode v) count = (if count mod 2 = 1 then None else Some (ValueNode v))"
| "lp_apply_not (TableNode v) count = (if count mod 2 = 1 then None else Some (TableNode v))"
| "lp_apply_not (KeyNode v) count = (if count mod 2 = 1 then None else Some (KeyNode v))"
| "lp_apply_not (KeywordsNode v) count = (if count mod 2 = 1 then None else Some (KeywordsNode v))"
| "lp_apply_not (PieceNode v) count = (if count mod 2 = 1 then None else Some (PieceNode v))"

text \<open>
  The double loop for \<open>AND\<close>: the pairs of terms of the left and the right operand, each with the type that
  the iteration gives to the nodes it allocates.
\<close>

definition is_or :: "LogicalPlan \<Rightarrow> bool" where
  "is_or p \<longleftrightarrow> lp_type p = Some LP_BOOLEAN_OR"

definition or_head :: "LogicalPlan \<Rightarrow> LogicalPlan" where
  "or_head p = (case p of Node t a b \<Rightarrow> if t = LP_BOOLEAN_OR then a else p | _ \<Rightarrow> p)"

definition cross_term :: "LogicalPlan \<Rightarrow> LogicalPlan \<Rightarrow> LogicalPlan \<times> LPActionType" where
  "cross_term l r =
     (Node LP_BOOLEAN_AND (or_head l) (or_head r),
      if \<not> is_or l \<and> \<not> is_or r then LP_BOOLEAN_AND else LP_BOOLEAN_OR)"

fun cross_right :: "LogicalPlan \<Rightarrow> LogicalPlan \<Rightarrow> (LogicalPlan \<times> LPActionType) list" where
  "cross_right l (Node t a b) =
     cross_term l (Node t a b)
       # (if t = LP_BOOLEAN_OR \<and> b \<noteq> NullPlan then cross_right l b else [])"
| "cross_right l r = [cross_term l r]"

fun cross_left :: "LogicalPlan \<Rightarrow> LogicalPlan \<Rightarrow> (LogicalPlan \<times> LPActionType) list" where
  "cross_left (Node t a b) right =
     cross_right (Node t a b) right
       @ (if t = LP_BOOLEAN_OR \<and> b \<noteq> NullPlan then cross_left b right else [])"
| "cross_left l right = cross_right l right"

text \<open>
  The list of nodes that the loop links through \<open>cur\<close>: the first node has the type of the first iteration,
  each later one the type of the iteration before it, and an empty node ends the list.
\<close>

fun link_terms :: "LPActionType \<Rightarrow> (LogicalPlan \<times> LPActionType) list \<Rightarrow> LogicalPlan" where
  "link_terms t [] = new_node t"
| "link_terms t ((lp, t') # rest) = Node t lp (link_terms t' rest)"

text \<open>Promotion of the last item.\<close>

definition holds_item :: "LogicalPlan \<Rightarrow> bool" where
  "holds_item p \<longleftrightarrow> (case p of Node t a b \<Rightarrow> a \<noteq> NullPlan | _ \<Rightarrow> False)"

fun promote_rest :: "LogicalPlan \<Rightarrow> LogicalPlan" where
  "promote_rest (Node t x (Node t' y rest)) =
     (if holds_item rest then Node t x (promote_rest (Node t' y rest)) else Node t x y)"
| "promote_rest p = p"

definition promote_last :: "LogicalPlan \<Rightarrow> LogicalPlan" where
  "promote_last ret =
     (case ret of Node t x rest \<Rightarrow> if holds_item rest then promote_rest ret else x | _ \<Rightarrow> ret)"

definition distribute :: "LogicalPlan \<Rightarrow> LogicalPlan \<Rightarrow> LogicalPlan option" where
  "distribute left right =
     (if left = NullPlan \<or> right = NullPlan then None
      else let terms = cross_left left right in Some (promote_last (link_terms (snd (hd terms)) terms)))"

lemma apply_not_size: "lp_apply_not p n = Some q \<Longrightarrow> size q \<le> size p"
proof (induction p arbitrary: n q)
  case (Node t a b)
  show ?case
  proof (cases "t = LP_BOOLEAN_NOT")
    case True
    then show ?thesis
      using Node.prems Node.IH(1) [of "n + 1"]
      by (fastforce split: option.splits if_splits)
  next
    case False
    then show ?thesis
      using Node.prems Node.IH(1) [of n] Node.IH(2) [of n]
      by (fastforce simp: bind_eq_Some_conv split: if_splits)
  qed
qed (auto split: if_splits)

function lp_make_normal_disjunctive_form :: "LogicalPlan \<Rightarrow> LogicalPlan option" where
  "lp_make_normal_disjunctive_form root =
     (if root = NullPlan then Some NullPlan
      else
        (case lp_apply_not root 0 of
           Some (Node t a b) \<Rightarrow>
             if t \<noteq> LP_BOOLEAN_AND \<and> t \<noteq> LP_BOOLEAN_OR then Some (Node t a b)
             else
               (case lp_make_normal_disjunctive_form a of
                  None \<Rightarrow> None
                | Some left \<Rightarrow>
                    (case lp_make_normal_disjunctive_form b of
                       None \<Rightarrow> None
                     | Some right \<Rightarrow>
                         if t \<noteq> LP_BOOLEAN_AND then Some (Node t left right) else distribute left right))
         | other \<Rightarrow> other))"
  by pat_completeness auto
termination
  by (relation "measure size") (auto dest!: apply_not_size)

declare lp_make_normal_disjunctive_form.simps [simp del]

section \<open>Meaning\<close>

text \<open>
  The truth value of an expression, given the truth values of its atoms. The four inverse comparisons are
  the negations of the ones they invert; every other operator is an atom.
\<close>

definition base_comparison :: "LPActionType \<Rightarrow> LPActionType option" where
  "base_comparison t =
     (if t = LP_BOOLEAN_NOT_EQUALS then Some LP_BOOLEAN_EQUALS
      else if t = LP_BOOLEAN_GREATER_THAN_OR_EQUALS then Some LP_BOOLEAN_LESS_THAN
      else if t = LP_BOOLEAN_LESS_THAN_OR_EQUALS then Some LP_BOOLEAN_GREATER_THAN
      else if t = LP_BOOLEAN_NOT_IN then Some LP_BOOLEAN_IN
      else None)"

fun lp_eval :: "(LogicalPlan \<Rightarrow> bool) \<Rightarrow> LogicalPlan \<Rightarrow> bool" where
  "lp_eval atom (Node t a b) =
     (if t = LP_BOOLEAN_OR then lp_eval atom a \<or> lp_eval atom b
      else if t = LP_BOOLEAN_AND then lp_eval atom a \<and> lp_eval atom b
      else if t = LP_BOOLEAN_NOT then \<not> lp_eval atom a
      else (case base_comparison t of Some t' \<Rightarrow> \<not> atom (Node t' a b) | None \<Rightarrow> atom (Node t a b)))"
| "lp_eval atom p = atom p"

text \<open>
  Expressions to which \<open>lp_apply_not\<close> can apply an even (\<open>False\<close>) or odd (\<open>True\<close>) number of negations: an
  odd number reaches comparisons only.
\<close>

primrec invertible :: "LogicalPlan \<Rightarrow> bool \<Rightarrow> bool" where
  "invertible NullPlan n = False"
| "invertible (Node t a b) n =
     (if t = LP_BOOLEAN_NOT then
        (case lp_type a of None \<Rightarrow> False | Some ta \<Rightarrow> if not_recursed ta then \<not> n else invertible a (\<not> n))
      else if t = LP_BOOLEAN_OR \<or> t = LP_BOOLEAN_AND then invertible a n \<and> invertible b n
      else n \<longrightarrow> inverse_comparison t \<noteq> None)"
| "invertible (ColumnAliasNode c) n = (\<not> n)"
| "invertible (ColumnListAliasNode c) n = (\<not> n)"
| "invertible (ValueNode v) n = (\<not> n)"
| "invertible (TableNode v) n = (\<not> n)"
| "invertible (KeyNode v) n = (\<not> n)"
| "invertible (KeywordsNode v) n = (\<not> n)"
| "invertible (PieceNode v) n = (\<not> n)"

lemma inverse_comparison_eval:
  assumes "inverse_comparison t = Some t'"
  shows "lp_eval atom (Node t' a b) = (\<not> lp_eval atom (Node t a b))" "invertible (Node t' a b) False"
    "t' \<noteq> LP_BOOLEAN_NOT" "t \<noteq> LP_BOOLEAN_NOT" "t \<noteq> LP_BOOLEAN_OR" "t \<noteq> LP_BOOLEAN_AND"
    "t' \<noteq> LP_BOOLEAN_OR" "t' \<noteq> LP_BOOLEAN_AND"
  using assms by (auto simp: inverse_comparison_def base_comparison_def split: if_splits)

text \<open>A \<open>NOT\<close> that is still at the top afterwards is one that is not recursed into.\<close>

definition no_top_not :: "LogicalPlan \<Rightarrow> bool" where
  "no_top_not p \<longleftrightarrow> (case p of Node t a b \<Rightarrow>
     t = LP_BOOLEAN_NOT \<longrightarrow> (case lp_type a of None \<Rightarrow> False | Some ta \<Rightarrow> not_recursed ta) | _ \<Rightarrow> True)"

lemma apply_not_correct:
  assumes "invertible p (n mod 2 = 1)"
  shows "\<exists>q. lp_apply_not p n = Some q \<and> invertible q False \<and> no_top_not q
    \<and> (\<forall>atom. lp_eval atom q = ((n mod 2 = 1) \<noteq> lp_eval atom p))"
  using assms
proof (induction p arbitrary: n)
  case (Node t a b)
  consider (neg) "t = LP_BOOLEAN_NOT" | (junct) "t = LP_BOOLEAN_OR \<or> t = LP_BOOLEAN_AND"
    | (other) "t \<noteq> LP_BOOLEAN_NOT" "t \<noteq> LP_BOOLEAN_OR" "t \<noteq> LP_BOOLEAN_AND" by blast
  then show ?case
  proof cases
    case neg
    obtain ta where ta: "lp_type a = Some ta" using Node.prems neg by (auto split: option.splits)
    have parity: "((n + 1) mod 2 = 1) = (\<not> n mod 2 = 1)" by presburger
    show ?thesis
    proof (cases "not_recursed ta")
      case True
      then show ?thesis using Node.prems neg ta by (auto simp: no_top_not_def)
    next
      case False
      then have "invertible a ((n + 1) mod 2 = 1)" using Node.prems neg ta parity by simp
      from Node.IH(1) [OF this] show ?thesis
        using neg ta False parity by auto
    qed
  next
    case junct
    then have inv: "invertible a (n mod 2 = 1)" "invertible b (n mod 2 = 1)" using Node.prems by auto
    show ?thesis
    proof (cases "n mod 2 = 1")
      case True
      then show ?thesis using junct Node.IH(1) [OF inv(1)] Node.IH(2) [OF inv(2)]
        by (auto simp: no_top_not_def)
    next
      case False
      then show ?thesis using junct inv by (auto simp: no_top_not_def)
    qed
  next
    case other
    show ?thesis
    proof (cases "n mod 2 = 1")
      case True
      then obtain t' where "inverse_comparison t = Some t'" using Node.prems other by auto
      from inverse_comparison_eval [OF this] True other this show ?thesis by (auto simp: no_top_not_def)
    next
      case False
      then show ?thesis using other by (auto simp: no_top_not_def)
    qed
  qed
qed (auto simp: no_top_not_def)

section \<open>Terms\<close>

text \<open>The terms of a chain of \<open>OR\<close>s as the loops of the source walk it, and the chain with given terms.\<close>

fun or_terms :: "LogicalPlan \<Rightarrow> LogicalPlan list" where
  "or_terms (Node t a b) =
     (if t = LP_BOOLEAN_OR then a # (if b = NullPlan then [] else or_terms b) else [Node t a b])"
| "or_terms p = [p]"

fun or_chain :: "LogicalPlan list \<Rightarrow> LogicalPlan" where
  "or_chain [] = NullPlan"
| "or_chain [x] = x"
| "or_chain (x # y # xs) = Node LP_BOOLEAN_OR x (or_chain (y # xs))"

lemma or_terms_nonempty [simp]: "or_terms p \<noteq> []"
  by (cases p) auto

lemma cross_right_terms: "map fst (cross_right l r) = map (Node LP_BOOLEAN_AND (or_head l)) (or_terms r)"
  by (induction l r rule: cross_right.induct) (auto simp: cross_term_def or_head_def)

lemma cross_left_terms:
  "map fst (cross_left l r) = concat (map (\<lambda>x. map (Node LP_BOOLEAN_AND x) (or_terms r)) (or_terms l))"
  by (induction l r rule: cross_left.induct) (auto simp: cross_right_terms or_head_def)

text \<open>An \<open>OR\<close> chain without null operands; the loops end at the last term.\<close>

fun or_full :: "LogicalPlan \<Rightarrow> bool" where
  "or_full (Node t a b) = (t = LP_BOOLEAN_OR \<longrightarrow> or_full b)"
| "or_full NullPlan = False"
| "or_full p = True"

lemma cross_right_types:
  assumes "or_full r"
  shows "map snd (cross_right l r)
    = replicate (length (or_terms r) - 1) LP_BOOLEAN_OR @ [if is_or l then LP_BOOLEAN_OR else LP_BOOLEAN_AND]"
  using assms
proof (induction l r rule: cross_right.induct)
  case (1 l t a b)
  show ?case
  proof (cases "t = LP_BOOLEAN_OR")
    case True
    then have "b \<noteq> NullPlan" "or_full b" using 1(2) by auto
    moreover obtain m where "length (or_terms b) = Suc m" by (cases "or_terms b") auto
    ultimately show ?thesis using 1(1) True by (simp add: cross_term_def is_or_def)
  next
    case False
    then show ?thesis by (simp add: cross_term_def is_or_def)
  qed
qed (auto simp: cross_term_def is_or_def)

lemma cross_left_types:
  assumes "or_full l" "or_full r"
  shows "map snd (cross_left l r)
    = replicate (length (or_terms l) * length (or_terms r) - 1) LP_BOOLEAN_OR @ [LP_BOOLEAN_AND]"
  using assms
proof (induction l r rule: cross_left.induct)
  case (1 t a b r)
  obtain k where k: "length (or_terms r) = Suc k" by (cases "or_terms r") auto
  show ?case
  proof (cases "t = LP_BOOLEAN_OR")
    case True
    then have b: "b \<noteq> NullPlan" "or_full b" using 1(2) by auto
    obtain m where m: "length (or_terms b) = Suc m" by (cases "or_terms b") auto
    have "map snd (cross_left (Node t a b) r)
        = replicate k LP_BOOLEAN_OR @ [LP_BOOLEAN_OR] @ replicate (Suc m * Suc k - 1) LP_BOOLEAN_OR @ [LP_BOOLEAN_AND]"
      using 1 True b k m cross_right_types [of r "Node t a b"] by (simp add: is_or_def)
    also have "\<dots> = replicate (k + Suc (Suc m * Suc k - 1)) LP_BOOLEAN_OR @ [LP_BOOLEAN_AND]"
      by (simp only: replicate_add replicate_Suc append.assoc append_Cons append_Nil)
    also have "k + Suc (Suc m * Suc k - 1) = length (or_terms (Node t a b)) * length (or_terms r) - 1"
      using True b k m by simp
    finally show ?thesis .
  next
    case False
    then show ?thesis using cross_right_types [OF 1(3), of "Node t a b"] by (simp add: is_or_def)
  qed
qed (auto simp: is_or_def cross_right_types)

text \<open>Linking and promoting builds exactly the chain of the terms.\<close>

lemma promote_rest_link:
  assumes "list_all (\<lambda>x. fst x \<noteq> NullPlan) xs" "xs \<noteq> []" "x \<noteq> NullPlan"
    "map snd xs = replicate (length xs - 1) LP_BOOLEAN_OR @ [LP_BOOLEAN_AND]"
  shows "promote_rest (Node LP_BOOLEAN_OR x (link_terms LP_BOOLEAN_OR xs)) = or_chain (x # map fst xs)"
  using assms
proof (induction xs arbitrary: x)
  case (Cons y ys)
  obtain q t where y: "y = (q, t)" by force
  show ?case
  proof (cases ys)
    case Nil
    then show ?thesis using y by (simp add: holds_item_def)
  next
    case (Cons z zs)
    then have t: "t = LP_BOOLEAN_OR" using Cons.prems(4) y by simp
    have "promote_rest (Node LP_BOOLEAN_OR q (link_terms LP_BOOLEAN_OR ys)) = or_chain (q # map fst ys)"
      using Cons Cons.prems y by (intro Cons.IH) auto
    moreover have "holds_item (link_terms t ys)"
      using Cons Cons.prems(1) by (cases z) (simp add: holds_item_def)
    ultimately show ?thesis using y t Cons by simp
  qed
qed simp

lemma promote_link:
  assumes "list_all (\<lambda>x. fst x \<noteq> NullPlan) xs" "xs \<noteq> []"
    "map snd xs = replicate (length xs - 1) LP_BOOLEAN_OR @ [LP_BOOLEAN_AND]"
  shows "promote_last (link_terms (snd (hd xs)) xs) = or_chain (map fst xs)"
proof -
  obtain x t ys where xs: "xs = (x, t) # ys" using assms(2) by (cases xs) auto
  show ?thesis
  proof (cases ys)
    case Nil
    then show ?thesis by (simp add: xs promote_last_def holds_item_def)
  next
    case (Cons z zs)
    then have t: "t = LP_BOOLEAN_OR" using assms(3) xs by simp
    have "holds_item (link_terms t ys)" using Cons assms(1) xs by (cases z) (simp add: holds_item_def)
    moreover have "promote_rest (Node LP_BOOLEAN_OR x (link_terms LP_BOOLEAN_OR ys)) = or_chain (x # map fst ys)"
      using Cons xs assms by (intro promote_rest_link) auto
    ultimately show ?thesis by (simp add: xs t promote_last_def)
  qed
qed

lemma distribute_chain:
  assumes "or_full l" "or_full r"
  shows "distribute l r
    = Some (or_chain (concat (map (\<lambda>x. map (Node LP_BOOLEAN_AND x) (or_terms r)) (or_terms l))))"
proof -
  let ?ts = "cross_left l r"
  have nn: "l \<noteq> NullPlan" "r \<noteq> NullPlan" using assms by auto
  have fsts: "map fst ?ts = concat (map (\<lambda>x. map (Node LP_BOOLEAN_AND x) (or_terms r)) (or_terms l))"
    by (rule cross_left_terms)
  have len: "length ?ts = length (or_terms l) * length (or_terms r)"
    using arg_cong [OF fsts, of length] by (simp add: length_concat comp_def sum_list_triv)
  have "list_all (\<lambda>x. fst x \<noteq> NullPlan) ?ts"
    using arg_cong [OF fsts, of set] by (force simp: list_all_iff)
  moreover have "?ts \<noteq> []" using len by auto
  ultimately have "promote_last (link_terms (snd (hd ?ts)) ?ts) = or_chain (map fst ?ts)"
    using promote_link cross_left_types [OF assms] len by simp
  then show ?thesis using nn by (simp add: distribute_def Let_def fsts)
qed

text \<open>Meaning, well-formedness and number of terms of chains.\<close>

lemma lp_eval_or_terms: "or_full p \<Longrightarrow> lp_eval atom p = (\<exists>x \<in> set (or_terms p). lp_eval atom x)"
  by (induction p rule: or_terms.induct) auto

lemma lp_eval_or_chain: "xs \<noteq> [] \<Longrightarrow> lp_eval atom (or_chain xs) = (\<exists>x \<in> set xs. lp_eval atom x)"
  by (induction xs rule: or_chain.induct) auto

lemma invertible_or_full: "invertible p False \<Longrightarrow> or_full p"
  by (induction p) auto

lemma invertible_or_terms: "invertible p False \<Longrightarrow> x \<in> set (or_terms p) \<Longrightarrow> invertible x False"
proof (induction p)
  case (Node t a b)
  then show ?case by (cases "t = LP_BOOLEAN_OR") (auto split: if_splits)
qed auto

lemma invertible_or_chain:
  "xs \<noteq> [] \<Longrightarrow> (\<And>x. x \<in> set xs \<Longrightarrow> invertible x False) \<Longrightarrow> invertible (or_chain xs) False"
  by (induction xs rule: or_chain.induct) auto

text \<open>
  The number of terms of the full disjunctive normal form; the flag says whether the expression stands
  under an odd number of negations.
\<close>

primrec term_count :: "LogicalPlan \<Rightarrow> bool \<Rightarrow> nat" where
  "term_count NullPlan n = 1"
| "term_count (Node t a b) n =
     (if t = LP_BOOLEAN_NOT then
        (case lp_type a of None \<Rightarrow> 1 | Some ta \<Rightarrow> if not_recursed ta then 1 else term_count a (\<not> n))
      else if t = (if n then LP_BOOLEAN_AND else LP_BOOLEAN_OR) then term_count a n + term_count b n
      else if t = (if n then LP_BOOLEAN_OR else LP_BOOLEAN_AND) then term_count a n * term_count b n
      else 1)"
| "term_count (ColumnAliasNode c) n = 1"
| "term_count (ColumnListAliasNode c) n = 1"
| "term_count (ValueNode v) n = 1"
| "term_count (TableNode v) n = 1"
| "term_count (KeyNode v) n = 1"
| "term_count (KeywordsNode v) n = 1"
| "term_count (PieceNode v) n = 1"

lemma term_count_pos: "0 < term_count p n"
  by (induction p arbitrary: n) (auto split: option.splits)

lemma term_count_inverse:
  "inverse_comparison t = Some t' \<Longrightarrow> term_count (Node t' a b) False = 1 \<and> term_count (Node t a b) True = 1"
  by (auto dest: inverse_comparison_eval)

lemma apply_not_term_count:
  "lp_apply_not p n = Some q \<Longrightarrow> term_count q False = term_count p (n mod 2 = 1)"
proof (induction p arbitrary: n q)
  case (Node t a b)
  have parity: "((n + 1) mod 2 = 1) = (\<not> n mod 2 = 1)" by presburger
  consider (neg) "t = LP_BOOLEAN_NOT" | (junct) "t = LP_BOOLEAN_OR \<or> t = LP_BOOLEAN_AND"
    | (other) "t \<noteq> LP_BOOLEAN_NOT" "t \<noteq> LP_BOOLEAN_OR" "t \<noteq> LP_BOOLEAN_AND" by blast
  then show ?case
  proof cases
    case neg
    then show ?thesis using Node.prems Node.IH(1) [of "n + 1"] parity
      by (auto split: option.splits if_splits)
  next
    case junct
    then show ?thesis using Node.prems Node.IH(1) [of n] Node.IH(2) [of n]
      by (auto simp: bind_eq_Some_conv split: if_splits)
  next
    case other
    then show ?thesis using Node.prems by (auto dest: term_count_inverse split: if_splits)
  qed
qed (auto split: if_splits)

lemma term_count_or_terms:
  "or_full p \<Longrightarrow> term_count p False = sum_list (map (\<lambda>x. term_count x False) (or_terms p))"
  by (induction p rule: or_terms.induct) auto

lemma term_count_or_chain:
  "xs \<noteq> [] \<Longrightarrow> term_count (or_chain xs) False = sum_list (map (\<lambda>x. term_count x False) xs)"
  by (induction xs rule: or_chain.induct) auto

lemma sum_list_products:
  "sum_list (map g (concat (map (\<lambda>x. map (h x) ys) xs))) = sum_list (map f xs) * sum_list (map f ys)"
  if "\<And>x y. g (h x y) = f x * f y" for f :: "'a \<Rightarrow> nat"
  by (induction xs) (auto simp: that comp_def sum_list_const_mult algebra_simps)

section \<open>The normal form\<close>

text \<open>What \<open>distribute\<close> makes of two operands in normal form.\<close>

lemma distribute_correct:
  assumes l: "invertible l False" and r: "invertible r False"
  shows "\<exists>q. distribute l r = Some q \<and> invertible q False
    \<and> (\<forall>atom. lp_eval atom q = (lp_eval atom l \<and> lp_eval atom r))
    \<and> term_count q False = term_count l False * term_count r False"
proof -
  let ?ts = "concat (map (\<lambda>x. map (Node LP_BOOLEAN_AND x) (or_terms r)) (or_terms l))"
  have full: "or_full l" "or_full r" using l r by (simp_all add: invertible_or_full)
  have ne: "?ts \<noteq> []" using or_terms_nonempty [of l] or_terms_nonempty [of r] by (auto simp: neq_Nil_conv)
  have "invertible (or_chain ?ts) False"
    using ne l r by (intro invertible_or_chain) (auto dest: invertible_or_terms)
  moreover have "lp_eval atom (or_chain ?ts) = (lp_eval atom l \<and> lp_eval atom r)" for atom
    using lp_eval_or_terms [OF full(1)] lp_eval_or_terms [OF full(2)]
    by (simp add: lp_eval_or_chain [OF ne])
  moreover have "term_count (or_chain ?ts) False = term_count l False * term_count r False"
    using term_count_or_terms [OF full(1)] term_count_or_terms [OF full(2)]
      sum_list_products [of "\<lambda>x. term_count x False" "Node LP_BOOLEAN_AND" "\<lambda>x. term_count x False"]
    by (simp add: term_count_or_chain [OF ne])
  ultimately show ?thesis using distribute_chain [OF full] by blast
qed

lemma normal_form_correct:
  assumes "invertible p False"
  shows "\<exists>q. lp_make_normal_disjunctive_form p = Some q \<and> invertible q False
    \<and> (\<forall>atom. lp_eval atom q = lp_eval atom p) \<and> term_count q False = term_count p False"
  using assms
proof (induction p rule: lp_make_normal_disjunctive_form.induct)
  case (1 p)
  have nn: "p \<noteq> NullPlan" using "1.prems" by auto
  obtain r where r: "lp_apply_not p 0 = Some r" "invertible r False" "\<And>atom. lp_eval atom r = lp_eval atom p"
      "term_count r False = term_count p False"
    using apply_not_correct [of p 0] apply_not_term_count [of p 0] "1.prems" by auto
  show ?case
  proof (cases "\<exists>t a b. r = Node t a b \<and> (t = LP_BOOLEAN_AND \<or> t = LP_BOOLEAN_OR)")
    case False
    then have "lp_make_normal_disjunctive_form p = Some r"
      using nn r(1) by (subst lp_make_normal_disjunctive_form.simps) (auto split: LogicalPlan.splits)
    then show ?thesis using r by auto
  next
    case True
    then obtain t a b where t: "r = Node t a b" "t = LP_BOOLEAN_AND \<or> t = LP_BOOLEAN_OR" by blast
    have ab: "invertible a False" "invertible b False" using r(2) t by auto
    obtain l where l: "lp_make_normal_disjunctive_form a = Some l" "invertible l False"
        "\<And>atom. lp_eval atom l = lp_eval atom a" "term_count l False = term_count a False"
      using "1.IH"(1) [OF nn r(1) t(1)] t(2) ab(1) by auto
    obtain k where k: "lp_make_normal_disjunctive_form b = Some k" "invertible k False"
        "\<And>atom. lp_eval atom k = lp_eval atom b" "term_count k False = term_count b False"
      using "1.IH"(2) [OF nn r(1) t(1) _ l(1)] t(2) ab(2) by auto
    have ndf: "lp_make_normal_disjunctive_form p
        = (if t \<noteq> LP_BOOLEAN_AND then Some (Node t l k) else distribute l k)"
      using nn r(1) t l(1) k(1) by (subst lp_make_normal_disjunctive_form.simps) auto
    show ?thesis
    proof (cases "t = LP_BOOLEAN_AND")
      case True
      then show ?thesis
        using ndf distribute_correct [OF l(2) k(2)] l k t r by auto
    next
      case False
      then have "t = LP_BOOLEAN_OR" using t(2) by blast
      then show ?thesis using ndf l k t(1) r by auto
    qed
  qed
qed

text \<open>
  Terms without \<open>OR\<close>, and expressions in which the left operand of an \<open>OR\<close> has none: their normal form is
  a chain of terms without \<open>OR\<close>.
\<close>

fun or_free :: "LogicalPlan \<Rightarrow> bool" where
  "or_free (Node t a b) =
     (t \<noteq> LP_BOOLEAN_OR \<and> t \<noteq> LP_BOOLEAN_NOT \<and> (t = LP_BOOLEAN_AND \<longrightarrow> or_free a \<and> or_free b))"
| "or_free NullPlan = False"
| "or_free p = True"

fun right_ors :: "LogicalPlan \<Rightarrow> bool" where
  "right_ors (Node t a b) =
     (t \<noteq> LP_BOOLEAN_NOT \<and> (t = LP_BOOLEAN_AND \<longrightarrow> right_ors a \<and> right_ors b)
      \<and> (t = LP_BOOLEAN_OR \<longrightarrow> or_free a \<and> right_ors b))"
| "right_ors NullPlan = False"
| "right_ors p = True"

lemma or_free_right_ors: "or_free p \<Longrightarrow> right_ors p"
  by (induction p) auto

lemma right_ors_invertible: "right_ors p \<Longrightarrow> invertible p False"
  by (induction p) (auto simp: or_free_right_ors)

lemma right_ors_apply_not: "right_ors p \<Longrightarrow> lp_apply_not p 0 = Some p"
  by (cases p) auto

lemma or_terms_or_chain:
  assumes "xs \<noteq> []" "list_all or_free xs"
  shows "or_terms (or_chain xs) = xs"
  using assms
proof (induction xs rule: or_chain.induct)
  case (2 x)
  then show ?case by (cases x) auto
next
  case (3 x y xs)
  have "or_chain (y # xs) \<noteq> NullPlan" using 3(3) by (cases xs) auto
  then show ?case using 3 by simp
qed simp

lemma or_free_or_full: "or_free p \<Longrightarrow> or_full p"
  by (cases p) auto

lemma or_full_or_chain: "xs \<noteq> [] \<Longrightarrow> list_all or_free xs \<Longrightarrow> or_full (or_chain xs)"
  by (induction xs rule: or_chain.induct) (auto simp: or_free_or_full)

lemma or_free_or_terms: "or_free p \<Longrightarrow> or_terms p = [p]"
  by (cases p) auto

lemma normal_form_or_free: "or_free p \<Longrightarrow> lp_make_normal_disjunctive_form p = Some p"
proof (induction p)
  case (Node t a b)
  have ap: "lp_apply_not (Node t a b) 0 = Some (Node t a b)" using Node.prems by (simp add: right_ors_apply_not)
  show ?case
  proof (cases "t = LP_BOOLEAN_AND")
    case True
    then have ab: "or_free a" "or_free b" using Node.prems by auto
    then show ?thesis
      using Node.IH True distribute_chain [of a b]
      by (subst lp_make_normal_disjunctive_form.simps) (simp add: ap or_free_or_full or_free_or_terms)
  next
    case False
    then show ?thesis using Node.prems by (subst lp_make_normal_disjunctive_form.simps) (auto simp: ap)
  qed
qed (auto simp: lp_make_normal_disjunctive_form.simps)

lemma normal_form_terms:
  assumes "right_ors p"
  shows "\<exists>q. lp_make_normal_disjunctive_form p = Some q \<and> or_full q \<and> list_all or_free (or_terms q)"
  using assms
proof (induction p)
  case (Node t a b)
  have ap: "lp_apply_not (Node t a b) 0 = Some (Node t a b)" using Node.prems by (rule right_ors_apply_not)
  consider (other) "t \<noteq> LP_BOOLEAN_AND" "t \<noteq> LP_BOOLEAN_OR" | (conj) "t = LP_BOOLEAN_AND" | (disj) "t = LP_BOOLEAN_OR"
    by blast
  then show ?case
  proof cases
    case other
    then show ?thesis
      using Node.prems by (subst lp_make_normal_disjunctive_form.simps) (auto simp: ap)
  next
    case conj
    obtain l where l: "lp_make_normal_disjunctive_form a = Some l" "or_full l" "list_all or_free (or_terms l)"
      using Node.IH(1) Node.prems conj by auto
    obtain k where k: "lp_make_normal_disjunctive_form b = Some k" "or_full k" "list_all or_free (or_terms k)"
      using Node.IH(2) Node.prems conj by auto
    let ?ts = "concat (map (\<lambda>x. map (Node LP_BOOLEAN_AND x) (or_terms k)) (or_terms l))"
    have q: "lp_make_normal_disjunctive_form (Node t a b) = Some (or_chain ?ts)"
      using conj l k distribute_chain [OF l(2) k(2)]
      by (subst lp_make_normal_disjunctive_form.simps) (simp add: ap)
    have ne: "?ts \<noteq> []" using or_terms_nonempty [of l] or_terms_nonempty [of k] by (auto simp: neq_Nil_conv)
    have ok: "list_all or_free ?ts" using l(3) k(3) by (auto simp: list_all_iff)
    have "or_full (or_chain ?ts)" using ne ok by (rule or_full_or_chain)
    then show ?thesis using q or_terms_or_chain [OF ne ok] ok by auto
  next
    case disj
    obtain k where k: "lp_make_normal_disjunctive_form b = Some k" "or_full k" "list_all or_free (or_terms k)"
      using Node.IH(2) Node.prems disj by auto
    have a: "or_free a" using Node.prems disj by simp
    have "lp_make_normal_disjunctive_form (Node t a b) = Some (Node t a k)"
      using disj k(1) normal_form_or_free [OF a] by (subst lp_make_normal_disjunctive_form.simps) (simp add: ap)
    moreover have "k \<noteq> NullPlan" using k(2) by auto
    ultimately show ?thesis using disj k a by auto
  qed
qed (auto simp: lp_make_normal_disjunctive_form.simps)

section \<open>Properties\<close>

abbreviation literal :: "string \<Rightarrow> LogicalPlan" where
  "literal s \<equiv> ValueNode \<lparr>sv_type = STRING_LITERAL, sv_text = s\<rparr>"

text \<open>C10.
  The conversion returns for every expression in which odd numbers of negations meet comparisons only; the
  result has the same truth value for all truth values of the atoms, can be converted again, and has the
  number of terms of the full disjunctive normal form.
\<close>

theorem normal_form_equivalent:
  assumes "invertible p False"
  shows "\<exists>q. lp_make_normal_disjunctive_form p = Some q \<and> invertible q False
    \<and> (\<forall>atom. lp_eval atom q = lp_eval atom p) \<and> term_count q False = term_count p False"
  using assms by (rule normal_form_correct)

theorem normal_form_equivalent_witness:
  "let p = Node LP_BOOLEAN_AND
       (Node LP_BOOLEAN_NOT
         (Node LP_BOOLEAN_AND (Node LP_BOOLEAN_LESS_THAN (literal ''a'') (literal ''b''))
           (Node LP_BOOLEAN_NOT (Node LP_BOOLEAN_IN (literal ''c'') (KeyNode 0)) NullPlan)) NullPlan)
       (Node LP_BOOLEAN_OR (Node LP_BOOLEAN_IS (literal ''d'') (literal ''e''))
         (Node LP_BOOLEAN_NOT (literal ''f'') NullPlan))
   in invertible p False \<and>
     (\<exists>q. lp_make_normal_disjunctive_form p = Some q \<and> invertible q False
       \<and> (\<forall>atom. lp_eval atom q = lp_eval atom p) \<and> term_count q False = 4)"
  using normal_form_equivalent [of "Node LP_BOOLEAN_AND
       (Node LP_BOOLEAN_NOT
         (Node LP_BOOLEAN_AND (Node LP_BOOLEAN_LESS_THAN (literal ''a'') (literal ''b''))
           (Node LP_BOOLEAN_NOT (Node LP_BOOLEAN_IN (literal ''c'') (KeyNode 0)) NullPlan)) NullPlan)
       (Node LP_BOOLEAN_OR (Node LP_BOOLEAN_IS (literal ''d'') (literal ''e''))
         (Node LP_BOOLEAN_NOT (literal ''f'') NullPlan))"]
  by (simp add: Let_def not_recursed_def inverse_comparison_def eval_nat_numeral)



text \<open>
  With an \<open>OR\<close> on the left of an \<open>OR\<close> the result is not in normal form: \<open>((a OR b) OR c) AND d\<close> gets a term
  that contains \<open>a OR b\<close>.
\<close>

lemma normal_form_left_or:
  "lp_make_normal_disjunctive_form
     (Node LP_BOOLEAN_AND
       (Node LP_BOOLEAN_OR (Node LP_BOOLEAN_OR (literal ''a'') (literal ''b'')) (literal ''c'')) (literal ''d''))
   = Some (Node LP_BOOLEAN_OR
       (Node LP_BOOLEAN_AND (Node LP_BOOLEAN_OR (literal ''a'') (literal ''b'')) (literal ''d''))
       (Node LP_BOOLEAN_AND (literal ''c'') (literal ''d'')))"
  by (simp add: lp_make_normal_disjunctive_form.simps distribute_def cross_term_def or_head_def is_or_def
      promote_last_def holds_item_def)


end
