(* ===== verification/Logical_Plan.thy ===== *)
theory Logical_Plan
  imports Plan_Types
begin

text \<open>
  The functions of \<open>optimization_transforms/\<close> that read, link, copy and search plans: the \<open>lp_get_*\<close>
  accessors, \<open>lp_insert_key\<close>, \<open>lp_join_plans\<close>, \<open>lp_join_where\<close>, \<open>lp_make_key\<close>, \<open>lp_copy_plan\<close>, \<open>lp_get_key\<close>,
  \<open>lp_get_key_index\<close>, \<open>lp_opt_fix_key_to_const\<close>, \<open>lp_update_plan_keys\<close> and
  \<open>lp_replace_derived_table_references\<close>, with \<open>get_key_columns.c\<close>, \<open>get_keyword_from_keywords.c\<close> and
  \<open>get_column_piece_number.c\<close>. The accessors follow fixed paths through a plan; the locale \<open>plan_part\<close> is
  the contract of such a part, \<open>separate_parts\<close> that of two parts of which one can change without the other.
\<close>

section \<open>Accessors\<close>

definition lp_get_project :: "LogicalPlan \<Rightarrow> LogicalPlan option" where
  "lp_get_project plan = (if lp_type plan = Some LP_INSERT then get_lp plan 0 LP_PROJECT else None)"

definition lp_get_select :: "LogicalPlan \<Rightarrow> LogicalPlan option" where
  "lp_get_select plan = do { p \<leftarrow> get_lp plan 0 LP_PROJECT; get_lp p 1 LP_SELECT }"

definition lp_get_projection_columns :: "LogicalPlan \<Rightarrow> LogicalPlan option" where
  "lp_get_projection_columns plan = do { p \<leftarrow> get_lp plan 0 LP_PROJECT; get_lp p 0 LP_COLUMN_LIST }"

definition lp_get_criteria :: "LogicalPlan \<Rightarrow> LogicalPlan option" where
  "lp_get_criteria plan =
     do { p \<leftarrow> get_lp plan 0 LP_PROJECT; s \<leftarrow> get_lp p 1 LP_SELECT; get_lp s 1 LP_CRITERIA }"

definition lp_get_keys :: "LogicalPlan \<Rightarrow> LogicalPlan option" where
  "lp_get_keys plan =
     do { p \<leftarrow> get_lp plan 0 LP_PROJECT; s \<leftarrow> get_lp p 1 LP_SELECT; c \<leftarrow> get_lp s 1 LP_CRITERIA;
          get_lp c 0 LP_KEYS }"

definition lp_get_table_join :: "LogicalPlan \<Rightarrow> LogicalPlan option" where
  "lp_get_table_join plan = do { s \<leftarrow> lp_get_select plan; get_lp s 0 LP_TABLE_JOIN }"

definition lp_get_select_where :: "LogicalPlan \<Rightarrow> LogicalPlan option" where
  "lp_get_select_where plan =
     do { s \<leftarrow> lp_get_select plan; c \<leftarrow> get_lp s 1 LP_CRITERIA; opts \<leftarrow> get_lp c 1 LP_SELECT_OPTIONS;
          get_lp opts 0 LP_WHERE }"

definition lp_get_select_keywords :: "LogicalPlan \<Rightarrow> LogicalPlan option" where
  "lp_get_select_keywords plan =
     do { s \<leftarrow> lp_get_select plan; c \<leftarrow> get_lp s 1 LP_CRITERIA; opts \<leftarrow> get_lp c 1 LP_SELECT_OPTIONS;
          get_lp opts 1 LP_KEYWORDS }"

text \<open>The recursion of \<open>lp_drill_to_insert\<close> goes to the first plan of each set operation.\<close>

fun lp_drill_to_insert :: "LogicalPlan \<Rightarrow> LogicalPlan option" where
  "lp_drill_to_insert (Node t a (Node t' p q)) =
     (if t = LP_INSERT then Some (Node t a (Node t' p q))
      else if t = LP_SET_OPERATION \<and> t' = LP_PLANS then lp_drill_to_insert p
      else None)"
| "lp_drill_to_insert (Node t a b) = (if t = LP_INSERT then Some (Node t a b) else None)"
| "lp_drill_to_insert p = None"

definition lp_get_output_key :: "LogicalPlan \<Rightarrow> LogicalPlan option" where
  "lp_get_output_key plan =
     do { i \<leftarrow> lp_drill_to_insert plan; t \<leftarrow> get_lp i 1 LP_OUTPUT; get_lp t 0 LP_KEY }"

section \<open>Paths\<close>

text \<open>A path of \<open>GET_LP\<close> steps, and changing the part at its end in place.\<close>

fun get_path :: "(nat \<times> LPActionType) list \<Rightarrow> LogicalPlan \<Rightarrow> LogicalPlan option" where
  "get_path [] p = Some p"
| "get_path ((side, t) # path) p = do { q \<leftarrow> get_lp p side t; get_path path q }"

fun change_path ::
  "(nat \<times> LPActionType) list \<Rightarrow> (LogicalPlan \<Rightarrow> LogicalPlan option) \<Rightarrow> LogicalPlan \<Rightarrow> LogicalPlan option" where
  "change_path [] f p = f p"
| "change_path ((side, t) # path) f p = change_lp p side t (change_path path f)"

abbreviation project_path :: "(nat \<times> LPActionType) list" where
  "project_path \<equiv> [(0, LP_PROJECT)]"

abbreviation criteria_path :: "(nat \<times> LPActionType) list" where
  "criteria_path \<equiv> [(0, LP_PROJECT), (1, LP_SELECT), (1, LP_CRITERIA)]"

abbreviation keys_path :: "(nat \<times> LPActionType) list" where
  "keys_path \<equiv> [(0, LP_PROJECT), (1, LP_SELECT), (1, LP_CRITERIA), (0, LP_KEYS)]"

abbreviation where_path :: "(nat \<times> LPActionType) list" where
  "where_path \<equiv> [(0, LP_PROJECT), (1, LP_SELECT), (1, LP_CRITERIA), (1, LP_SELECT_OPTIONS), (0, LP_WHERE)]"

abbreviation keywords_path :: "(nat \<times> LPActionType) list" where
  "keywords_path \<equiv> [(0, LP_PROJECT), (1, LP_SELECT), (1, LP_CRITERIA), (1, LP_SELECT_OPTIONS), (1, LP_KEYWORDS)]"

abbreviation table_join_path :: "(nat \<times> LPActionType) list" where
  "table_join_path \<equiv> [(0, LP_PROJECT), (1, LP_SELECT), (0, LP_TABLE_JOIN)]"

lemma get_path_fun:
  "get_path [] = Some" "get_path ((side, t) # path) = (\<lambda>p. Option.bind (get_lp p side t) (get_path path))"
  by (simp_all add: fun_eq_iff)

lemma accessor_paths:
  "lp_get_keys = get_path keys_path" "lp_get_select_where = get_path where_path"
  "lp_get_select_keywords = get_path keywords_path" "lp_get_table_join = get_path table_join_path"
  "lp_get_criteria = get_path criteria_path"
  by (simp_all only: fun_eq_iff lp_get_keys_def lp_get_select_where_def lp_get_select_keywords_def
      lp_get_table_join_def lp_get_criteria_def lp_get_select_def get_path_fun bind_assoc bind_runit simp_thms)

lemma change_lp_cases:
  assumes "change_lp p side t f = Some p'"
  obtains (left) s a b a' where "side = 0" "p = Node s a b" "lp_type a = Some t" "f a = Some a'" "p' = Node s a' b"
    | (right) s a b b' where "side = 1" "p = Node s a b" "lp_type b = Some t" "f b = Some b'" "p' = Node s a b'"
proof -
  obtain q q' where q: "get_lp p side t = Some q" "f q = Some q'" "set_operand p side q' = Some p'"
    using assms by (auto simp: change_lp_def bind_eq_Some_conv)
  obtain s a b where p: "p = Node s a b" using q(3) by (cases p) auto
  show thesis
  proof (cases "side = 0")
    case True
    have "q = a" "lp_type a = Some t" "p' = Node s q' b"
      using get_lp_SomeD [OF q(1)] q(3) by (simp_all add: p True)
    then show thesis using left [OF True p] q(2) by simp
  next
    case False
    then have side: "side = 1" using q(3) by (simp add: p split: if_splits)
    have "q = b" "lp_type b = Some t" "p' = Node s a q'"
      using get_lp_SomeD [OF q(1)] q(3) by (simp_all add: p side)
    then show thesis using right [OF side p] q(2) by simp
  qed
qed

lemma change_lp_Node [simp]:
  "lp_type a = Some t \<Longrightarrow> change_lp (Node s a b) 0 t f = map_option (\<lambda>q. Node s q b) (f a)"
  "lp_type b = Some t \<Longrightarrow> change_lp (Node s a b) (Suc 0) t f = map_option (\<lambda>q. Node s a q) (f b)"
  by (cases "f a"; simp add: change_lp_def) (cases "f b"; simp add: change_lp_def)

lemma get_lp_cases:
  assumes "get_lp p side t = Some q"
  obtains (left) s b where "side = 0" "p = Node s q b" "lp_type q = Some t"
    | (right) s a where "side = 1" "p = Node s a q" "lp_type q = Some t"
proof -
  have q: "operand p side = Some q" "lp_type q = Some t" using get_lp_SomeD [OF assms] by simp_all
  obtain s a b where p: "p = Node s a b" using q(1) by (cases p) auto
  show thesis
  proof (cases "side = 0")
    case True
    then show thesis using left q p by simp
  next
    case False
    then have "side = 1" using q(1) by (simp add: p split: if_splits)
    then show thesis using right q p by simp
  qed
qed

lemma change_path_keeps_type:
  assumes "change_path path f p = Some p'" "path \<noteq> []"
  shows "lp_type p' = lp_type p"
proof -
  obtain side t rest where "path = (side, t) # rest" using assms(2) by (cases path) auto
  then have "change_lp p side t (change_path rest f) = Some p'" using assms(1) by simp
  then show ?thesis by (cases rule: change_lp_cases) simp_all
qed

section \<open>Parts of a plan\<close>

locale plan_part =
  fixes part :: "LogicalPlan \<Rightarrow> LogicalPlan option"
    and change :: "(LogicalPlan \<Rightarrow> LogicalPlan option) \<Rightarrow> LogicalPlan \<Rightarrow> LogicalPlan option"
    and kind :: LPActionType
  assumes part_kind: "part p = Some q \<Longrightarrow> lp_type q = Some kind"
    and change_part: "part p = Some q \<Longrightarrow> f q = Some q' \<Longrightarrow> lp_type q' = Some kind \<Longrightarrow>
      \<exists>p'. change f p = Some p' \<and> part p' = Some q'"
    and change_same: "part p = Some q \<Longrightarrow> f q = Some q \<Longrightarrow> change f p = Some p"
    and change_needs: "change f p = Some p' \<Longrightarrow> \<exists>q q'. part p = Some q \<and> f q = Some q'"
    and change_change: "change f p = Some p' \<Longrightarrow> (\<And>q q'. part p = Some q \<Longrightarrow> f q = Some q' \<Longrightarrow> lp_type q' = Some kind) \<Longrightarrow>
      change g p' = change (\<lambda>q. Option.bind (f q) g) p"

locale separate_parts =
  one: plan_part part change kind + two: plan_part part' change' kind'
  for part change kind part' change' kind' +
  assumes change_other: "change f p = Some p' \<Longrightarrow> (\<And>q q'. part p = Some q \<Longrightarrow> f q = Some q' \<Longrightarrow> lp_type q' = Some kind) \<Longrightarrow>
    part' p' = part' p"

context separate_parts
begin

text \<open>A change of the first part gives the new first part and the old second one.\<close>

lemma change_both:
  assumes "part p = Some q" "part' p = Some r" "f q = Some q'" "lp_type q' = Some kind"
  shows "\<exists>p'. change f p = Some p' \<and> part p' = Some q' \<and> part' p' = Some r"
proof -
  obtain p' where p': "change f p = Some p'" "part p' = Some q'"
    using one.change_part [of p q f q'] assms by blast
  moreover have "part' p' = part' p" using p'(1) assms by (intro change_other) auto
  ultimately show ?thesis using assms(2) by auto
qed

end

lemma get_path_kind: "path \<noteq> [] \<Longrightarrow> get_path path p = Some q \<Longrightarrow> lp_type q = Some (snd (last path))"
proof (induction path arbitrary: p)
  case (Cons st path)
  obtain side t where st: "st = (side, t)" by force
  obtain r where r: "get_lp p side t = Some r" "get_path path r = Some q"
    using Cons.prems(2) st by (auto simp: bind_eq_Some_conv)
  show ?case
  proof (cases "path = []")
    case True
    then show ?thesis using r st get_lp_SomeD [OF r(1)] by simp
  next
    case False
    then show ?thesis using Cons.IH [OF False r(2)] by simp
  qed
qed simp

lemma change_path_part:
  assumes "get_path path p = Some q" "f q = Some q'" "lp_type q' = lp_type q"
  shows "\<exists>p'. change_path path f p = Some p' \<and> get_path path p' = Some q' \<and> lp_type p' = lp_type p"
  using assms
proof (induction path p rule: get_path.induct)
  case (2 side t path p)
  obtain r where r: "get_lp p side t = Some r" "get_path path r = Some q"
    using 2(2) by (auto simp: bind_eq_Some_conv)
  obtain r' where r': "change_path path f r = Some r'" "get_path path r' = Some q'" "lp_type r' = lp_type r"
    using "2.IH" [OF r(1) r(2) 2(3) 2(4)] by blast
  from r(1) show ?case by (cases rule: get_lp_cases) (simp_all add: r')
qed simp

lemma change_path_same: "get_path path p = Some q \<Longrightarrow> f q = Some q \<Longrightarrow> change_path path f p = Some p"
proof (induction path p rule: get_path.induct)
  case (2 side t path p)
  obtain r where r: "get_lp p side t = Some r" "get_path path r = Some q"
    using 2(2) by (auto simp: bind_eq_Some_conv)
  have "change_path path f r = Some r" using "2.IH" [OF r(1) r(2) 2(3)] .
  with r(1) show ?case by (cases rule: get_lp_cases) simp_all
qed simp

lemma change_path_needs: "change_path path f p = Some p' \<Longrightarrow> \<exists>q q'. get_path path p = Some q \<and> f q = Some q'"
proof (induction path arbitrary: p p')
  case (Cons st path)
  obtain side t where st: "st = (side, t)" by force
  have "change_lp p side t (change_path path f) = Some p'" using Cons.prems st by simp
  then show ?case
  proof (cases rule: change_lp_cases)
    case (left s a b a')
    then show ?thesis using Cons.IH [OF left(4)] st by simp
  next
    case (right s a b b')
    then show ?thesis using Cons.IH [OF right(4)] st by simp
  qed
qed simp

lemma change_path_result_type:
  assumes "change_path path f p = Some p'"
    "\<And>q q'. get_path path p = Some q \<Longrightarrow> f q = Some q' \<Longrightarrow> lp_type q' = lp_type q"
  shows "lp_type p' = lp_type p"
proof (cases "path = []")
  case True
  then show ?thesis using assms by simp
next
  case False
  then show ?thesis using change_path_keeps_type assms(1) by blast
qed

lemma change_path_change:
  assumes "change_path path f p = Some p'"
    "\<And>q q'. get_path path p = Some q \<Longrightarrow> f q = Some q' \<Longrightarrow> lp_type q' = lp_type q"
  shows "change_path path g p' = change_path path (\<lambda>q. Option.bind (f q) g) p"
  using assms
proof (induction path arbitrary: p p')
  case (Cons st path)
  obtain side t where st: "st = (side, t)" by force
  have "change_lp p side t (change_path path f) = Some p'" using Cons.prems(1) st by simp
  then show ?case
  proof (cases rule: change_lp_cases)
    case (left s a b a')
    have keeps: "get_path path a = Some q \<Longrightarrow> f q = Some q' \<Longrightarrow> lp_type q' = lp_type q" for q q'
      using Cons.prems(2) left st by simp
    have "lp_type a' = Some t" using change_path_result_type [OF left(4) keeps] left(3) by simp
    then show ?thesis using Cons.IH [OF left(4) keeps] left st by simp
  next
    case (right s a b b')
    have keeps: "get_path path b = Some q \<Longrightarrow> f q = Some q' \<Longrightarrow> lp_type q' = lp_type q" for q q'
      using Cons.prems(2) right st by simp
    have "lp_type b' = Some t" using change_path_result_type [OF right(4) keeps] right(3) by simp
    then show ?thesis using Cons.IH [OF right(4) keeps] right st by simp
  qed
qed simp

text \<open>Two paths that part ways lead to parts that do not affect each other.\<close>

lemma change_path_other:
  assumes "change_path (pre @ (side, t) # path) f p = Some p'" "side \<noteq> side'"
    "\<And>q q'. get_path (pre @ (side, t) # path) p = Some q \<Longrightarrow> f q = Some q' \<Longrightarrow> lp_type q' = lp_type q"
  shows "get_path (pre @ (side', t') # path') p' = get_path (pre @ (side', t') # path') p"
  using assms
proof (induction pre arbitrary: p p')
  case Nil
  have "change_lp p side t (change_path path f) = Some p'" using Nil.prems(1) by simp
  then show ?case
    using Nil.prems(2) by (cases rule: change_lp_cases) (auto simp: get_lp_def split: Option.bind_splits)
next
  case (Cons st pre)
  obtain d u where st: "st = (d, u)" by force
  have "change_lp p d u (change_path (pre @ (side, t) # path) f) = Some p'" using Cons.prems(1) st by simp
  then show ?case
  proof (cases rule: change_lp_cases)
    case (left s a b a')
    have keeps: "get_path (pre @ (side, t) # path) a = Some q \<Longrightarrow> f q = Some q' \<Longrightarrow> lp_type q' = lp_type q" for q q'
      using Cons.prems(3) left st by simp
    have "lp_type a' = Some u" using change_path_result_type [OF left(4) keeps] left(3) by simp
    then show ?thesis using Cons.IH [OF left(4) Cons.prems(2) keeps] left st by simp
  next
    case (right s a b b')
    have keeps: "get_path (pre @ (side, t) # path) b = Some q \<Longrightarrow> f q = Some q' \<Longrightarrow> lp_type q' = lp_type q" for q q'
      using Cons.prems(3) right st by simp
    have "lp_type b' = Some u" using change_path_result_type [OF right(4) keeps] right(3) by simp
    then show ?thesis using Cons.IH [OF right(4) Cons.prems(2) keeps] right st by simp
  qed
qed

lemma plan_part_path:
  assumes "path \<noteq> []"
  shows "plan_part (get_path path) (change_path path) (snd (last path))"
proof (unfold_locales, goal_cases)
  case (1 p q)
  then show ?case using get_path_kind [OF assms] by blast
next
  case (2 p q f q')
  then show ?case using change_path_part [of path p q f q'] get_path_kind [OF assms 2(1)] by auto
next
  case (3 p q f)
  then show ?case by (rule change_path_same)
next
  case (4 f p p')
  then show ?case by (rule change_path_needs)
next
  case (5 f p p' g)
  then show ?case using get_path_kind [OF assms] by (intro change_path_change) auto
qed

interpretation keys_part: plan_part lp_get_keys "change_path keys_path" LP_KEYS
  unfolding accessor_paths using plan_part_path [of keys_path] by simp

interpretation where_part: plan_part lp_get_select_where "change_path where_path" LP_WHERE
  unfolding accessor_paths using plan_part_path [of where_path] by simp

interpretation keywords_part: plan_part lp_get_select_keywords "change_path keywords_path" LP_KEYWORDS
  unfolding accessor_paths using plan_part_path [of keywords_path] by simp

interpretation table_join_part: plan_part lp_get_table_join "change_path table_join_path" LP_TABLE_JOIN
  unfolding accessor_paths using plan_part_path [of table_join_path] by simp

lemma separate_parts_path:
  assumes "path = pre @ (side, t) # rest" "path' = pre @ (side', t') # rest'" "side \<noteq> side'"
  shows "separate_parts (get_path path) (change_path path) (snd (last path))
    (get_path path') (change_path path') (snd (last path'))"
proof -
  have ne: "path \<noteq> []" "path' \<noteq> []" using assms by auto
  have "separate_parts_axioms (get_path path) (change_path path) (snd (last path)) (get_path path')"
  proof (intro separate_parts_axioms.intro)
    fix f p p'
    assume c: "change_path path f p = Some p'"
      and k: "\<And>q q'. get_path path p = Some q \<Longrightarrow> f q = Some q' \<Longrightarrow> lp_type q' = Some (snd (last path))"
    show "get_path path' p' = get_path path' p"
      unfolding assms(2)
    proof (rule change_path_other [where side = side and t = t and path = rest and f = f])
      show "change_path (pre @ (side, t) # rest) f p = Some p'" using c assms(1) by simp
      show "side \<noteq> side'" by (rule assms(3))
      fix q q'
      assume "get_path (pre @ (side, t) # rest) p = Some q" "f q = Some q'"
      then show "lp_type q' = lp_type q" using k get_path_kind [OF ne(1)] assms(1) by simp
    qed
  qed
  then show ?thesis
    using plan_part_path ne by (intro separate_parts.intro) auto
qed

interpretation keys_where: separate_parts lp_get_keys "change_path keys_path" LP_KEYS
    lp_get_select_where "change_path where_path" LP_WHERE
  unfolding accessor_paths
  using separate_parts_path [of keys_path criteria_path 0 LP_KEYS "[]" where_path 1 LP_SELECT_OPTIONS "[(0, LP_WHERE)]"]
  by simp

interpretation where_keys: separate_parts lp_get_select_where "change_path where_path" LP_WHERE
    lp_get_keys "change_path keys_path" LP_KEYS
  unfolding accessor_paths
  using separate_parts_path [of where_path criteria_path 1 LP_SELECT_OPTIONS "[(0, LP_WHERE)]" keys_path 0 LP_KEYS "[]"]
  by simp

interpretation keywords_where: separate_parts lp_get_select_keywords "change_path keywords_path" LP_KEYWORDS
    lp_get_select_where "change_path where_path" LP_WHERE
  unfolding accessor_paths
  using separate_parts_path [of keywords_path "criteria_path @ [(1, LP_SELECT_OPTIONS)]" 1 LP_KEYWORDS "[]"
      where_path 0 LP_WHERE "[]"]
  by simp

interpretation where_keywords: separate_parts lp_get_select_where "change_path where_path" LP_WHERE
    lp_get_select_keywords "change_path keywords_path" LP_KEYWORDS
  unfolding accessor_paths
  using separate_parts_path [of where_path "criteria_path @ [(1, LP_SELECT_OPTIONS)]" 0 LP_WHERE "[]"
      keywords_path 1 LP_KEYWORDS "[]"]
  by simp

section \<open>Keys of a plan\<close>

text \<open>
  \<open>lp_insert_key\<close>: an empty list takes the key itself; otherwise the loop goes to the last node and links
  a new one.
\<close>

primrec append_key :: "LogicalPlan \<Rightarrow> LogicalPlan \<Rightarrow> LogicalPlan option" where
  "append_key NullPlan key = None"
| "append_key (Node t a b) key =
     (if b = NullPlan then Some (Node t a (Node LP_KEYS key NullPlan))
      else map_option (Node t a) (append_key b key))"
| "append_key (ColumnAliasNode c) key = None"
| "append_key (ColumnListAliasNode c) key = None"
| "append_key (ValueNode v) key = None"
| "append_key (TableNode v) key = None"
| "append_key (KeyNode v) key = None"
| "append_key (KeywordsNode v) key = None"
| "append_key (PieceNode v) key = None"

definition insert_into_keys :: "LogicalPlan \<Rightarrow> LogicalPlan \<Rightarrow> LogicalPlan option" where
  "insert_into_keys key keys =
     do { a \<leftarrow> operand keys 0; if a \<noteq> NullPlan then append_key keys key else set_operand keys 0 key }"

definition lp_insert_key :: "LogicalPlan \<Rightarrow> LogicalPlan \<Rightarrow> LogicalPlan option" where
  "lp_insert_key plan key = change_path keys_path (insert_into_keys key) plan"

text \<open>The keys in a list of \<open>LP_KEYS\<close> nodes, as the search loops read it.\<close>

fun key_nodes :: "LogicalPlan \<Rightarrow> LogicalPlan list option" where
  "key_nodes (Node t a b) =
     (if t \<noteq> LP_KEYS \<or> a = NullPlan then None
      else if b = NullPlan then Some [a]
      else map_option (Cons a) (key_nodes b))"
| "key_nodes p = None"

definition keys_list :: "LogicalPlan \<Rightarrow> LogicalPlan list option" where
  "keys_list p = (if p = new_node LP_KEYS then Some [] else key_nodes p)"

lemma append_key_nodes:
  assumes "key_nodes keys = Some ks" "key \<noteq> NullPlan"
  shows "\<exists>keys'. append_key keys key = Some keys' \<and> key_nodes keys' = Some (ks @ [key]) \<and> lp_type keys' = Some LP_KEYS"
  using assms
proof (induction keys arbitrary: ks)
  case (Node t a b)
  show ?case
  proof (cases "b = NullPlan")
    case True
    then show ?thesis using Node.prems by (auto split: if_splits)
  next
    case False
    then obtain bs where bs: "key_nodes b = Some bs" "ks = a # bs" "t = LP_KEYS" "a \<noteq> NullPlan"
      using Node.prems by (auto split: if_splits)
    from Node.IH(2) [OF bs(1) Node.prems(2)] show ?thesis using bs False by fastforce
  qed
qed auto

lemma key_nodes_first: "key_nodes keys = Some ks \<Longrightarrow> \<exists>a. operand keys 0 = Some a \<and> a \<noteq> NullPlan"
  by (cases keys) (auto split: if_splits)

lemma insert_into_keys_list:
  assumes "keys_list keys = Some ks" "key \<noteq> NullPlan"
  shows "\<exists>keys'. insert_into_keys key keys = Some keys' \<and> keys_list keys' = Some (ks @ [key]) \<and> lp_type keys' = Some LP_KEYS"
proof (cases "keys = new_node LP_KEYS")
  case True
  then show ?thesis using assms by (simp add: insert_into_keys_def keys_list_def)
next
  case False
  then have ks: "key_nodes keys = Some ks" using assms(1) by (simp add: keys_list_def)
  obtain keys' where k: "append_key keys key = Some keys'" "key_nodes keys' = Some (ks @ [key])"
      "lp_type keys' = Some LP_KEYS"
    using append_key_nodes [OF ks assms(2)] by blast
  have "keys' \<noteq> new_node LP_KEYS" using k(2) by auto
  then have "keys_list keys' = Some (ks @ [key])" using k(2) by (simp add: keys_list_def)
  moreover obtain a where "operand keys 0 = Some a" "a \<noteq> NullPlan" using key_nodes_first [OF ks] by blast
  then have "insert_into_keys key keys = append_key keys key" by (simp add: insert_into_keys_def)
  ultimately show ?thesis using k by simp
qed

text \<open>Inserting a key appends it to the list of keys and leaves the condition alone.\<close>

lemma lp_insert_key_list:
  assumes "lp_get_keys plan = Some keys" "keys_list keys = Some ks" "key \<noteq> NullPlan"
  shows "\<exists>plan' keys'. lp_insert_key plan key = Some plan' \<and> lp_get_keys plan' = Some keys'
    \<and> keys_list keys' = Some (ks @ [key]) \<and> lp_get_select_where plan' = lp_get_select_where plan"
proof -
  obtain keys' where k: "insert_into_keys key keys = Some keys'" "keys_list keys' = Some (ks @ [key])"
      "lp_type keys' = Some LP_KEYS"
    using insert_into_keys_list [OF assms(2,3)] by blast
  obtain plan' where p: "lp_insert_key plan key = Some plan'" "lp_get_keys plan' = Some keys'"
    using keys_part.change_part [of plan keys "insert_into_keys key" keys'] assms(1) k by (auto simp: lp_insert_key_def)
  moreover have "lp_get_select_where plan' = lp_get_select_where plan"
  proof (rule keys_where.change_other)
    show "change_path keys_path (insert_into_keys key) plan = Some plan'" using p(1) by (simp only: lp_insert_key_def)
  qed (use assms(1) k in simp)
  ultimately show ?thesis using k(2) by blast
qed

section \<open>Linking plans\<close>

definition lp_join_plans :: "LogicalPlan \<Rightarrow> LogicalPlan \<Rightarrow> LPActionType \<Rightarrow> LogicalPlan" where
  "lp_join_plans a b type =
     (if a = NullPlan then b
      else if b = NullPlan then a
      else Node LP_SET_OPERATION (Node LP_SET_OPTION (new_node type) NullPlan) (Node LP_PLANS a b))"

text \<open>
  \<open>lp_join_where\<close> reads the first operand of both conditions before it checks their types, and puts the
  conjunction into the first one.
\<close>

definition lp_join_where :: "LogicalPlan \<Rightarrow> LogicalPlan \<Rightarrow> LogicalPlan option" where
  "lp_join_where where1 where2 =
     (if where1 = NullPlan then Some where2
      else if where2 = NullPlan then Some where1
      else do {
        a \<leftarrow> operand where1 0;
        if a = NullPlan then Some where2
        else do {
          b \<leftarrow> operand where2 0;
          if b = NullPlan then Some where1
          else if lp_type where1 = Some LP_WHERE \<and> lp_type where2 = Some LP_WHERE
          then set_operand where1 0 (Node LP_BOOLEAN_AND a b)
          else None } })"

definition lp_make_key :: "SqlColumnAlias \<Rightarrow> plan_state \<Rightarrow> (LogicalPlan \<times> nat \<times> plan_state) option" where
  "lp_make_key column_alias st =
     (case (ca_column column_alias, ta_table (ca_table_alias column_alias)) of
        (Column_of column, Table_of table) \<Rightarrow>
          let (r, st') = new_key (cleared_key\<lparr>key_column := Some column, key_num := -1,
                key_unique_id := ta_unique_id (ca_table_alias column_alias), key_table := Some table,
                key_type := LP_KEY_ADVANCE\<rparr>) st
          in Some (KeyNode r, r, st')
      | _ \<Rightarrow> None)"

section \<open>Copies\<close>

text \<open>
  \<open>lp_copy_plan\<close> gives every key node a key of its own, with the contents of the old one. The copies of
  values, column aliases and keywords that \<open>copy_sql_statement\<close> makes are equal to their originals.
\<close>

definition lp_copy_key :: "nat \<Rightarrow> plan_state \<Rightarrow> (nat \<times> plan_state) option" where
  "lp_copy_key r st = map_option (\<lambda>k. new_key k st) (lookup_key st r)"

primrec lp_copy_plan :: "LogicalPlan \<Rightarrow> plan_state \<Rightarrow> (LogicalPlan \<times> plan_state) option" where
  "lp_copy_plan NullPlan st = Some (NullPlan, st)"
| "lp_copy_plan (Node t a b) st =
     do { (a', st1) \<leftarrow> lp_copy_plan a st; (b', st2) \<leftarrow> lp_copy_plan b st1; Some (Node t a' b', st2) }"
| "lp_copy_plan (ColumnAliasNode c) st = Some (ColumnAliasNode c, st)"
| "lp_copy_plan (ColumnListAliasNode c) st = Some (ColumnListAliasNode c, st)"
| "lp_copy_plan (ValueNode v) st = Some (ValueNode v, st)"
| "lp_copy_plan (TableNode v) st = Some (TableNode v, st)"
| "lp_copy_plan (KeyNode r) st = do { (r', st') \<leftarrow> lp_copy_key r st; Some (KeyNode r', st') }"
| "lp_copy_plan (KeywordsNode v) st = Some (KeywordsNode v, st)"
| "lp_copy_plan (PieceNode v) st = Some (PieceNode v, st)"

text \<open>The keys a plan points to, and the plan with its keys renamed.\<close>

primrec plan_keys :: "LogicalPlan \<Rightarrow> nat set" where
  "plan_keys NullPlan = {}"
| "plan_keys (Node t a b) = plan_keys a \<union> plan_keys b"
| "plan_keys (ColumnAliasNode c) = {}"
| "plan_keys (ColumnListAliasNode c) = {}"
| "plan_keys (ValueNode v) = {}"
| "plan_keys (TableNode v) = {}"
| "plan_keys (KeyNode r) = {r}"
| "plan_keys (KeywordsNode v) = {}"
| "plan_keys (PieceNode v) = {}"

fun same_plan :: "plan_state \<Rightarrow> LogicalPlan \<Rightarrow> plan_state \<Rightarrow> LogicalPlan \<Rightarrow> bool" where
  "same_plan st (Node t a b) st' (Node t' a' b') \<longleftrightarrow> t = t' \<and> same_plan st a st' a' \<and> same_plan st b st' b'"
| "same_plan st (KeyNode r) st' (KeyNode r') \<longleftrightarrow> (\<exists>k. lookup_key st r = Some k \<and> lookup_key st' r' = Some k)"
| "same_plan st p st' q \<longleftrightarrow> p = q"

definition extends :: "plan_state \<Rightarrow> plan_state \<Rightarrow> bool" where
  "extends st st' \<longleftrightarrow> counter st' = counter st \<and> overrun st' = overrun st \<and> (\<exists>ks. key_store st' = key_store st @ ks)"

lemma extends_refl [simp]: "extends st st"
  by (simp add: extends_def)

lemma extends_trans: "extends st st' \<Longrightarrow> extends st' st'' \<Longrightarrow> extends st st''"
  by (auto simp: extends_def)

lemma extends_lookup: "extends st st' \<Longrightarrow> lookup_key st r = Some k \<Longrightarrow> lookup_key st' r = Some k"
  by (auto simp: extends_def lookup_key_def nth_append split: if_splits)

lemma extends_length: "extends st st' \<Longrightarrow> length (key_store st) \<le> length (key_store st')"
  by (auto simp: extends_def)

lemma lookup_Some_length: "lookup_key st r = Some k \<Longrightarrow> r < length (key_store st)"
  by (simp add: lookup_key_def split: if_splits)

lemma extends_new_key: "extends st (snd (new_key k st))"
  by (simp add: extends_def new_key_def)

lemma same_plan_extends:
  "same_plan st p st' q \<Longrightarrow> extends st' st'' \<Longrightarrow> same_plan st p st'' q"
  by (induction st p st' q rule: same_plan.induct) (auto dest: extends_lookup)

lemma same_plan_before:
  assumes "same_plan st1 p st2 q" "extends st st1" "plan_keys p \<subseteq> {..<length (key_store st)}"
  shows "same_plan st p st2 q"
  using assms
  by (induction st1 p st2 q rule: same_plan.induct)
    (auto simp: extends_def lookup_key_def nth_append split: if_splits)

lemma lp_copy_plan_correct:
  assumes "plan_keys p \<subseteq> {..<length (key_store st)}"
  shows "\<exists>q st'. lp_copy_plan p st = Some (q, st') \<and> extends st st' \<and> same_plan st p st' q
    \<and> plan_keys q \<subseteq> {length (key_store st)..<length (key_store st')} \<and> lp_type q = lp_type p"
  using assms
proof (induction p arbitrary: st)
  case (Node t a b)
  obtain a' st1 where a: "lp_copy_plan a st = Some (a', st1)" "extends st st1" "same_plan st a st1 a'"
      "plan_keys a' \<subseteq> {length (key_store st)..<length (key_store st1)}"
    using Node.IH(1) [of st] Node.prems by auto
  have b1: "plan_keys b \<subseteq> {..<length (key_store st1)}"
    using Node.prems extends_length [OF a(2)] by auto
  obtain b' st2 where b: "lp_copy_plan b st1 = Some (b', st2)" "extends st1 st2" "same_plan st1 b st2 b'"
      "plan_keys b' \<subseteq> {length (key_store st1)..<length (key_store st2)}"
    using Node.IH(2) [OF b1] by auto
  have "same_plan st a st2 a'" using same_plan_extends [OF a(3) b(2)] .
  moreover have "same_plan st b st2 b'" using same_plan_before [OF b(3) a(2)] Node.prems by auto
  ultimately show ?case
    using a(1,4) b(1,4) extends_trans [OF a(2) b(2)] extends_length [OF a(2)] extends_length [OF b(2)]
    by fastforce
next
  case (KeyNode r)
  then obtain k where k: "lookup_key st r = Some k" by (auto simp: lookup_key_def)
  have n: "fst (new_key k st) = length (key_store st)" by (simp add: new_key_def)
  have "lp_copy_plan (KeyNode r) st = Some (KeyNode (fst (new_key k st)), snd (new_key k st))"
    using k by (simp add: lp_copy_key_def split_beta)
  then show ?case
    using k n extends_new_key [of st k] by (auto simp: new_key_def lookup_key_def nth_append split: if_splits)
qed auto

end
