(* ===== verification/Plan_Keys.thy ===== *)
theory Plan_Keys
  imports Logical_Plan
begin

text \<open>
  The key columns of a table (\<open>get_key_columns.c\<close>, \<open>get_keyword*.c\<close>), the search for the key of a column
  (\<open>lp_get_key.c\<close>, \<open>lp_get_key_index.c\<close>), fixing a key to a value (\<open>lp_opt_fix_key_to_const.c\<close>), giving the
  plans of a set operation one output key (\<open>lp_update_plan_keys\<close>) and the replacement of references to
  derived tables (\<open>lp_replace_derived_table_references.c\<close>, \<open>get_column_piece_number.c\<close>).
\<close>

section \<open>Key columns of a table\<close>

definition get_keyword_from_keywords ::
  "(OptionalKeyword \<times> string) list \<Rightarrow> OptionalKeyword \<Rightarrow> (OptionalKeyword \<times> string) option" where
  "get_keyword_from_keywords ks keyword = List.find (\<lambda>k. fst k = keyword) ks"

definition get_keyword :: "SqlColumn \<Rightarrow> OptionalKeyword \<Rightarrow> (OptionalKeyword \<times> string) option" where
  "get_keyword column keyword = get_keyword_from_keywords (sc_keywords column) keyword"

text \<open>
  The loop of \<open>get_key_columns\<close> over the columns, with the array \<open>key_columns\<close> of \<open>MAX_KEY_COUNT\<close> pointers
  and \<open>max_key\<close>. A second column for a key ends the loop with the result 1; an index outside the array is
  undefined.
\<close>

fun key_columns_loop ::
  "SqlColumn list \<Rightarrow> int \<Rightarrow> SqlColumn option list \<Rightarrow> (int \<times> SqlColumn option list) option" where
  "key_columns_loop [] max_key key_columns = Some (max_key, key_columns)"
| "key_columns_loop (column # columns) max_key key_columns =
     (let primary = get_keyword column PRIMARY_KEY;
          key_num = get_keyword column OPTIONAL_KEY_NUM in
      if key_columns = [] then None
      else if primary \<noteq> None \<and> key_columns ! 0 \<noteq> None then Some (1, key_columns)
      else
        let key_columns1 = (if primary \<noteq> None then key_columns[0 := Some column] else key_columns);
            max_key1 = (if primary \<noteq> None then 0 else max_key) in
        case key_num of
          None \<Rightarrow>
            if max_key1 < int (length key_columns) then key_columns_loop columns max_key1 key_columns1 else None
        | Some (k, v) \<Rightarrow>
            let n = atoi v in
            if n < 0 \<or> int (length key_columns) \<le> n then None
            else if key_columns1 ! nat n \<noteq> None then Some (1, key_columns1)
            else
              let max_key2 = (if n > max_key1 then n else max_key1) in
              if max_key2 < int (length key_columns)
              then key_columns_loop columns max_key2 (key_columns1[nat n := Some column])
              else None)"

definition get_key_columns :: "nat \<Rightarrow> SqlTable \<Rightarrow> (int \<times> SqlColumn option list) option" where
  "get_key_columns max_key_count table =
     key_columns_loop (st_columns table) (-1) (replicate max_key_count None)"

section \<open>Searching the keys\<close>

text \<open>The name of a column reference that the searches compare.\<close>

definition search_column_name :: "SqlColumnAlias \<Rightarrow> string" where
  "search_column_name ca = (case ca_column ca of Column_of c \<Rightarrow> columnName c | List_entry nm v \<Rightarrow> nm)"

text \<open>
  The test of one key: the body of the inner \<open>do ... while(TRUE)\<close>, with \<open>None\<close> for a missing column. Keys
  without a table are handled by the callers, in two ways.
\<close>

definition key_matches :: "int \<Rightarrow> string \<Rightarrow> string \<Rightarrow> SqlTable \<Rightarrow> SqlKey \<Rightarrow> bool option" where
  "key_matches search_id table_name column_name table k =
     (if key_unique_id k \<noteq> search_id then Some False
      else if table_name \<noteq> tableName table then Some False
      else map_option (\<lambda>c. column_name = columnName c) (key_column k))"

primrec get_key_loop ::
  "plan_state \<Rightarrow> int \<Rightarrow> string \<Rightarrow> string \<Rightarrow> LogicalPlan \<Rightarrow> nat option option" where
  "get_key_loop st i t c NullPlan = None"
| "get_key_loop st i t c (Node ty a b) =
     (case a of
        KeyNode r \<Rightarrow>
          (case lookup_key st r of
             None \<Rightarrow> None
           | Some k \<Rightarrow>
               let continue = (if b = NullPlan then Some None else get_key_loop st i t c b) in
               if key_unique_id k \<noteq> i then continue
               else
                 (case key_table k of
                    None \<Rightarrow> if key_column k = None then continue else None
                  | Some table \<Rightarrow>
                      (case key_matches i t c table k of
                         None \<Rightarrow> None
                       | Some True \<Rightarrow> Some (Some r)
                       | Some False \<Rightarrow> continue)))
      | _ \<Rightarrow> None)"
| "get_key_loop st i t c (ColumnAliasNode v) = None"
| "get_key_loop st i t c (ColumnListAliasNode v) = None"
| "get_key_loop st i t c (ValueNode v) = None"
| "get_key_loop st i t c (TableNode v) = None"
| "get_key_loop st i t c (KeyNode v) = None"
| "get_key_loop st i t c (KeywordsNode v) = None"
| "get_key_loop st i t c (PieceNode v) = None"

definition lp_get_key :: "plan_state \<Rightarrow> LogicalPlan \<Rightarrow> SqlColumnAlias \<Rightarrow> nat option option" where
  "lp_get_key st plan ca =
     (case ta_table (ca_table_alias ca) of
        Select_of \<Rightarrow> None
      | Table_of table \<Rightarrow>
          Option.bind (lp_get_keys plan)
            (get_key_loop st (ta_unique_id (ca_table_alias ca)) (tableName table) (search_column_name ca)))"

primrec key_index_loop ::
  "plan_state \<Rightarrow> int \<Rightarrow> string \<Rightarrow> string \<Rightarrow> LogicalPlan \<Rightarrow> int \<Rightarrow> int option" where
  "key_index_loop st i t c NullPlan n = None"
| "key_index_loop st i t c (Node ty a b) n =
     (case a of
        KeyNode r \<Rightarrow>
          (case lookup_key st r of
             None \<Rightarrow> None
           | Some k \<Rightarrow>
               (case key_table k of
                  None \<Rightarrow> if key_column k = None then Some (-2) else None
                | Some table \<Rightarrow>
                    (case key_matches i t c table k of
                       None \<Rightarrow> None
                     | Some True \<Rightarrow> Some n
                     | Some False \<Rightarrow> if b = NullPlan then Some (-1) else key_index_loop st i t c b (n + 1))))
      | _ \<Rightarrow> None)"
| "key_index_loop st i t c (ColumnAliasNode v) n = None"
| "key_index_loop st i t c (ColumnListAliasNode v) n = None"
| "key_index_loop st i t c (ValueNode v) n = None"
| "key_index_loop st i t c (TableNode v) n = None"
| "key_index_loop st i t c (KeyNode v) n = None"
| "key_index_loop st i t c (KeywordsNode v) n = None"
| "key_index_loop st i t c (PieceNode v) n = None"

definition lp_get_key_index :: "plan_state \<Rightarrow> LogicalPlan \<Rightarrow> SqlColumnAlias \<Rightarrow> int option" where
  "lp_get_key_index st plan ca =
     (let ta = ca_table_alias ca;
          name = (case ta_table ta of Table_of table \<Rightarrow> tableName table | Select_of \<Rightarrow> ta_alias ta)
      in Option.bind (lp_get_keys plan)
           (\<lambda>keys. key_index_loop st (ta_unique_id ta) name (search_column_name ca) keys 0))"

section \<open>Changing keys\<close>

definition lp_opt_fix_key_to_const :: "nat \<Rightarrow> LogicalPlan \<Rightarrow> plan_state \<Rightarrow> (bool \<times> plan_state) option" where
  "lp_opt_fix_key_to_const r value st =
     do {
       k \<leftarrow> lookup_key st r;
       if key_type k = LP_KEY_ADVANCE \<and> cross_reference_output_key k = None then
         do { (v, st') \<leftarrow> lp_copy_plan value st;
              Some (True, update_key r (\<lambda>k. k\<lparr>key_value := v, key_type := LP_KEY_FIX\<rparr>) st') }
       else Some (False, st) }"

text \<open>
  \<open>lp_update_plan_keys\<close>: the output key of every plan of a set operation gets the number and the unique id
  of the given key.
\<close>

fun lp_update_plan_keys :: "LogicalPlan \<Rightarrow> SqlKey \<Rightarrow> plan_state \<Rightarrow> plan_state option" where
  "lp_update_plan_keys (Node t a (Node t' p q)) key st =
     (if t = LP_SET_OPERATION then
        (if t' = LP_PLANS then Option.bind (lp_update_plan_keys p key st) (lp_update_plan_keys q key) else None)
      else if t = LP_INSERT then
        (case lp_get_output_key (Node t a (Node t' p q)) of
           Some (KeyNode r) \<Rightarrow>
             map_option (\<lambda>k. update_key r (\<lambda>k. k\<lparr>key_num := key_num key, key_unique_id := key_unique_id key\<rparr>) st)
               (lookup_key st r)
         | _ \<Rightarrow> None)
      else None)"
| "lp_update_plan_keys p key st = None"

section \<open>Derived tables\<close>

text \<open>
  The position of a column in the select list of a nested query, from 1. The loop ends at the start of the
  list when no name fits; the assertion then fails unless the position is 1.
\<close>

fun piece_loop :: "string \<Rightarrow> string list \<Rightarrow> int \<Rightarrow> (int \<times> bool)" where
  "piece_loop name [] part = (part, False)"
| "piece_loop name (x # xs) part = (if name = x then (part, True) else piece_loop name xs (part + 1))"

definition get_column_piece_number :: "SqlColumnAlias \<Rightarrow> SqlTableAlias \<Rightarrow> int option" where
  "get_column_piece_number alias table_alias =
     (case ta_column_names table_alias of
        [] \<Rightarrow> None
      | names \<Rightarrow>
          let (part, found) = piece_loop (search_column_name alias) names 1;
              at_start = (found \<longrightarrow> part = 1)
          in if part = 1 \<or> \<not> at_start then Some part else None)"

primrec lp_replace_helper :: "LogicalPlan \<Rightarrow> SqlTableAlias \<Rightarrow> nat \<Rightarrow> LogicalPlan option" where
  "lp_replace_helper NullPlan ta key = Some NullPlan"
| "lp_replace_helper (Node t a b) ta key =
     (if t = LP_COLUMN_LIST \<or> t = LP_FUNCTION_CALL then
        do { a' \<leftarrow> lp_replace_helper a ta key; b' \<leftarrow> lp_replace_helper b ta key; Some (Node t a' b') }
      else if t = LP_WHERE then do { a' \<leftarrow> lp_replace_helper a ta key; Some (Node t a' b) }
      else if t = LP_SET_OPERATION then None
      else if t = LP_VALUE \<or> t = LP_DERIVED_COLUMN then Some (Node t a b)
      else if t = LP_COLUMN_ALIAS then None
      else if action_index t > action_index LP_ADDITION then
        do { a' \<leftarrow> lp_replace_helper a ta key; b' \<leftarrow> lp_replace_helper b ta key; Some (Node t a' b') }
      else None)"
| "lp_replace_helper (ColumnAliasNode c) ta key =
     (if ta_unique_id (ca_table_alias c) = ta_unique_id ta then
        map_option (\<lambda>part. Node LP_DERIVED_COLUMN (KeyNode key) (PieceNode part)) (get_column_piece_number c ta)
      else Some (ColumnAliasNode c))"
| "lp_replace_helper (ColumnListAliasNode c) ta key = None"
| "lp_replace_helper (ValueNode v) ta key = Some (ValueNode v)"
| "lp_replace_helper (TableNode v) ta key = None"
| "lp_replace_helper (KeyNode v) ta key = None"
| "lp_replace_helper (KeywordsNode v) ta key = None"
| "lp_replace_helper (PieceNode v) ta key = None"

text \<open>Replacement in the condition, in the projection and in the ordering of a plan.\<close>

definition replace_at :: "(nat \<times> LPActionType) list \<Rightarrow> SqlTableAlias \<Rightarrow> nat \<Rightarrow> LogicalPlan \<Rightarrow> LogicalPlan option" where
  "replace_at path ta key plan =
     change_path path (\<lambda>w. do { a \<leftarrow> operand w 0; a' \<leftarrow> lp_replace_helper a ta key; set_operand w 0 a' }) plan"

definition lp_replace_derived_table_references ::
  "LogicalPlan \<Rightarrow> LogicalPlan \<Rightarrow> SqlTableAlias \<Rightarrow> LogicalPlan option" where
  "lp_replace_derived_table_references root new_plan ta =
     (case lp_get_output_key new_plan of
        Some (KeyNode key) \<Rightarrow>
          do {
            root1 \<leftarrow> replace_at where_path ta key root;
            root2 \<leftarrow> (if lp_type root1 = Some LP_INSERT then replace_at project_path ta key root1 else None);
            out \<leftarrow> operand root2 1;
            t \<leftarrow> operand out 1;
            if t = NullPlan then Some root2
            else do {
              a \<leftarrow> operand t 0;
              a' \<leftarrow> lp_replace_helper a ta key;
              t' \<leftarrow> set_operand t 0 a';
              out' \<leftarrow> set_operand out 1 t';
              set_operand root2 1 out' } }
      | _ \<Rightarrow> None)"

section \<open>The searches agree\<close>

fun key_at :: "LogicalPlan \<Rightarrow> nat \<Rightarrow> nat option" where
  "key_at (Node t (KeyNode r) b) 0 = Some r"
| "key_at (Node t a b) (Suc n) = key_at b n"
| "key_at p n = None"

text \<open>
  Both loops over one list: the index is the position of the key that \<open>lp_get_key\<close> returns, and -1 when it
  returns none.
\<close>

lemma key_loops_agree:
  assumes "key_index_loop st i t c keys n = Some m"
  shows "m = -2 \<or> (m = -1 \<and> get_key_loop st i t c keys = Some None)
    \<or> (\<exists>j r. m = n + int j \<and> key_at keys j = Some r \<and> get_key_loop st i t c keys = Some (Some r))"
  using assms
proof (induction keys arbitrary: n)
  case (Node ty a b)
  obtain r k where r: "a = KeyNode r" "lookup_key st r = Some k"
    using Node.prems by (cases a) (auto split: option.splits)
  show ?case
  proof (cases "key_table k")
    case None
    then show ?thesis using Node.prems r by (simp split: if_splits)
  next
    case (Some table)
    have "key_matches i t c table k \<noteq> None" using Node.prems r Some by (auto split: option.splits)
    then obtain hit where hit: "key_matches i t c table k = Some hit" by blast
    have same_id: "hit \<Longrightarrow> key_unique_id k = i" using hit by (simp add: key_matches_def split: if_splits)
    consider (hit) "hit" | (last) "\<not> hit" "b = NullPlan" | (more) "\<not> hit" "b \<noteq> NullPlan" by blast
    then show ?thesis
    proof cases
      case hit
      then have "m = n + int 0" "key_at (Node ty a b) 0 = Some r" "get_key_loop st i t c (Node ty a b) = Some (Some r)"
        using Node.prems r Some \<open>key_matches i t c table k = Some hit\<close> same_id by (simp_all add: Let_def)
      then show ?thesis by blast
    next
      case last
      then show ?thesis using Node.prems r Some hit by (simp add: Let_def)
    next
      case more
      then have next_step: "key_index_loop st i t c b (n + 1) = Some m"
        "get_key_loop st i t c (Node ty a b) = get_key_loop st i t c b"
        using Node.prems r Some hit by (simp_all add: Let_def)
      from Node.IH(2) [OF next_step(1)] show ?thesis
      proof (elim disjE exE conjE)
        fix j q
        assume j: "m = n + 1 + int j" "key_at b j = Some q" "get_key_loop st i t c b = Some (Some q)"
        then have "m = n + int (Suc j)" "key_at (Node ty a b) (Suc j) = Some q" using r by simp_all
        then show ?thesis using j(3) next_step(2) by metis
      qed (simp_all only: next_step(2) simp_thms)
    qed
  qed
qed simp_all

lemma get_key_loop_sound:
  assumes "get_key_loop st i t c keys = Some (Some r)"
  shows "\<exists>k table column. lookup_key st r = Some k \<and> key_unique_id k = i \<and> key_table k = Some table
    \<and> tableName table = t \<and> key_column k = Some column \<and> columnName column = c \<and> (\<exists>j. key_at keys j = Some r)"
  using assms
proof (induction keys)
  case (Node ty a b)
  obtain q k where q: "a = KeyNode q" "lookup_key st q = Some k"
    using Node.prems by (cases a) (auto split: option.splits)
  show ?case
  proof (cases "\<exists>table. key_table k = Some table \<and> key_matches i t c table k = Some True \<and> key_unique_id k = i")
    case True
    then obtain table where table: "key_table k = Some table" "key_matches i t c table k = Some True" "key_unique_id k = i"
      by blast
    then have "q = r" using Node.prems q by (simp add: Let_def)
    moreover obtain column where "key_column k = Some column" "columnName column = c" "tableName table = t"
      using table(2) by (auto simp: key_matches_def split: if_splits)
    moreover have "key_at (Node ty a b) 0 = Some q" using q by simp
    ultimately show ?thesis using table q by blast
  next
    case False
    then have "get_key_loop st i t c b = Some (Some r)"
      using Node.prems q by (auto simp: Let_def split: option.splits if_splits bool.splits)
    then obtain k table column j where "lookup_key st r = Some k" "key_unique_id k = i" "key_table k = Some table"
        "tableName table = t" "key_column k = Some column" "columnName column = c" "key_at b j = Some r"
      using Node.IH(2) by blast
    moreover from this have "key_at (Node ty a b) (Suc j) = Some r" using q by simp
    ultimately show ?thesis by blast
  qed
qed simp_all

section \<open>Replacement is complete\<close>

text \<open>The tables that the visited part of an expression refers to.\<close>

primrec open_refs :: "LogicalPlan \<Rightarrow> int set" where
  "open_refs NullPlan = {}"
| "open_refs (Node t a b) =
     (if t = LP_VALUE \<or> t = LP_DERIVED_COLUMN then {}
      else if t = LP_WHERE then open_refs a
      else open_refs a \<union> open_refs b)"
| "open_refs (ColumnAliasNode c) = {ta_unique_id (ca_table_alias c)}"
| "open_refs (ColumnListAliasNode c) = {}"
| "open_refs (ValueNode v) = {}"
| "open_refs (TableNode v) = {}"
| "open_refs (KeyNode v) = {}"
| "open_refs (KeywordsNode v) = {}"
| "open_refs (PieceNode v) = {}"

lemma lp_replace_helper_refs:
  assumes "lp_replace_helper p ta key = Some q"
  shows "open_refs q = open_refs p - {ta_unique_id ta}"
  using assms
proof (induction p arbitrary: q)
  case (Node t a b)
  then show ?case by (fastforce simp: bind_eq_Some_conv split: if_splits)
qed (auto split: if_splits)

lemma piece_loop_correct:
  "piece_loop name xs part = (p, found) \<Longrightarrow>
     (found \<longrightarrow> (\<exists>i < length xs. xs ! i = name \<and> p = part + int i \<and> (\<forall>j < i. xs ! j \<noteq> name)))
     \<and> (\<not> found \<longrightarrow> name \<notin> set xs \<and> p = part + int (length xs))"
proof (induction name xs part rule: piece_loop.induct)
  case (2 name x xs part)
  show ?case
  proof (cases "name = x")
    case True
    then show ?thesis using 2(2) by auto
  next
    case False
    then have ih: "(found \<longrightarrow> (\<exists>i < length xs. xs ! i = name \<and> p = part + 1 + int i \<and> (\<forall>j < i. xs ! j \<noteq> name)))
        \<and> (\<not> found \<longrightarrow> name \<notin> set xs \<and> p = part + 1 + int (length xs))"
      using 2 by simp
    show ?thesis
    proof (cases found)
      case True
      then obtain i where "i < length xs" "xs ! i = name" "p = part + 1 + int i" "\<forall>j < i. xs ! j \<noteq> name" using ih by blast
      then show ?thesis using True False
        by (intro conjI impI exI [of _ "Suc i"]) (auto simp: nth_Cons split: nat.splits)
    next
      case f: False
      then show ?thesis using ih False by simp
    qed
  qed
qed simp

lemma get_column_piece_number_correct:
  "get_column_piece_number alias ta = Some part \<longleftrightarrow>
     (\<exists>i < length (ta_column_names ta). ta_column_names ta ! i = search_column_name alias \<and> part = int i + 1
        \<and> (\<forall>j < i. ta_column_names ta ! j \<noteq> search_column_name alias))"
proof -
  obtain p found where loop: "piece_loop (search_column_name alias) (ta_column_names ta) 1 = (p, found)" by force
  note spec = piece_loop_correct [OF loop]
  show ?thesis
  proof (cases found)
    case True
    then obtain i where i: "i < length (ta_column_names ta)" "ta_column_names ta ! i = search_column_name alias"
        "p = 1 + int i" "\<forall>j < i. ta_column_names ta ! j \<noteq> search_column_name alias"
      using spec by blast
    have "get_column_piece_number alias ta = Some p"
      using True i loop by (cases "ta_column_names ta") (auto simp: get_column_piece_number_def Let_def)
    then show ?thesis using i by (auto simp: algebra_simps) (metis linorder_neqE_nat)+
  next
    case False
    then have no: "search_column_name alias \<notin> set (ta_column_names ta)" "p = 1 + int (length (ta_column_names ta))"
      using spec by auto
    have "get_column_piece_number alias ta = None"
      using False no loop by (cases "ta_column_names ta") (auto simp: get_column_piece_number_def Let_def)
    then show ?thesis using no(1) by (auto simp: in_set_conv_nth)
  qed
qed

section \<open>The key columns\<close>

definition is_primary :: "SqlColumn \<Rightarrow> bool" where
  "is_primary c \<longleftrightarrow> get_keyword c PRIMARY_KEY \<noteq> None"

definition key_number :: "SqlColumn \<Rightarrow> int option" where
  "key_number c =
     (if is_primary c then Some 0 else map_option (\<lambda>k. atoi (snd k)) (get_keyword c OPTIONAL_KEY_NUM))"

text \<open>
  Columns whose key numbers are in range and different, in which the primary key comes before the numbered
  keys, and no column has both kinds of keyword.
\<close>

fun well_keyed :: "nat \<Rightarrow> SqlColumn list \<Rightarrow> bool" where
  "well_keyed mx [] = True"
| "well_keyed mx (c # cs) =
     (well_keyed mx cs
      \<and> (is_primary c \<longrightarrow> get_keyword c OPTIONAL_KEY_NUM = None)
      \<and> (case key_number c of
           None \<Rightarrow> True
         | Some n \<Rightarrow> 0 \<le> n \<and> n < int mx \<and> list_all (\<lambda>d. key_number d \<noteq> Some n \<and> \<not> is_primary d) cs))"

definition fill_keys :: "SqlColumn list \<Rightarrow> SqlColumn option list \<Rightarrow> SqlColumn option list" where
  "fill_keys cs arr =
     map (\<lambda>n. case arr ! n of Some c \<Rightarrow> Some c | None \<Rightarrow> List.find (\<lambda>c. key_number c = Some (int n)) cs)
       [0..<length arr]"

definition top_key :: "SqlColumn list \<Rightarrow> int \<Rightarrow> int" where
  "top_key cs m = fold (\<lambda>c m. case key_number c of None \<Rightarrow> m | Some n \<Rightarrow> max m n) cs m"

lemma fill_keys_Cons_none:
  "key_number c = None \<Longrightarrow> fill_keys (c # cs) arr = fill_keys cs arr"
  by (auto simp: fill_keys_def split: option.splits)

lemma fill_keys_Cons_some:
  assumes "key_number c = Some n" "0 \<le> n" "nat n < length arr" "arr ! nat n = None"
  shows "fill_keys (c # cs) arr = fill_keys cs (arr[nat n := Some c])"
proof -
  have "int m = n \<longleftrightarrow> m = nat n" for m using assms(2) by auto
  then show ?thesis using assms
    by (auto simp: fill_keys_def nth_list_update intro!: map_cong split: option.splits)
qed

lemma key_columns_loop_correct:
  assumes "well_keyed (length arr) cs" "0 < length arr" "-1 \<le> mk" "mk < int (length arr)"
    "\<And>c n. c \<in> set cs \<Longrightarrow> key_number c = Some n \<Longrightarrow> arr ! nat n = None"
    "list_ex is_primary cs \<Longrightarrow> mk = -1"
  shows "key_columns_loop cs mk arr = Some (top_key cs mk, fill_keys cs arr)"
  using assms
proof (induction cs arbitrary: mk arr)
  case Nil
  have "fill_keys [] arr = map (\<lambda>n. arr ! n) [0..<length arr]"
    unfolding fill_keys_def by (intro map_cong) (auto split: option.splits)
  then show ?case by (simp add: top_key_def map_nth)
next
  case (Cons c cs)
  have wk: "well_keyed (length arr) cs" using Cons.prems(1) by simp
  show ?case
  proof (cases "key_number c")
    case None
    then have kw: "get_keyword c PRIMARY_KEY = None" "get_keyword c OPTIONAL_KEY_NUM = None" "\<not> is_primary c"
      by (cases "get_keyword c PRIMARY_KEY"; auto simp: key_number_def is_primary_def)+
    have "key_columns_loop cs mk arr = Some (top_key cs mk, fill_keys cs arr)"
      using Cons.prems kw wk by (intro Cons.IH) auto
    then show ?thesis using None kw Cons.prems(2,4) by (simp add: top_key_def fill_keys_Cons_none)
  next
    case (Some n)
    have n: "0 \<le> n" "n < int (length arr)" "list_all (\<lambda>d. key_number d \<noteq> Some n \<and> \<not> is_primary d) cs"
      using Cons.prems(1) Some by auto
    have free: "arr ! nat n = None" using Cons.prems(5) [of c n] Some by simp
    have rest: "key_columns_loop cs (max mk n) (arr[nat n := Some c])
        = Some (top_key cs (max mk n), fill_keys cs (arr[nat n := Some c]))"
    proof (rule Cons.IH)
      fix d q
      assume d: "d \<in> set cs" "key_number d = Some q"
      have "q \<noteq> n" using n(3) d by (auto simp: list_all_iff)
      moreover have "0 \<le> q"
        using wk d by (induction cs) (auto split: option.splits)
      ultimately have "nat q \<noteq> nat n" using n(1) by auto
      then show "arr[nat n := Some c] ! nat q = None" using Cons.prems(5) [of d q] d by simp
    next
      show "list_ex is_primary cs \<Longrightarrow> max mk n = -1" using n(3) by (auto simp: list_all_iff list_ex_iff)
    qed (use wk Cons.prems n in auto)
    have "key_columns_loop (c # cs) mk arr = key_columns_loop cs (max mk n) (arr[nat n := Some c])"
    proof (cases "is_primary c")
      case True
      then have "n = 0" "mk = -1" "get_keyword c OPTIONAL_KEY_NUM = None"
        using Some Cons.prems(1,6) by (auto simp: key_number_def)
      then show ?thesis using True free Cons.prems(2) by (auto simp: is_primary_def)
    next
      case False
      then obtain k v where kv: "get_keyword c OPTIONAL_KEY_NUM = Some (k, v)" "atoi v = n"
        using Some by (auto simp: key_number_def)
      then show ?thesis
        using False free n Cons.prems(2,3,4) by (auto simp: is_primary_def Let_def max_def)
    qed
    then show ?thesis
      using rest Some fill_keys_Cons_some [OF Some n(1) _ free] n
      by (simp add: top_key_def nat_less_iff)
  qed
qed

section \<open>Properties\<close>


abbreviation sample_column :: "string \<Rightarrow> (OptionalKeyword \<times> string) list \<Rightarrow> SqlColumn" where
  "sample_column nm ks \<equiv> \<lparr>columnName = nm, sc_type = INTEGER_TYPE, sc_keywords = ks\<rparr>"

lemmas key_column_eval =
  get_keyword_def get_keyword_from_keywords_def is_primary_def key_number_def atoi_def digits_val_def is_digit_def


text \<open>
  The primary key resets the maximum: with a column of key number 1 before the primary key the result is 0,
  although key 1 is in the array. A second column for a key makes the result 1, as if there were two keys.
\<close>

lemma get_key_columns_resets_maximum:
  "let a = sample_column ''a'' [(PRIMARY_KEY, [])]; b = sample_column ''b'' [(OPTIONAL_KEY_NUM, ''1'')];
       c = sample_column ''c'' [(OPTIONAL_KEY_NUM, ''0'')]
   in get_key_columns 3 \<lparr>tableName = ''t'', st_source = None, st_columns = [b, a], st_delim = None\<rparr> = Some (0, [Some a, Some b, None])
     \<and> get_key_columns 3 \<lparr>tableName = ''t'', st_source = None, st_columns = [a, c], st_delim = None\<rparr> = Some (1, [Some a, None, None])"
  by (simp add: Let_def get_key_columns_def key_column_eval eval_nat_numeral)


abbreviation sample_table :: SqlTable where
  "sample_table \<equiv> \<lparr>tableName = ''t'', st_source = None, st_columns = [sample_column ''a'' [(PRIMARY_KEY, [])]], st_delim = None\<rparr>"

abbreviation sample_alias :: "int \<Rightarrow> SqlTableAlias" where
  "sample_alias i \<equiv> \<lparr>ta_table = Table_of sample_table, ta_alias = ''t'', ta_unique_id = i, ta_column_names = [''a'', ''b'']\<rparr>"

abbreviation sample_plan :: "LogicalPlan \<Rightarrow> LogicalPlan \<Rightarrow> LogicalPlan \<Rightarrow> LogicalPlan" where
  "sample_plan columns keys condition \<equiv>
     Node LP_INSERT
       (Node LP_PROJECT columns
         (Node LP_SELECT (Node LP_TABLE_JOIN (TableNode (sample_alias 1)) NullPlan)
           (Node LP_CRITERIA keys
             (Node LP_SELECT_OPTIONS (Node LP_WHERE condition NullPlan) (KeywordsNode [(NO_KEYWORD, [])])))))
       (Node LP_OUTPUT (KeyNode 0) NullPlan)"


text \<open>Replacement at the end of a path: the part has no reference left, and nothing but its first operand changes.\<close>

lemma replace_at_part:
  assumes "replace_at path ta key plan = Some plan'" "path \<noteq> []"
  shows "\<exists>t a b a'. get_path path plan = Some (Node t a b) \<and> lp_replace_helper a ta key = Some a'
    \<and> get_path path plan' = Some (Node t a' b)"
proof -
  let ?f = "\<lambda>w. do { a \<leftarrow> operand w 0; a' \<leftarrow> lp_replace_helper a ta key; set_operand w 0 a' }"
  have ch: "change_path path ?f plan = Some plan'" using assms(1) by (simp add: replace_at_def)
  obtain w w' where w: "get_path path plan = Some w" "?f w = Some w'" using change_path_needs [OF ch] by blast
  obtain t a b where n: "w = Node t a b" using w(2) by (cases w) auto
  obtain a' where a': "lp_replace_helper a ta key = Some a'" "w' = Node t a' b"
    using w(2) by (auto simp: n bind_eq_Some_conv)
  have "lp_type w' = lp_type w" by (simp add: n a')
  from change_path_part [where f = ?f, OF w this] ch have "get_path path plan' = Some w'" by auto
  then show ?thesis using w n a' by auto
qed

lemma change_path_Nil: "change_path [] f = f"
  by (rule ext) simp

lemma replace_project_keeps_where:
  assumes "replace_at project_path ta key plan = Some plan'"
  shows "lp_get_select_where plan' = lp_get_select_where plan" "operand plan' 1 = operand plan 1"
proof -
  have "change_lp plan 0 LP_PROJECT
      (\<lambda>w. do { a \<leftarrow> operand w 0; a' \<leftarrow> lp_replace_helper a ta key; set_operand w 0 a' }) = Some plan'"
    using assms by (simp add: replace_at_def change_path_Nil)
  then have "lp_get_select_where plan' = lp_get_select_where plan \<and> operand plan' 1 = operand plan 1"
  proof (cases rule: change_lp_cases)
    case (left s a b a')
    obtain t c d c' where "a = Node t c d" "a' = Node t c' d"
      using left(4) by (cases a) (auto simp: bind_eq_Some_conv)
    then show ?thesis
      using left by (simp_all add: lp_get_select_where_def lp_get_select_def)
  qed simp
  then show "lp_get_select_where plan' = lp_get_select_where plan" "operand plan' 1 = operand plan 1" by simp_all
qed

text \<open>The tables that the condition, the select list and the ordering of a plan refer to.\<close>

definition refs_of :: "LogicalPlan option \<Rightarrow> int set" where
  "refs_of p = (case p of None \<Rightarrow> {} | Some q \<Rightarrow> open_refs q)"

definition select_list :: "LogicalPlan \<Rightarrow> LogicalPlan option" where
  "select_list root = do { p \<leftarrow> get_lp root 0 LP_PROJECT; operand p 0 }"

definition order_list :: "LogicalPlan \<Rightarrow> LogicalPlan option" where
  "order_list root = do { out \<leftarrow> operand root 1; t \<leftarrow> operand out 1; operand t 0 }"

definition plan_refs :: "LogicalPlan \<Rightarrow> int set" where
  "plan_refs root = refs_of (lp_get_select_where root) \<union> refs_of (select_list root) \<union> refs_of (order_list root)"

lemma replace_where_keeps:
  assumes "replace_at where_path ta key plan = Some plan'"
  shows "select_list plan' = select_list plan" "operand plan' 1 = operand plan 1"
proof -
  let ?f = "\<lambda>w. do { a \<leftarrow> operand w 0; a' \<leftarrow> lp_replace_helper a ta key; set_operand w 0 a' }"
  have "change_lp plan 0 LP_PROJECT (change_path (tl where_path) ?f) = Some plan'"
    using assms by (simp add: replace_at_def)
  then have "select_list plan' = select_list plan \<and> operand plan' 1 = operand plan 1"
  proof (cases rule: change_lp_cases)
    case (left s a b a')
    have "change_lp a 1 LP_SELECT (change_path (tl (tl where_path)) ?f) = Some a'" using left(4) by simp
    then have "lp_type a' = lp_type a \<and> operand a' 0 = operand a 0" by (cases rule: change_lp_cases) simp_all
    then show ?thesis
      using left by (simp_all add: select_list_def)
  qed simp
  then show "select_list plan' = select_list plan" "operand plan' 1 = operand plan 1" by simp_all
qed

lemma replace_at_refs:
  assumes "replace_at where_path ta key plan = Some plan'"
  shows "refs_of (lp_get_select_where plan') = refs_of (lp_get_select_where plan) - {ta_unique_id ta}"
proof -
  obtain t a b a' where p: "get_path where_path plan = Some (Node t a b)" "lp_replace_helper a ta key = Some a'"
      "get_path where_path plan' = Some (Node t a' b)"
    using replace_at_part [OF assms] by blast
  have "t = LP_WHERE" using get_path_kind [OF _ p(1)] by simp
  then show ?thesis
    using p(1,3) lp_replace_helper_refs [OF p(2)] by (simp add: accessor_paths refs_of_def)
qed

lemma replace_project_refs:
  assumes "replace_at project_path ta key plan = Some plan'"
  shows "refs_of (select_list plan') = refs_of (select_list plan) - {ta_unique_id ta}"
proof -
  obtain t a b a' where p: "get_path project_path plan = Some (Node t a b)" "lp_replace_helper a ta key = Some a'"
      "get_path project_path plan' = Some (Node t a' b)"
    using replace_at_part [OF assms] by blast
  then show ?thesis
    using lp_replace_helper_refs [OF p(2)] by (auto simp: select_list_def refs_of_def bind_eq_Some_conv)
qed

text \<open>C36.
  After \<open>lp_replace_derived_table_references\<close> the condition, the select list and the ordering of the plan hold
  no column of the derived table, and the same references to other tables as before.
\<close>

theorem replace_removes_references:
  assumes "lp_replace_derived_table_references root new_plan ta = Some root'"
  shows "plan_refs root' = plan_refs root - {ta_unique_id ta}"
proof -
  obtain key root1 root2 out t where r: "replace_at where_path ta key root = Some root1"
      "replace_at project_path ta key root1 = Some root2" "operand root2 1 = Some out" "operand out 1 = Some t"
      "(if t = NullPlan then Some root2
        else do { a \<leftarrow> operand t 0; a' \<leftarrow> lp_replace_helper a ta key; t' \<leftarrow> set_operand t 0 a';
                  out' \<leftarrow> set_operand out 1 t'; set_operand root2 1 out' }) = Some root'"
    using assms by (auto simp: lp_replace_derived_table_references_def bind_eq_Some_conv
        split: option.splits LogicalPlan.splits if_splits)
  have first: "refs_of (lp_get_select_where root2) = refs_of (lp_get_select_where root) - {ta_unique_id ta}"
    "refs_of (select_list root2) = refs_of (select_list root) - {ta_unique_id ta}" "operand root 1 = Some out"
    using replace_at_refs [OF r(1)] replace_project_refs [OF r(2)] replace_where_keeps [OF r(1)]
      replace_project_keeps_where [OF r(2)] r(3) by simp_all
  show ?thesis
  proof (cases "t = NullPlan")
    case True
    then have "root' = root2" "order_list root2 = None" "order_list root = None"
      using r first(3) by (simp_all add: order_list_def)
    then show ?thesis using first by (auto simp: plan_refs_def refs_of_def)
  next
    case False
    then obtain a a' t' out' where e: "operand t 0 = Some a" "lp_replace_helper a ta key = Some a'"
        "set_operand t 0 a' = Some t'" "set_operand out 1 t' = Some out'" "set_operand root2 1 out' = Some root'"
      using r(5) by (auto simp: bind_eq_Some_conv)
    obtain s1 x1 y1 where n1: "root2 = Node s1 x1 y1" using e(5) by (cases root2) auto
    obtain s2 x2 y2 where n2: "out = Node s2 x2 y2" using e(4) by (cases out) auto
    obtain s3 x3 y3 where n3: "t = Node s3 x3 y3" using e(3) by (cases t) auto
    have "root' = Node s1 x1 (Node s2 x2 (Node s3 a' y3))" "x3 = a"
      using e n1 n2 n3 by auto
    then have "lp_get_select_where root' = lp_get_select_where root2" "select_list root' = select_list root2"
        "order_list root' = Some a'"
      by (simp_all add: n1 lp_get_select_where_def lp_get_select_def select_list_def order_list_def)
    moreover have "order_list root = Some a" using first(3) r(4) e(1) by (simp add: order_list_def)
    ultimately show ?thesis
      using first lp_replace_helper_refs [OF e(2)] by (auto simp: plan_refs_def refs_of_def)
  qed
qed

theorem replace_removes_references_witness:
  "let col = (\<lambda>n i. ColumnAliasNode (ColumnAlias (Column_of (sample_column n [])) (sample_alias i)));
       root = sample_plan (Node LP_COLUMN_LIST (Node LP_WHERE (col ''b'' 7) NullPlan) NullPlan) (new_node LP_KEYS)
         (Node LP_BOOLEAN_EQUALS (col ''a'' 7) (col ''a'' 1))
   in \<exists>root'. lp_replace_derived_table_references root root (sample_alias 7) = Some root' \<and> plan_refs root' = {1}"
proof -
  let ?col = "\<lambda>n i. ColumnAliasNode (ColumnAlias (Column_of (sample_column n [])) (sample_alias i))"
  let ?root = "sample_plan (Node LP_COLUMN_LIST (Node LP_WHERE (?col ''b'' 7) NullPlan) NullPlan) (new_node LP_KEYS)
         (Node LP_BOOLEAN_EQUALS (?col ''a'' 7) (?col ''a'' 1))"
  let ?root' = "sample_plan (Node LP_COLUMN_LIST
           (Node LP_WHERE (Node LP_DERIVED_COLUMN (KeyNode 0) (PieceNode 2)) NullPlan) NullPlan) (new_node LP_KEYS)
         (Node LP_BOOLEAN_EQUALS (Node LP_DERIVED_COLUMN (KeyNode 0) (PieceNode 1)) (?col ''a'' 1))"
  have r: "lp_replace_derived_table_references ?root ?root (sample_alias 7) = Some ?root'"
    by (simp add: lp_replace_derived_table_references_def lp_get_output_key_def replace_at_def
        get_column_piece_number_def search_column_name_def)
  have "plan_refs ?root = {7, 1}"
    by (auto simp: plan_refs_def refs_of_def select_list_def order_list_def lp_get_select_where_def lp_get_select_def)
  then have "plan_refs ?root' = {1}" using replace_removes_references [OF r] by auto
  then show ?thesis using r by (auto simp: Let_def)
qed

text \<open>
  The helper asserts that an operator comes after \<open>LP_ADDITION\<close>, which is the first one: an addition in a
  query over a derived table fails the assertion, whatever its operands, while a subtraction is accepted.
\<close>

lemma replace_refuses_addition:
  "lp_replace_helper (Node LP_ADDITION a b) ta key = None
   \<and> lp_replace_helper (Node LP_SUBTRACTION (ValueNode v) (ValueNode w)) ta key
       = Some (Node LP_SUBTRACTION (ValueNode v) (ValueNode w))"
  by simp

end
