(* ===== verification/Plan_Structure.thy ===== *)
theory Plan_Structure
  imports Plan_Keys
begin

text \<open>
  The structure check \<open>optimization_transforms/lp_verify_structure.c\<close>, which both the planner and the
  physical planner run on a plan before they use it. The disjunctions over operand types are lists of
  types. The lemmas show that linking plans and inserting keys keep a plan acceptable, what an accepted
  plan guarantees to the accessors of theory \<open>Logical_Plan\<close>, and that no comparison \<open>>=\<close> is accepted.
\<close>

section \<open>The check\<close>

definition first_operand_types :: "LPActionType list" where
  "first_operand_types =
     [LP_ADDITION, LP_SUBTRACTION, LP_DIVISION, LP_MULTIPLICATION, LP_CONCAT, LP_BOOLEAN_OR, LP_BOOLEAN_AND,
      LP_BOOLEAN_IS, LP_BOOLEAN_EQUALS, LP_BOOLEAN_NOT_EQUALS, LP_BOOLEAN_LESS_THAN, LP_BOOLEAN_GREATER_THAN,
      LP_BOOLEAN_LESS_THAN_OR_EQUALS, LP_BOOLEAN_GREATER_THAN, LP_BOOLEAN_REGEX_SENSITIVE,
      LP_BOOLEAN_REGEX_INSENSITIVE, LP_BOOLEAN_IN, LP_BOOLEAN_NOT_IN, LP_BOOLEAN_NOT, LP_NEGATIVE, LP_FORCE_NUM,
      LP_COLUMN_ALIAS, LP_COLUMN_LIST, LP_COLUMN_LIST_ALIAS, LP_FUNCTION_CALL, LP_DERIVED_COLUMN, LP_CASE,
      LP_WHERE, LP_VALUE]"

definition second_operand_types :: "LPActionType list" where
  "second_operand_types =
     [LP_ADDITION, LP_SUBTRACTION, LP_DIVISION, LP_MULTIPLICATION, LP_CONCAT, LP_BOOLEAN_OR, LP_BOOLEAN_AND,
      LP_BOOLEAN_IS, LP_BOOLEAN_EQUALS, LP_BOOLEAN_NOT_EQUALS, LP_BOOLEAN_LESS_THAN, LP_BOOLEAN_GREATER_THAN,
      LP_BOOLEAN_LESS_THAN_OR_EQUALS, LP_BOOLEAN_GREATER_THAN, LP_BOOLEAN_REGEX_SENSITIVE,
      LP_BOOLEAN_REGEX_INSENSITIVE, LP_BOOLEAN_IN, LP_BOOLEAN_NOT_IN, LP_BOOLEAN_NOT, LP_NEGATIVE, LP_FORCE_NUM,
      LP_COLUMN_ALIAS, LP_COLUMN_LIST, LP_COLUMN_LIST_ALIAS, LP_FUNCTION_CALL, LP_INSERT, LP_SET_OPERATION,
      LP_DERIVED_COLUMN, LP_KEY, LP_CASE, LP_WHERE, LP_VALUE]"

definition unary_operand_types :: "LPActionType list" where
  "unary_operand_types =
     [LP_ADDITION, LP_SUBTRACTION, LP_DIVISION, LP_MULTIPLICATION, LP_CONCAT, LP_BOOLEAN_OR, LP_BOOLEAN_AND,
      LP_BOOLEAN_IS, LP_BOOLEAN_EQUALS, LP_BOOLEAN_NOT_EQUALS, LP_BOOLEAN_LESS_THAN, LP_BOOLEAN_GREATER_THAN,
      LP_BOOLEAN_LESS_THAN_OR_EQUALS, LP_BOOLEAN_GREATER_THAN, LP_BOOLEAN_REGEX_SENSITIVE,
      LP_BOOLEAN_REGEX_INSENSITIVE, LP_BOOLEAN_IN, LP_BOOLEAN_NOT_IN, LP_COLUMN_ALIAS, LP_COLUMN_LIST_ALIAS,
      LP_FUNCTION_CALL, LP_DERIVED_COLUMN, LP_VALUE]"

definition expression_types :: "LPActionType list" where
  "expression_types =
     [LP_ADDITION, LP_SUBTRACTION, LP_DIVISION, LP_MULTIPLICATION, LP_CONCAT, LP_BOOLEAN_OR, LP_BOOLEAN_AND,
      LP_BOOLEAN_IS, LP_BOOLEAN_EQUALS, LP_BOOLEAN_NOT_EQUALS, LP_BOOLEAN_LESS_THAN, LP_BOOLEAN_GREATER_THAN,
      LP_BOOLEAN_LESS_THAN_OR_EQUALS, LP_BOOLEAN_GREATER_THAN_OR_EQUALS, LP_BOOLEAN_REGEX_SENSITIVE,
      LP_BOOLEAN_REGEX_INSENSITIVE, LP_BOOLEAN_IN, LP_BOOLEAN_NOT_IN, LP_WHERE, LP_CASE_STATEMENT,
      LP_CASE_BRANCH_STATEMENT, LP_COLUMN_LIST]"

definition set_option_types :: "LPActionType list" where
  "set_option_types =
     [LP_SET_UNION, LP_SET_UNION_ALL, LP_SET_EXCEPT, LP_SET_EXCEPT_ALL, LP_SET_INTERSECT, LP_SET_INTERSECT_ALL]"

text \<open>
  The key that \<open>LP_KEY_FIX\<close> and \<open>LP_KEY_ADVANCE\<close> nodes hold in their first operand; no caller expects these
  two types.
\<close>

definition key_operand :: "plan_state \<Rightarrow> LogicalPlan \<Rightarrow> LogicalPlan \<Rightarrow> SqlKey option" where
  "key_operand st a b = (case a of KeyNode r \<Rightarrow> if b = NullPlan then lookup_key st r else None | _ \<Rightarrow> None)"

text \<open>
  The check of a node against the type its parent expects. Node types that carry no operands
  (\<open>LP_TABLE\<close>, \<open>LP_KEY\<close>, \<open>LP_KEYWORDS\<close>, the set operations, columns and values) have nothing to check below;
  \<open>LP_INVALID_ACTION\<close>, for which the source asserts, is expected by no caller.
\<close>

primrec lp_verify_structure_helper :: "plan_state \<Rightarrow> LogicalPlan \<Rightarrow> LPActionType \<Rightarrow> bool" where
  "lp_verify_structure_helper st NullPlan expected = True"
| "lp_verify_structure_helper st (Node t a b) expected =
     (let is0 = lp_verify_structure_helper st a; is1 = lp_verify_structure_helper st b in
      if t \<noteq> expected then False
      else if t = LP_INSERT then is0 LP_PROJECT \<and> is1 LP_OUTPUT
      else if t = LP_OUTPUT then is0 LP_KEY
      else if t = LP_SET_OPERATION then is0 LP_SET_OPTION \<and> is1 LP_PLANS
      else if t = LP_SET_OPTION then list_ex is0 set_option_types
      else if t = LP_PLANS then (is0 LP_INSERT \<or> is0 LP_SET_OPERATION) \<and> (is1 LP_INSERT \<or> is1 LP_SET_OPERATION)
      else if t = LP_PROJECT then is0 LP_COLUMN_LIST \<and> is1 LP_SELECT
      else if t = LP_SELECT then a \<noteq> NullPlan \<and> b \<noteq> NullPlan \<and> is0 LP_TABLE_JOIN \<and> is1 LP_CRITERIA
      else if t = LP_OUTER_JOIN \<or> t = LP_TABLE_JOIN then
        (if a \<noteq> NullPlan then (is0 LP_TABLE \<or> is0 LP_INSERT \<or> is0 LP_SET_OPERATION) \<and> is1 LP_TABLE_JOIN
         else b = NullPlan)
      else if t = LP_CRITERIA then a \<noteq> NullPlan \<and> is0 LP_KEYS \<and> is1 LP_SELECT_OPTIONS
      else if t = LP_KEYS then
        (if a \<noteq> NullPlan then is0 LP_KEY \<and> (is1 LP_KEY \<or> is1 LP_KEYS) else b = NullPlan)
      else if t = LP_KEY_FIX then (case key_operand st a b of None \<Rightarrow> False | Some k \<Rightarrow> key_value k \<noteq> NullPlan)
      else if t = LP_KEY_ADVANCE then
        (case key_operand st a b of None \<Rightarrow> False | Some k \<Rightarrow> key_value k = NullPlan \<and> key_column k \<noteq> None)
      else if t = LP_SELECT_OPTIONS then is0 LP_WHERE \<and> is1 LP_KEYWORDS
      else if t \<in> set expression_types then list_ex is0 first_operand_types \<and> list_ex is1 second_operand_types
      else if t = LP_FORCE_NUM \<or> t = LP_NEGATIVE \<or> t = LP_BOOLEAN_NOT then
        list_ex is0 unary_operand_types \<and> b = NullPlan
      else if t = LP_FUNCTION_CALL then is0 LP_VALUE \<and> is1 LP_COLUMN_LIST
      else if t = LP_CASE then is0 LP_CASE_STATEMENT \<and> is1 LP_CASE_BRANCH
      else if t = LP_CASE_BRANCH then is0 LP_CASE_BRANCH_STATEMENT \<and> is1 LP_CASE_BRANCH
      else True)"
| "lp_verify_structure_helper st (ColumnAliasNode c) expected = (expected = LP_COLUMN_ALIAS)"
| "lp_verify_structure_helper st (ColumnListAliasNode c) expected = (expected = LP_COLUMN_LIST_ALIAS)"
| "lp_verify_structure_helper st (ValueNode v) expected = (expected = LP_VALUE)"
| "lp_verify_structure_helper st (TableNode v) expected = (expected = LP_TABLE)"
| "lp_verify_structure_helper st (KeyNode v) expected = (expected = LP_KEY)"
| "lp_verify_structure_helper st (KeywordsNode v) expected = (expected = LP_KEYWORDS)"
| "lp_verify_structure_helper st (PieceNode v) expected = (expected = LP_PIECE_NUMBER)"

definition lp_verify_structure :: "plan_state \<Rightarrow> LogicalPlan \<Rightarrow> bool" where
  "lp_verify_structure st plan =
     (case lp_type plan of
        None \<Rightarrow> False
      | Some t \<Rightarrow>
          if t \<noteq> LP_INSERT \<and> t \<noteq> LP_SET_OPERATION then False else lp_verify_structure_helper st plan t)"

abbreviation verified :: "plan_state \<Rightarrow> LPActionType \<Rightarrow> LogicalPlan \<Rightarrow> bool" where
  "verified st t p \<equiv> lp_verify_structure_helper st p t"

section \<open>What is kept\<close>

lemma verified_type: "verified st t p \<Longrightarrow> p \<noteq> NullPlan \<Longrightarrow> lp_type p = Some t"
  by (cases p) (auto simp: Let_def split: if_splits)

lemma lp_type_Node:
  assumes "lp_type p = Some t"
    "t \<notin> {LP_COLUMN_ALIAS, LP_COLUMN_LIST_ALIAS, LP_VALUE, LP_TABLE, LP_KEY, LP_KEYWORDS, LP_PIECE_NUMBER}"
  shows "\<exists>a b. p = Node t a b"
  using assms by (cases p) auto

lemma verified_spine:
  "verified st LP_INSERT (Node LP_INSERT a b) = (verified st LP_PROJECT a \<and> verified st LP_OUTPUT b)"
  "verified st LP_PROJECT (Node LP_PROJECT a b) = (verified st LP_COLUMN_LIST a \<and> verified st LP_SELECT b)"
  "verified st LP_SELECT (Node LP_SELECT a b)
     = (a \<noteq> NullPlan \<and> b \<noteq> NullPlan \<and> verified st LP_TABLE_JOIN a \<and> verified st LP_CRITERIA b)"
  "verified st LP_CRITERIA (Node LP_CRITERIA a b)
     = (a \<noteq> NullPlan \<and> verified st LP_KEYS a \<and> verified st LP_SELECT_OPTIONS b)"
  "verified st LP_SELECT_OPTIONS (Node LP_SELECT_OPTIONS a b) = (verified st LP_WHERE a \<and> verified st LP_KEYWORDS b)"
  by (simp_all add: Let_def)

lemma verified_join:
  assumes "lp_verify_structure st a" "lp_verify_structure st b" "t \<in> set set_option_types"
  shows "lp_verify_structure st (lp_join_plans a b t)"
proof -
  have nn: "a \<noteq> NullPlan" "b \<noteq> NullPlan" using assms by (auto simp: lp_verify_structure_def)
  have ab: "verified st LP_INSERT a \<or> verified st LP_SET_OPERATION a" "verified st LP_INSERT b \<or> verified st LP_SET_OPERATION b"
    using assms(1,2) by (auto simp: lp_verify_structure_def split: option.splits if_splits)
  have "list_ex (lp_verify_structure_helper st (new_node t)) set_option_types"
    using assms(3) by (auto simp: set_option_types_def Let_def expression_types_def first_operand_types_def second_operand_types_def)
  then show ?thesis using ab nn by (simp add: lp_verify_structure_def lp_join_plans_def Let_def)
qed

text \<open>An operand may be replaced by one that passes every check the old one passes.\<close>

definition at_least_as_good :: "plan_state \<Rightarrow> LogicalPlan \<Rightarrow> LogicalPlan \<Rightarrow> bool" where
  "at_least_as_good st p q \<longleftrightarrow> p \<noteq> NullPlan \<and> q \<noteq> NullPlan \<and> (\<forall>e. verified st e p \<longrightarrow> verified st e q)"

lemma list_ex_better: "at_least_as_good st a a' \<Longrightarrow> list_ex (lp_verify_structure_helper st a) ts \<Longrightarrow>
    list_ex (lp_verify_structure_helper st a') ts"
  by (auto simp: at_least_as_good_def list_ex_iff)

lemma if_mono:
  "(c \<Longrightarrow> A \<longrightarrow> A') \<Longrightarrow> (\<not> c \<Longrightarrow> B \<longrightarrow> B') \<Longrightarrow> (if c then A else B) \<longrightarrow> (if c then A' else B')"
  by simp

lemma better_first:
  assumes "at_least_as_good st a a'" "lp_type a \<noteq> Some LP_KEY"
  shows "at_least_as_good st (Node t a b) (Node t a' b)"
proof -
  have nn: "a \<noteq> NullPlan" "a' \<noteq> NullPlan" and imp: "\<And>e. verified st e a \<Longrightarrow> verified st e a'"
    using assms(1) by (auto simp: at_least_as_good_def)
  have k: "key_operand st a b = None" using assms(2) by (cases a) (auto simp: key_operand_def)
  note l = list_ex_better [OF assms(1)]
  have "verified st e (Node t a b) \<longrightarrow> verified st e (Node t a' b)" for e
    unfolding lp_verify_structure_helper.simps Let_def
    by (intro if_mono) (auto simp: nn k dest: imp l)
  then show ?thesis by (simp add: at_least_as_good_def)
qed

lemma better_second:
  assumes "at_least_as_good st b b'"
  shows "at_least_as_good st (Node t a b) (Node t a b')"
proof -
  have nn: "b \<noteq> NullPlan" "b' \<noteq> NullPlan" and imp: "\<And>e. verified st e b \<Longrightarrow> verified st e b'"
    using assms(1) by (auto simp: at_least_as_good_def)
  have k: "key_operand st a b = None" using nn by (cases a) (auto simp: key_operand_def)
  note l = list_ex_better [OF assms(1)]
  have "verified st e (Node t a b) \<longrightarrow> verified st e (Node t a b')" for e
    unfolding lp_verify_structure_helper.simps Let_def
    by (intro if_mono) (auto simp: nn k dest: imp l)
  then show ?thesis by (simp add: at_least_as_good_def)
qed

lemma better_path:
  assumes "change_path path f p = Some p'" "LP_KEY \<notin> snd ` set path"
    "\<And>q q'. get_path path p = Some q \<Longrightarrow> f q = Some q' \<Longrightarrow> at_least_as_good st q q'"
  shows "at_least_as_good st p p'"
  using assms
proof (induction path arbitrary: p p')
  case (Cons x path)
  obtain side t where x: "x = (side, t)" by force
  have "change_lp p side t (change_path path f) = Some p'" using Cons.prems(1) x by simp
  then show ?case
  proof (cases rule: change_lp_cases)
    case (left s a b a')
    have "at_least_as_good st a a'"
      using Cons.prems left x by (intro Cons.IH [OF left(4)]) auto
    moreover have "lp_type a \<noteq> Some LP_KEY" using left(3) Cons.prems(2) x by auto
    ultimately show ?thesis using better_first left by simp
  next
    case (right s a b b')
    have "at_least_as_good st b b'"
      using Cons.prems right x by (intro Cons.IH [OF right(4)]) auto
    then show ?thesis using better_second right by simp
  qed
qed simp

lemma verified_keys_iff:
  "key_nodes keys = Some ks \<Longrightarrow> verified st LP_KEYS keys \<longleftrightarrow> (\<forall>k \<in> set ks. verified st LP_KEY k)"
proof (induction keys arbitrary: ks)
  case (Node t a b)
  have t: "t = LP_KEYS" "a \<noteq> NullPlan" using Node.prems by (auto split: if_splits)
  show ?case
  proof (cases "b = NullPlan")
    case True
    then show ?thesis using Node.prems t by (auto simp: Let_def)
  next
    case False
    then obtain bs where bs: "key_nodes b = Some bs" "ks = a # bs" using Node.prems t by auto
    have "lp_type b = Some LP_KEYS" using bs(1) by (cases b) (auto split: if_splits)
    then have "\<not> verified st LP_KEY b" using verified_type [of st b LP_KEY] False by auto
    then show ?thesis using Node.IH(2) [OF bs(1)] bs(2) t by (simp add: Let_def)
  qed
qed auto

lemma better_insert_key:
  assumes "insert_into_keys (KeyNode r) keys = Some keys'" "keys_list keys = Some ks"
  shows "at_least_as_good st keys keys'"
proof -
  have k: "keys_list keys' = Some (ks @ [KeyNode r])" "lp_type keys' = Some LP_KEYS"
    using insert_into_keys_list [OF assms(2), of "KeyNode r"] assms(1) by auto
  then have k': "key_nodes keys' = Some (ks @ [KeyNode r])" by (auto simp: keys_list_def split: if_splits)
  have nn: "keys \<noteq> NullPlan" "keys' \<noteq> NullPlan" using assms(1) k(2) by (auto simp: insert_into_keys_def)
  have "verified st e keys'" if "verified st e keys" for e
  proof -
    have "lp_type keys = Some LP_KEYS"
      using assms(2) by (cases keys) (auto simp: keys_list_def split: if_splits)
    then have e: "e = LP_KEYS" using verified_type [OF that nn(1)] by simp
    have "\<forall>q \<in> set ks. verified st LP_KEY q"
    proof (cases "keys = new_node LP_KEYS")
      case True
      then show ?thesis using assms(2) by (simp add: keys_list_def)
    next
      case False
      then show ?thesis using assms(2) that e verified_keys_iff by (simp add: keys_list_def)
    qed
    then show ?thesis using e verified_keys_iff [OF k', of st] by simp
  qed
  then show ?thesis using nn by (simp add: at_least_as_good_def)
qed

section \<open>Properties\<close>





text \<open>
  A plan of one table with the condition \<open>a >= b\<close> is rejected, whatever its columns and keys are: the lists of
  operand types name \<open>LP_BOOLEAN_GREATER_THAN\<close> twice and never \<open>LP_BOOLEAN_GREATER_THAN_OR_EQUALS\<close>. With
  \<open>a > b\<close> the plan is accepted. The negation of \<open>a < b\<close> is accepted too, and becomes \<open>a >= b\<close> in the
  normal form.
\<close>

lemma verify_rejects_greater_or_equal:
  "\<not> lp_verify_structure st (sample_plan columns keys (Node LP_BOOLEAN_GREATER_THAN_OR_EQUALS a b))
   \<and> lp_verify_structure st (sample_plan (new_node LP_COLUMN_LIST) (new_node LP_KEYS)
        (Node LP_BOOLEAN_GREATER_THAN (ValueNode v) (ValueNode w)))
   \<and> lp_verify_structure st (sample_plan (new_node LP_COLUMN_LIST) (new_node LP_KEYS)
        (Node LP_BOOLEAN_NOT (Node LP_BOOLEAN_LESS_THAN (ValueNode v) (ValueNode w)) NullPlan))"
proof -
  have "\<not> verified st LP_WHERE (Node LP_WHERE (Node LP_BOOLEAN_GREATER_THAN_OR_EQUALS a b) NullPlan)"
    by (simp add: expression_types_def first_operand_types_def Let_def)
  moreover have "verified st LP_WHERE (Node LP_WHERE (Node LP_BOOLEAN_GREATER_THAN (ValueNode v) (ValueNode w)) NullPlan)"
    by (simp add: expression_types_def first_operand_types_def second_operand_types_def Let_def)
  moreover have "verified st LP_WHERE (Node LP_WHERE
      (Node LP_BOOLEAN_NOT (Node LP_BOOLEAN_LESS_THAN (ValueNode v) (ValueNode w)) NullPlan) NullPlan)"
    by (simp add: expression_types_def first_operand_types_def second_operand_types_def unary_operand_types_def Let_def)
  moreover have "verified st LP_COLUMN_LIST (new_node LP_COLUMN_LIST)"
    by (simp add: expression_types_def first_operand_types_def second_operand_types_def Let_def)
  ultimately show ?thesis by (simp add: lp_verify_structure_def Let_def)
qed

end
