(* ===== verification/Plan_Optimizer.thy ===== *)
theory Plan_Optimizer
  imports Plan_Normal_Form Plan_Structure
begin

text \<open>
  \<open>optimization_transforms/optimize_logical_plan.c\<close>, \<open>lp_optimize_where_multi_equals_ands.c\<close>,
  \<open>lp_generate_xref_plan.c\<close> and \<open>lp_generate_xref_keys.c\<close>: adding the keys of the tables to a plan, splitting
  it at the \<open>OR\<close>s of its condition, and fixing keys to the values that equalities give them. The functions
  call each other; here \<open>join_tables\<close> and the key fixing take the optimizer as an argument and
  \<open>optimize_logical_plan\<close> counts down fuel, so that \<open>Failed ()\<close> means that the fuel ran out and \<open>Undefined\<close> that
  an assertion failed or a null pointer was used. \<open>root\<close> is read and changed by \<open>join_tables\<close> at its keys only,
  which are an argument and a result of it. \<open>mx\<close> is the build constant \<open>MAX_KEY_COUNT\<close>.
\<close>

type_synonym 'a run = "(unit, 'a) outcome"

definition need :: "'a option \<Rightarrow> 'a run" where
  "need x = (case x of None \<Rightarrow> Undefined | Some y \<Rightarrow> Done y)"

lemma need_simps [simp]: "need None = Undefined" "need (Some y) = Done y"
  by (simp_all add: need_def)

lemma and_then_assoc: "and_then (and_then x f) g = and_then x (\<lambda>y. and_then (f y) g)"
  by (cases x) auto

type_synonym optimizer = "LogicalPlan \<Rightarrow> plan_state \<Rightarrow> (LogicalPlan \<times> plan_state) run"

section \<open>Keys of the tables\<close>

fun key_chain :: "LogicalPlan list \<Rightarrow> LogicalPlan" where
  "key_chain [] = new_node LP_KEYS"
| "key_chain [k] = Node LP_KEYS k NullPlan"
| "key_chain (k # ks) = Node LP_KEYS k (key_chain ks)"

text \<open>
  Drilling down to the bottom of the keys; the new keys start in a fresh node, or in the last one when it
  has no key yet.
\<close>

primrec add_keys :: "LogicalPlan \<Rightarrow> LogicalPlan \<Rightarrow> LogicalPlan option" where
  "add_keys NullPlan chain = None"
| "add_keys (Node t a b) chain =
     (if b \<noteq> NullPlan then
        (if lp_type b = Some LP_KEYS then map_option (Node t a) (add_keys b chain) else None)
      else if a \<noteq> NullPlan then Some (Node t a chain)
      else Some chain)"
| "add_keys (ColumnAliasNode c) chain = None"
| "add_keys (ColumnListAliasNode c) chain = None"
| "add_keys (ValueNode v) chain = None"
| "add_keys (TableNode v) chain = None"
| "add_keys (KeyNode v) chain = None"
| "add_keys (KeywordsNode v) chain = None"
| "add_keys (PieceNode v) chain = None"

fun alloc_keys :: "SqlKey list \<Rightarrow> plan_state \<Rightarrow> LogicalPlan list \<times> plan_state" where
  "alloc_keys [] st = ([], st)"
| "alloc_keys (k # ks) st =
     (let (r, st1) = new_key k st; (rs, st2) = alloc_keys ks st1 in (KeyNode r # rs, st2))"

text \<open>The key columns from 0 to \<open>max_key\<close>, with their numbers.\<close>

definition numbered_columns :: "int \<times> SqlColumn option list \<Rightarrow> (int \<times> SqlColumn option) list option" where
  "numbered_columns r =
     (case r of (max_key, arr) \<Rightarrow>
        if max_key < int (length arr) then Some (map (\<lambda>n. (int n, arr ! n)) [0..<nat (max_key + 1)]) else None)"

definition table_key :: "SqlTable \<Rightarrow> int \<Rightarrow> LogicalPlan \<Rightarrow> int \<times> SqlColumn option \<Rightarrow> SqlKey" where
  "table_key table unique_id owner nc =
     cleared_key\<lparr>key_column := snd nc, key_num := fst nc, key_unique_id := unique_id, key_table := Some table,
       key_type := LP_KEY_ADVANCE, key_owner := owner\<rparr>"

text \<open>
  \<open>join_tables\<close>: a nested query is optimized and its output key becomes a key of this plan; a set operation
  has both its plans optimized once more, and ends the walk over the tables; a table adds its key columns.
\<close>

fun join_tables ::
  "optimizer \<Rightarrow> nat \<Rightarrow> LogicalPlan \<Rightarrow> LogicalPlan \<Rightarrow> plan_state \<Rightarrow> (LogicalPlan \<times> LogicalPlan \<times> plan_state) run" where
  "join_tables opt mx keys (Node t a b) st =
     (if t \<noteq> LP_TABLE_JOIN \<or> a = NullPlan then Done (keys, Node t a b, st)
      else and_then (if lp_type a = Some LP_INSERT then opt a st else Done (a, st)) (\<lambda>(sub, st1).
        if lp_type sub = Some LP_SET_OPERATION then
          (case sub of
             Node s so (Node s' p q) \<Rightarrow>
               and_then (opt p st1) (\<lambda>(p', st2).
               and_then (opt q st2) (\<lambda>(q', st3).
               and_then (need (lp_get_output_key p')) (\<lambda>k.
               and_then (need (insert_into_keys k keys)) (\<lambda>keys'.
                 Done (keys', Node t (Node s so (Node s' p' q')) b, st3)))))
           | _ \<Rightarrow> Undefined)
        else if b \<noteq> NullPlan \<and> lp_type b \<noteq> Some LP_TABLE_JOIN then Undefined
        else
          and_then
            (if lp_type sub = Some LP_INSERT then
               and_then (need (do { out \<leftarrow> get_lp sub 1 LP_OUTPUT; get_lp out 0 LP_KEY })) (\<lambda>k.
               and_then (need (insert_into_keys k keys)) (\<lambda>keys'. Done (keys', st1)))
             else
               (case sub of
                  TableNode ta \<Rightarrow>
                    (case ta_table ta of
                       Select_of \<Rightarrow> Undefined
                     | Table_of table \<Rightarrow>
                         and_then (need (Option.bind (get_key_columns mx table) numbered_columns)) (\<lambda>cols.
                           let (rs, st2) = alloc_keys (map (table_key table (ta_unique_id ta) sub) cols) st1 in
                           and_then (need (add_keys keys (key_chain rs))) (\<lambda>keys'. Done (keys', st2))))
                | _ \<Rightarrow> Undefined))
            (\<lambda>(keys1, st2).
               if b = NullPlan then Done (keys1, Node t sub b, st2)
               else and_then (join_tables opt mx keys1 b st2) (\<lambda>(keys2, b', st3). Done (keys2, Node t sub b', st3)))))"
| "join_tables opt mx keys NullPlan st = Undefined"
| "join_tables opt mx keys p st = Done (keys, p, st)"

section \<open>Cross references\<close>

text \<open>
  The plan that builds a cross reference: the column and the key columns of the table, no condition, and
  the keyword that marks an index. It is optimized like any other plan.
\<close>

fun column_entries :: "SqlColumnAlias list \<Rightarrow> LogicalPlan" where
  "column_entries [] = NullPlan"
| "column_entries (c # cs) =
     Node LP_COLUMN_LIST (Node LP_WHERE (ColumnAliasNode c) NullPlan) (column_entries cs)"

definition lp_generate_xref_plan ::
  "optimizer \<Rightarrow> nat \<Rightarrow> SqlTable \<Rightarrow> SqlColumn \<Rightarrow> int \<Rightarrow> plan_state \<Rightarrow> (LogicalPlan \<times> plan_state) run" where
  "lp_generate_xref_plan opt mx table column unique_id st =
     (let output_key = cleared_key\<lparr>key_table := Some table, key_column := Some column, key_unique_id := unique_id,
            is_cross_reference_key := True\<rparr>;
          (r, st1) = new_key output_key st;
          (table_id, st2) = get_plan_unique_number st1;
          ta = \<lparr>ta_table = Table_of table, ta_alias = tableName table, ta_unique_id = table_id, ta_column_names = []\<rparr>
      in and_then (need (Option.bind (get_key_columns mx table) numbered_columns)) (\<lambda>cols.
         and_then (need (if list_ex (\<lambda>c. snd c = None) cols then None else Some (map (\<lambda>c. the (snd c)) cols))) (\<lambda>key_columns.
           opt (Node LP_INSERT
                 (Node LP_PROJECT
                   (column_entries (map (\<lambda>c. ColumnAlias (Column_of c) ta) (column # key_columns)))
                   (Node LP_SELECT
                     (Node LP_TABLE_JOIN (TableNode ta) NullPlan)
                     (Node LP_CRITERIA (new_node LP_KEYS)
                       (Node LP_SELECT_OPTIONS (new_node LP_WHERE)
                         (KeywordsNode [(OPTIONAL_POPULATE_INDEX, [])])))))
                 (Node LP_OUTPUT (KeyNode r) NullPlan)) st2)))"

text \<open>The loop over the table join that looks for the table of the column.\<close>

fun find_join :: "int \<Rightarrow> LogicalPlan \<Rightarrow> bool option" where
  "find_join unique_id (Node t a b) =
     (if a = NullPlan then None
      else if (case a of TableNode ta \<Rightarrow> ta_unique_id ta = unique_id | _ \<Rightarrow> False) then Some True
      else if b = NullPlan then Some False
      else if lp_type b = Some LP_TABLE_JOIN then find_join unique_id b
      else None)"
| "find_join unique_id p = None"

fun replace_join :: "int \<Rightarrow> LogicalPlan \<Rightarrow> LogicalPlan \<Rightarrow> LogicalPlan" where
  "replace_join unique_id x (Node t a b) =
     (if (case a of TableNode ta \<Rightarrow> ta_unique_id ta = unique_id | _ \<Rightarrow> False) then Node t x b
      else Node t a (replace_join unique_id x b))"
| "replace_join unique_id x p = p"

text \<open>The result is the null pointer when the table is not in the join.\<close>

definition lp_generate_xref_keys ::
  "optimizer \<Rightarrow> nat \<Rightarrow> LogicalPlan \<Rightarrow> SqlTable \<Rightarrow> SqlColumnAlias \<Rightarrow> SqlTableAlias \<Rightarrow> plan_state \<Rightarrow>
     (LogicalPlan \<times> LogicalPlan \<times> plan_state) run" where
  "lp_generate_xref_keys opt mx plan table column_alias ta st =
     (case ca_column column_alias of
        List_entry nm v \<Rightarrow> Undefined
      | Column_of column \<Rightarrow>
          and_then (need (lp_get_table_join plan)) (\<lambda>table_join.
          and_then (need (find_join (ta_unique_id ta) table_join)) (\<lambda>found.
            if \<not> found then Done (NullPlan, plan, st)
            else
              and_then (lp_generate_xref_plan opt mx table column (ta_unique_id ta) st) (\<lambda>(xref, st1).
              and_then (need (change_path table_join_path (Some \<circ> replace_join (ta_unique_id ta) xref) plan)) (\<lambda>plan'.
                (case lp_get_output_key xref of
                   Some (KeyNode out) \<Rightarrow>
                     let st2 = update_key out (\<lambda>k. k\<lparr>cross_reference_column_alias := Some column_alias\<rparr>) st1 in
                     and_then (need (Option.bind (get_key_columns mx table) numbered_columns)) (\<lambda>cols.
                       let (rs, st3) = alloc_keys (map (\<lambda>nc. (table_key table (ta_unique_id ta) NullPlan nc)
                             \<lparr>cross_reference_output_key := Some out\<rparr>) cols) st2
                       in Done (key_chain rs, plan', st3))
                 | _ \<Rightarrow> Undefined))))))"

section \<open>Fixing keys\<close>

definition lp_verify_valid_for_key_fix :: "plan_state \<Rightarrow> LogicalPlan \<Rightarrow> LogicalPlan \<Rightarrow> LogicalPlan \<Rightarrow> bool option" where
  "lp_verify_valid_for_key_fix st plan left right =
     (case (lp_type left, lp_type right) of
        (Some t1, Some t2) \<Rightarrow>
          if t1 \<noteq> LP_VALUE \<and> t1 \<noteq> LP_COLUMN_ALIAS then Some False
          else if t2 \<noteq> LP_VALUE \<and> t2 \<noteq> LP_COLUMN_ALIAS then Some False
          else
            (case (left, right) of
               (ColumnAliasNode cl, ColumnAliasNode cr) \<Rightarrow>
                 do {
                   i1 \<leftarrow> lp_get_key_index st plan cl;
                   i2 \<leftarrow> lp_get_key_index st plan cr;
                   if i1 = -1 \<and> i2 = -1 then Some False
                   else if (i1 = -1 \<or> i2 = -1)
                     \<and> ta_unique_id (ca_table_alias cl) = ta_unique_id (ca_table_alias cr) then Some False
                   else if i1 = -2 \<or> i2 = -2 then Some False
                   else Some True }
             | _ \<Rightarrow> Some True)
      | _ \<Rightarrow> None)"

text \<open>
  The order of the keys: position of the last key of each table, from 1, in an array with one element per
  unique id below \<open>counter - 1\<close>. Writes outside the array set \<open>overrun\<close>.
\<close>

fun fill_key_order :: "plan_state \<Rightarrow> LogicalPlan \<Rightarrow> int \<Rightarrow> int list \<Rightarrow> bool \<Rightarrow> (int list \<times> bool) option" where
  "fill_key_order st (Node t (KeyNode r) b) i arr ov =
     (case lookup_key st r of
        None \<Rightarrow> None
      | Some k \<Rightarrow>
          let u = key_unique_id k;
              inside = (0 \<le> u \<and> u < int (length arr));
              arr' = (if inside then arr[nat u := i] else arr);
              ov' = (ov \<or> \<not> inside)
          in if b = NullPlan then Some (arr', ov') else fill_key_order st b (i + 1) arr' ov')"
| "fill_key_order st p i arr ov = None"

definition array_at :: "int list \<Rightarrow> int \<Rightarrow> int option" where
  "array_at arr u = (if 0 \<le> u \<and> u < int (length arr) then Some (arr ! nat u) else None)"

text \<open>
  Which side of the equality is fixed to which: \<open>Some None\<close> when neither can be. The element 0 stands for a
  table of an outer query.
\<close>

definition orient_equality ::
  "plan_state \<Rightarrow> int list \<Rightarrow> LogicalPlan \<Rightarrow> LogicalPlan \<Rightarrow> (SqlColumnAlias \<times> LogicalPlan) option option" where
  "orient_equality st arr left right =
     (case (left, right) of
        (ColumnAliasNode cl, ColumnAliasNode cr) \<Rightarrow>
          let left_id = ta_unique_id (ca_table_alias cl); right_id = ta_unique_id (ca_table_alias cr) in
          if left_id < 0 \<or> right_id < 0 \<or> counter st \<le> left_id \<or> counter st \<le> right_id then None
          else do {
            l \<leftarrow> array_at arr left_id;
            r \<leftarrow> array_at arr right_id;
            if l = 0 \<and> r = 0 then Some None
            else if r = 0 \<or> l < r then Some (Some (cr, left))
            else Some (Some (cl, right)) }
      | (_, ColumnAliasNode cr) \<Rightarrow>
          do { r \<leftarrow> array_at arr (ta_unique_id (ca_table_alias cr));
               if r = 0 then Some None else Some (Some (cr, left)) }
      | (ColumnAliasNode cl, _) \<Rightarrow>
          do { l \<leftarrow> array_at arr (ta_unique_id (ca_table_alias cl));
               if l = 0 then Some None else Some (Some (cl, right)) }
      | _ \<Rightarrow> Some None)"

text \<open>
  Replacing the keys of a table: \<open>rest_of_table\<close> is what follows the last of them, \<open>splice_keys\<close> puts the key
  of the cross reference and the generated keys in their place. A rest overwrites the link to the second
  generated key.
\<close>

fun rest_of_table :: "plan_state \<Rightarrow> int \<Rightarrow> LogicalPlan \<Rightarrow> LogicalPlan option" where
  "rest_of_table st u (Node t (KeyNode r) b) =
     (case lookup_key st r of
        None \<Rightarrow> None
      | Some k \<Rightarrow>
          if key_unique_id k \<noteq> u then Some (Node t (KeyNode r) b)
          else if b = NullPlan then Some NullPlan
          else if lp_type b = Some LP_KEYS then rest_of_table st u b
          else None)"
| "rest_of_table st u p = None"

fun splice_keys :: "plan_state \<Rightarrow> int \<Rightarrow> LogicalPlan \<Rightarrow> LogicalPlan \<Rightarrow> LogicalPlan \<Rightarrow> LogicalPlan option" where
  "splice_keys st u key generated (Node t (KeyNode r) b) =
     (case lookup_key st r of
        None \<Rightarrow> None
      | Some k \<Rightarrow>
          if key_unique_id k = u \<or> b = NullPlan then
            do {
              rest \<leftarrow> (if key_unique_id k = u then rest_of_table st u (Node t (KeyNode r) b) else Some b);
              gen \<leftarrow> (if rest \<noteq> NullPlan then set_operand generated 1 rest else Some generated);
              Some (Node LP_KEYS key gen) }
          else if lp_type b = Some LP_KEYS then map_option (Node t (KeyNode r)) (splice_keys st u key generated b)
          else None)"
| "splice_keys st u key generated p = None"

text \<open>The reference that a cross reference is made for: the column behind an entry of a select list.\<close>

definition underlying_column :: "SqlColumnAlias \<Rightarrow> SqlColumnAlias option" where
  "underlying_column ca = (case ca_column ca of Column_of c \<Rightarrow> Some ca | List_entry nm v \<Rightarrow> v)"

definition fix_equality ::
  "optimizer \<Rightarrow> nat \<Rightarrow> LogicalPlan \<Rightarrow> LogicalPlan \<Rightarrow> LogicalPlan \<Rightarrow> int list \<Rightarrow> plan_state \<Rightarrow>
     (LogicalPlan \<times> plan_state \<times> nat) run" where
  "fix_equality opt mx plan left right arr st =
     and_then (need (lp_verify_valid_for_key_fix st plan left right)) (\<lambda>valid.
       if \<not> valid then Done (plan, st, 0)
       else and_then (need (orient_equality st arr left right)) (\<lambda>oriented.
         case oriented of
           None \<Rightarrow> Done (plan, st, 0)
         | Some (column, value) \<Rightarrow>
             and_then (need (lp_get_key st plan column)) (\<lambda>found.
               case found of
                 Some r \<Rightarrow>
                   and_then (need (lp_opt_fix_key_to_const r value st)) (\<lambda>(done, st1). Done (plan, st1, of_bool done))
               | None \<Rightarrow>
                   (case ta_table (ca_table_alias column) of
                      Select_of \<Rightarrow> Done (plan, st, 0)
                    | Table_of table \<Rightarrow>
                        and_then (need (underlying_column column)) (\<lambda>ca.
                        and_then (lp_generate_xref_keys opt mx plan table ca (ca_table_alias column) st)
                          (\<lambda>(generated, plan1, st1).
                          if generated = NullPlan then Done (plan, st, 0)
                          else
                            and_then (need (lp_make_key ca st1)) (\<lambda>(key, r, st2).
                              let st3 = update_key r (\<lambda>k. k\<lparr>is_cross_reference_key := True\<rparr>) st2 in
                              and_then (need (change_path keys_path
                                  (splice_keys st3 (ta_unique_id (ca_table_alias column)) key generated) plan1)) (\<lambda>plan2.
                              and_then (need (lp_opt_fix_key_to_const r value st3)) (\<lambda>(done, st4).
                                Done (plan2, st4, of_bool done))))))))))"

definition unwrap_where :: "LogicalPlan \<Rightarrow> LogicalPlan" where
  "unwrap_where p = (case p of Node t a b \<Rightarrow> if t = LP_WHERE then a else p | _ \<Rightarrow> p)"

lemma size_unwrap_where: "size (unwrap_where p) \<le> size p"
  by (cases p) (auto simp: unwrap_where_def)

text \<open>The helper on a condition whose \<open>LP_WHERE\<close> has been taken off.\<close>

function multi_equal_ands ::
  "optimizer \<Rightarrow> nat \<Rightarrow> LogicalPlan \<Rightarrow> LogicalPlan \<Rightarrow> int list \<Rightarrow> plan_state \<Rightarrow> (LogicalPlan \<times> plan_state \<times> nat) run" where
  "multi_equal_ands opt mx plan (Node t a b) arr st =
     (if t = LP_BOOLEAN_OR then Undefined
      else if t = LP_BOOLEAN_AND then
        and_then (multi_equal_ands opt mx plan (unwrap_where a) arr st) (\<lambda>(plan1, st1, n1).
        and_then (multi_equal_ands opt mx plan1 (unwrap_where b) arr st1) (\<lambda>(plan2, st2, n2).
          Done (plan2, st2, n1 + n2)))
      else if t \<noteq> LP_BOOLEAN_EQUALS then Done (plan, st, 0)
      else fix_equality opt mx plan a b arr st)"
| "multi_equal_ands opt mx plan NullPlan arr st = Done (plan, st, 0)"
| "multi_equal_ands opt mx plan (ColumnAliasNode c) arr st = Done (plan, st, 0)"
| "multi_equal_ands opt mx plan (ColumnListAliasNode c) arr st = Done (plan, st, 0)"
| "multi_equal_ands opt mx plan (ValueNode v) arr st = Done (plan, st, 0)"
| "multi_equal_ands opt mx plan (TableNode v) arr st = Done (plan, st, 0)"
| "multi_equal_ands opt mx plan (KeyNode v) arr st = Done (plan, st, 0)"
| "multi_equal_ands opt mx plan (KeywordsNode v) arr st = Done (plan, st, 0)"
| "multi_equal_ands opt mx plan (PieceNode v) arr st = Done (plan, st, 0)"
  by pat_completeness auto
termination
  by (relation "measure (\<lambda>(opt, mx, plan, w, arr, st). size w)")
    (auto simp: less_Suc_eq_le intro: order_trans [OF size_unwrap_where])

definition lp_optimize_where_multi_equal_ands ::
  "optimizer \<Rightarrow> nat \<Rightarrow> LogicalPlan \<Rightarrow> plan_state \<Rightarrow> (LogicalPlan \<times> plan_state \<times> nat) run" where
  "lp_optimize_where_multi_equal_ands opt mx plan st =
     and_then (need (lp_get_select_where plan)) (\<lambda>w.
     and_then (need (lp_get_keys plan)) (\<lambda>keys.
     and_then (need (fill_key_order st keys 1 (replicate (nat (counter st - 1)) 0) False)) (\<lambda>(arr, ov).
       multi_equal_ands opt mx plan (unwrap_where w) arr (st\<lparr>overrun := overrun st \<or> ov\<rparr>))))"

section \<open>Splitting a plan\<close>

text \<open>The walk along the \<open>OR\<close>s of the normal form: the terms that get a plan of their own, and the last one.\<close>

fun or_walk :: "LogicalPlan \<Rightarrow> LogicalPlan list \<times> LogicalPlan" where
  "or_walk (Node t a b) =
     (if t = LP_BOOLEAN_OR then (let (xs, last) = or_walk b in (a # xs, last)) else ([], Node t a b))"
| "or_walk p = ([], p)"

definition set_where :: "LogicalPlan \<Rightarrow> LogicalPlan \<Rightarrow> LogicalPlan option" where
  "set_where cond plan = change_path where_path (\<lambda>w. set_operand w 0 cond) plan"

definition mark_expansion :: "LogicalPlan \<Rightarrow> LogicalPlan option" where
  "mark_expansion plan =
     change_path keywords_path
       (\<lambda>k. case k of
          KeywordsNode ks \<Rightarrow>
            if ks = [] then None
            else if get_keyword_from_keywords ks OPTIONAL_PART_OF_EXPANSION = None
            then Some (KeywordsNode (ks @ [(OPTIONAL_PART_OF_EXPANSION, [])]))
            else Some k
        | _ \<Rightarrow> None) plan"

text \<open>One copy of the plan per term, each with the term as its condition.\<close>

fun term_plans :: "LogicalPlan \<Rightarrow> LogicalPlan list \<Rightarrow> plan_state \<Rightarrow> (LogicalPlan list \<times> plan_state) option" where
  "term_plans plan [] st = Some ([], st)"
| "term_plans plan (x # xs) st =
     do {
       (p, st1) \<leftarrow> lp_copy_plan plan st;
       p' \<leftarrow> set_where x p;
       (ps, st2) \<leftarrow> term_plans plan xs st1;
       Some (p' # ps, st2) }"

text \<open>
  The expansion of a plan whose condition is in normal form. The copies are made before the plan itself
  gets the last term as its condition, and \<open>lp_join_plans\<close> nests them to the left.
\<close>

definition expand_plan :: "LogicalPlan \<Rightarrow> LogicalPlan \<Rightarrow> plan_state \<Rightarrow> (LogicalPlan \<times> LogicalPlan list \<times> plan_state) option" where
  "expand_plan plan cond st =
     (let (terms, last) = or_walk cond in
      do {
        plan0 \<leftarrow> set_where cond plan;
        plan1 \<leftarrow> (if terms = [] then Some plan0 else mark_expansion plan0);
        (ps, st1) \<leftarrow> term_plans plan1 terms st;
        plan2 \<leftarrow> set_where last plan1;
        Some (plan2, ps, st1) })"

definition split_plan :: "LogicalPlan \<Rightarrow> plan_state \<Rightarrow> (LogicalPlan \<times> LogicalPlan list \<times> plan_state) option" where
  "split_plan plan st =
     do {
       w \<leftarrow> lp_get_select_where plan;
       c \<leftarrow> operand w 0;
       cond \<leftarrow> lp_make_normal_disjunctive_form c;
       expand_plan plan cond st }"

definition join_all :: "LogicalPlan \<Rightarrow> LogicalPlan list \<Rightarrow> LogicalPlan" where
  "join_all plan ps = foldl (\<lambda>acc p. lp_join_plans acc p LP_SET_UNION_ALL) plan ps"

definition with_tables :: "optimizer \<Rightarrow> nat \<Rightarrow> LogicalPlan \<Rightarrow> plan_state \<Rightarrow> (LogicalPlan \<times> plan_state) run" where
  "with_tables opt mx plan st =
     and_then (need (lp_get_table_join plan)) (\<lambda>table_join.
     and_then (need (lp_get_keys plan)) (\<lambda>keys.
       if operand keys 0 = Some NullPlan then
         and_then (join_tables opt mx keys table_join st) (\<lambda>(keys', join', st1).
         and_then (need (change_path keys_path (\<lambda>_. Some keys') plan)) (\<lambda>plan1.
         and_then (need (change_path table_join_path (\<lambda>_. Some join') plan1)) (\<lambda>plan2. Done (plan2, st1))))
       else Done (plan, st)))"

fun optimize_logical_plan :: "nat \<Rightarrow> nat \<Rightarrow> optimizer" where
  "optimize_logical_plan mx 0 plan st = Failed ()"
| "optimize_logical_plan mx (Suc n) plan st =
     (let opt = optimize_logical_plan mx n in
      if lp_type plan = Some LP_SET_OPERATION then
        (case plan of
           Node s so (Node s' p q) \<Rightarrow>
             and_then (opt p st) (\<lambda>(p', st1). and_then (opt q st1) (\<lambda>(q', st2). Done (Node s so (Node s' p' q'), st2)))
         | _ \<Rightarrow> Undefined)
      else
        and_then (with_tables opt mx plan st) (\<lambda>(plan1, st1).
        and_then (need (split_plan plan1 st1)) (\<lambda>(plan2, ps, st2).
          if ps \<noteq> [] then opt (join_all plan2 ps) st2
          else and_then (lp_optimize_where_multi_equal_ands opt mx plan2 st2) (\<lambda>(plan3, st3, k). Done (plan3, st3)))))"

section \<open>Splitting is correct\<close>

lemma same_plan_type: "same_plan st p st' q \<Longrightarrow> lp_type q = lp_type p"
  by (induction st p st' q rule: same_plan.induct) auto

lemma same_plan_get_path:
  assumes "same_plan st p st' q" "get_path path p = Some r"
  shows "\<exists>r'. get_path path q = Some r' \<and> same_plan st r st' r'"
  using assms
proof (induction path arbitrary: p q)
  case (Cons x path)
  obtain side t where x: "x = (side, t)" by force
  obtain m where m: "get_lp p side t = Some m" "get_path path m = Some r"
    using Cons.prems(2) x by (auto simp: bind_eq_Some_conv)
  from m(1) show ?case
  proof (cases rule: get_lp_cases)
    case (left s b)
    obtain m' b' where q: "q = Node s m' b'" "same_plan st m st' m'"
      using Cons.prems(1) left(2) by (cases q) auto
    then show ?thesis
      using Cons.IH [OF q(2) m(2)] left(1,3) x same_plan_type [OF q(2)] by simp
  next
    case (right s a)
    obtain m' a' where q: "q = Node s a' m'" "same_plan st m st' m'"
      using Cons.prems(1) right(2) by (cases q) auto
    then show ?thesis
      using Cons.IH [OF q(2) m(2)] right(1,3) x same_plan_type [OF q(2)] by simp
  qed
qed simp

lemma plan_keys_change_path:
  assumes "change_path path f p = Some p'" "get_path path p = Some q" "f q = Some q'"
  shows "plan_keys p' \<subseteq> plan_keys p \<union> plan_keys q'" "plan_keys q \<subseteq> plan_keys p"
proof -
  have "plan_keys p' \<subseteq> plan_keys p \<union> plan_keys q' \<and> plan_keys q \<subseteq> plan_keys p"
    using assms
  proof (induction path arbitrary: p p')
    case (Cons x path)
    obtain side t where x: "x = (side, t)" by force
    have "change_lp p side t (change_path path f) = Some p'" using Cons.prems(1) x by simp
    then show ?case
    proof (cases rule: change_lp_cases)
      case (left s a b a')
      then show ?thesis using Cons.IH [OF left(4)] Cons.prems x by auto
    next
      case (right s a b b')
      then show ?thesis using Cons.IH [OF right(4)] Cons.prems x by auto
    qed
  qed auto
  then show "plan_keys p' \<subseteq> plan_keys p \<union> plan_keys q'" "plan_keys q \<subseteq> plan_keys p" by auto
qed

definition condition :: "LogicalPlan \<Rightarrow> LogicalPlan option" where
  "condition plan = do { w \<leftarrow> lp_get_select_where plan; operand w 0 }"

lemma set_where_condition:
  assumes "condition plan = Some c"
  shows "\<exists>plan'. set_where x plan = Some plan' \<and> condition plan' = Some x
    \<and> plan_keys plan' \<subseteq> plan_keys plan \<union> plan_keys x \<and> plan_keys c \<subseteq> plan_keys plan
    \<and> lp_type plan' = lp_type plan \<and> lp_get_select_keywords plan' = lp_get_select_keywords plan"
proof -
  obtain w where w: "lp_get_select_where plan = Some w" "operand w 0 = Some c"
    using assms by (auto simp: condition_def bind_eq_Some_conv)
  obtain b where n: "w = Node LP_WHERE c b"
    using w where_part.part_kind [OF w(1)] by (cases w) auto
  let ?f = "\<lambda>w. set_operand w 0 x"
  have f: "?f w = Some (Node LP_WHERE x b)" by (simp add: n)
  obtain plan' where p: "change_path where_path ?f plan = Some plan'" "lp_get_select_where plan' = Some (Node LP_WHERE x b)"
    using where_part.change_part [of plan w ?f] w(1) f by auto
  have "get_path where_path plan = Some w" using w(1) by (simp only: accessor_paths)
  from plan_keys_change_path [of where_path ?f, OF p(1) this f]
  have "plan_keys plan' \<subseteq> plan_keys plan \<union> plan_keys (Node LP_WHERE x b)" "plan_keys w \<subseteq> plan_keys plan" .
  then have "plan_keys plan' \<subseteq> plan_keys plan \<union> plan_keys x" "plan_keys c \<subseteq> plan_keys plan" by (auto simp: n)
  moreover have "lp_type plan' = lp_type plan" using change_path_keeps_type [OF p(1)] by simp
  moreover have "lp_get_select_keywords plan' = lp_get_select_keywords plan"
    by (rule where_keywords.change_other [OF p(1)]) (use w(1) n in auto)
  ultimately show ?thesis using p by (auto simp: set_where_def condition_def)
qed

lemma mark_expansion_condition:
  assumes "lp_get_select_keywords plan = Some (KeywordsNode ks)" "ks \<noteq> []"
  shows "\<exists>plan'. mark_expansion plan = Some plan' \<and> condition plan' = condition plan \<and> plan_keys plan' \<subseteq> plan_keys plan
    \<and> lp_type plan' = lp_type plan"
proof -
  let ?f = "\<lambda>k. case k of
          KeywordsNode ks \<Rightarrow>
            if ks = [] then None
            else if get_keyword_from_keywords ks OPTIONAL_PART_OF_EXPANSION = None
            then Some (KeywordsNode (ks @ [(OPTIONAL_PART_OF_EXPANSION, [])]))
            else Some k
        | _ \<Rightarrow> None"
  obtain ks' where f: "?f (KeywordsNode ks) = Some (KeywordsNode ks')"
    using assms(2) by (cases "get_keyword_from_keywords ks OPTIONAL_PART_OF_EXPANSION = None") auto
  obtain plan' where p: "change_path keywords_path ?f plan = Some plan'"
    using keywords_part.change_part [of plan "KeywordsNode ks" ?f "KeywordsNode ks'"] assms(1) f by auto
  have "lp_get_select_where plan' = lp_get_select_where plan"
    by (rule keywords_where.change_other [OF p]) (use assms(1) f in auto)
  moreover have "get_path keywords_path plan = Some (KeywordsNode ks)" using assms(1) by (simp only: accessor_paths)
  from plan_keys_change_path(1) [of keywords_path ?f, OF p this f] have "plan_keys plan' \<subseteq> plan_keys plan" by simp
  moreover have "lp_type plan' = lp_type plan" using change_path_keeps_type [OF p] by simp
  ultimately show ?thesis using p by (auto simp: mark_expansion_def condition_def)
qed

lemma or_walk_terms: "or_full p \<Longrightarrow> or_walk p = (butlast (or_terms p), last (or_terms p))"
proof (induction p rule: or_walk.induct)
  case (1 t a b)
  then show ?case by (cases "t = LP_BOOLEAN_OR") (auto simp: Let_def)
qed auto

lemma copy_condition:
  assumes "lp_copy_plan plan st = Some (p, st1)" "same_plan st plan st1 p" "condition plan = Some c"
  shows "\<exists>c'. condition p = Some c'"
proof -
  obtain w where w: "get_path where_path plan = Some w" "operand w 0 = Some c"
    using assms(3) by (auto simp: condition_def bind_eq_Some_conv accessor_paths simp del: get_path.simps)
  obtain w' where w': "get_path where_path p = Some w'" "same_plan st w st1 w'"
    using same_plan_get_path [OF assms(2) w(1)] by blast
  obtain t a b where n: "w = Node t a b" using w(2) by (cases w) auto
  obtain a' b' where "w' = Node t a' b'" using w'(2) n by (cases w') auto
  then show ?thesis using w'(1) by (simp add: condition_def accessor_paths del: get_path.simps)
qed

lemma term_plans_correct:
  assumes "plan_keys plan \<subseteq> {..<length (key_store st)}" "condition plan = Some c"
  shows "\<exists>ps st'. term_plans plan xs st = Some (ps, st') \<and> map condition ps = map Some xs \<and> extends st st'
    \<and> list_all (\<lambda>p. lp_type p = lp_type plan) ps"
  using assms
proof (induction xs arbitrary: st)
  case (Cons x xs)
  obtain p st1 where p: "lp_copy_plan plan st = Some (p, st1)" "extends st st1" "same_plan st plan st1 p"
      "lp_type p = lp_type plan"
    using lp_copy_plan_correct [OF Cons.prems(1)] by blast
  obtain c' where c': "condition p = Some c'" using copy_condition [OF p(1,3) Cons.prems(2)] by blast
  obtain p' where p': "set_where x p = Some p'" "condition p' = Some x" "lp_type p' = lp_type p"
    using set_where_condition [OF c', of x] by blast
  have "plan_keys plan \<subseteq> {..<length (key_store st1)}"
    using Cons.prems(1) extends_length [OF p(2)] by auto
  from Cons.IH [OF this Cons.prems(2)] obtain ps st' where ps: "term_plans plan xs st1 = Some (ps, st')"
      "map condition ps = map Some xs" "extends st1 st'" "list_all (\<lambda>p. lp_type p = lp_type plan) ps"
    by blast
  then show ?case using p p' extends_trans by auto
qed simp

text \<open>The normal form holds no key that the expression does not hold.\<close>

lemma plan_keys_apply_not: "lp_apply_not p n = Some q \<Longrightarrow> plan_keys q \<subseteq> plan_keys p"
proof (induction p arbitrary: n q)
  case (Node t a b)
  show ?case
  proof (cases "t = LP_BOOLEAN_NOT")
    case True
    then show ?thesis
      using Node.prems Node.IH(1) [of "n + 1"] by (fastforce split: option.splits if_splits)
  next
    case False
    then show ?thesis
      using Node.prems Node.IH(1) [of n] Node.IH(2) [of n]
      by (fastforce simp: bind_eq_Some_conv split: if_splits)
  qed
qed (auto split: if_splits)

lemma plan_keys_or_terms: "x \<in> set (or_terms p) \<Longrightarrow> plan_keys x \<subseteq> plan_keys p"
  by (induction p rule: or_terms.induct) (auto split: if_splits)

lemma plan_keys_or_chain: "plan_keys (or_chain xs) \<subseteq> (\<Union>x \<in> set xs. plan_keys x)"
  by (induction xs rule: or_chain.induct) auto

lemma plan_keys_distribute:
  assumes "or_full l" "or_full r" "distribute l r = Some q"
  shows "plan_keys q \<subseteq> plan_keys l \<union> plan_keys r"
proof -
  have "q = or_chain (concat (map (\<lambda>x. map (Node LP_BOOLEAN_AND x) (or_terms r)) (or_terms l)))"
    using distribute_chain [OF assms(1,2)] assms(3) by simp
  then show ?thesis
    using plan_keys_or_chain plan_keys_or_terms by fastforce
qed

lemma plan_keys_normal_form:
  assumes "invertible p False" "lp_make_normal_disjunctive_form p = Some q"
  shows "plan_keys q \<subseteq> plan_keys p"
  using assms
proof (induction p arbitrary: q rule: lp_make_normal_disjunctive_form.induct)
  case (1 p)
  have nn: "p \<noteq> NullPlan" using "1.prems" by auto
  obtain r where r: "lp_apply_not p 0 = Some r" "invertible r False"
    using apply_not_correct [of p 0] "1.prems"(1) by auto
  have rp: "plan_keys r \<subseteq> plan_keys p" using plan_keys_apply_not [OF r(1)] .
  show ?case
  proof (cases "\<exists>t a b. r = Node t a b \<and> (t = LP_BOOLEAN_AND \<or> t = LP_BOOLEAN_OR)")
    case False
    then have "q = r"
      using nn r(1) "1.prems"(2) by (subst (asm) lp_make_normal_disjunctive_form.simps) (auto split: LogicalPlan.splits)
    then show ?thesis using rp by simp
  next
    case True
    then obtain t a b where t: "r = Node t a b" "t = LP_BOOLEAN_AND \<or> t = LP_BOOLEAN_OR" by blast
    have ab: "invertible a False" "invertible b False" using r(2) t by auto
    obtain l k where l: "lp_make_normal_disjunctive_form a = Some l" "invertible l False"
        and k: "lp_make_normal_disjunctive_form b = Some k" "invertible k False"
      using normal_form_correct [OF ab(1)] normal_form_correct [OF ab(2)] by blast
    have sub: "plan_keys l \<subseteq> plan_keys a" "plan_keys k \<subseteq> plan_keys b"
      using "1.IH"(1) [OF nn r(1) t(1) _ ab(1) l(1)] "1.IH"(2) [OF nn r(1) t(1) _ l(1) ab(2) k(1)] t(2) by auto
    have "Some q = (if t \<noteq> LP_BOOLEAN_AND then Some (Node t l k) else distribute l k)"
      using nn r(1) t l(1) k(1) "1.prems"(2) by (subst (asm) lp_make_normal_disjunctive_form.simps) auto
    then have "plan_keys q \<subseteq> plan_keys l \<union> plan_keys k"
      using plan_keys_distribute [OF invertible_or_full [OF l(2)] invertible_or_full [OF k(2)]] by (auto split: if_splits)
    moreover have "plan_keys a \<union> plan_keys b \<subseteq> plan_keys p" using rp t(1) by simp
    ultimately show ?thesis using sub by blast
  qed
qed

lemma expand_plan_correct:
  assumes "condition plan = Some c" "or_full cond \<or> cond = NullPlan"
    "lp_get_select_keywords plan = Some (KeywordsNode ks)" "ks \<noteq> []"
    "plan_keys plan \<union> plan_keys cond \<subseteq> {..<length (key_store st)}"
  shows "\<exists>plan' ps st'. expand_plan plan cond st = Some (plan', ps, st') \<and> extends st st'
    \<and> map condition (ps @ [plan']) = map Some (or_terms cond)
    \<and> list_all (\<lambda>p. lp_type p = lp_type plan) (plan' # ps)"
proof -
  let ?terms = "butlast (or_terms cond)" and ?last = "last (or_terms cond)"
  have walk: "or_walk cond = (?terms, ?last)" using assms(2) by (auto simp: or_walk_terms)
  obtain plan0 where p0: "set_where cond plan = Some plan0" "condition plan0 = Some cond"
      "plan_keys plan0 \<subseteq> plan_keys plan \<union> plan_keys cond" "lp_type plan0 = lp_type plan"
    using set_where_condition [OF assms(1), of cond] by blast
  have kw: "lp_get_select_keywords plan0 = Some (KeywordsNode ks)"
    using set_where_condition [OF assms(1), of cond] p0(1) assms(3) by auto
  obtain plan1 where p1: "(if ?terms = [] then Some plan0 else mark_expansion plan0) = Some plan1"
      "condition plan1 = Some cond" "plan_keys plan1 \<subseteq> plan_keys plan0" "lp_type plan1 = lp_type plan0"
    using mark_expansion_condition [OF kw assms(4)] p0(2) by (cases "?terms = []") auto
  have keys1: "plan_keys plan1 \<subseteq> {..<length (key_store st)}" using p1(3) p0(3) assms(5) by blast
  obtain ps st' where ps: "term_plans plan1 ?terms st = Some (ps, st')" "map condition ps = map Some ?terms"
      "extends st st'" "list_all (\<lambda>p. lp_type p = lp_type plan1) ps"
    using term_plans_correct [OF keys1 p1(2)] by blast
  obtain plan2 where p2: "set_where ?last plan1 = Some plan2" "condition plan2 = Some ?last" "lp_type plan2 = lp_type plan1"
    using set_where_condition [OF p1(2), of ?last] by blast
  have ex: "expand_plan plan cond st = Some (plan2, ps, st')"
    unfolding expand_plan_def walk using p0(1) p1(1) ps(1) p2(1) by simp
  have "map condition (ps @ [plan2]) = map Some (?terms @ [?last])"
    by (simp only: map_append ps(2) p2(2) list.map)
  then have "map condition (ps @ [plan2]) = map Some (or_terms cond)" by simp
  moreover have "list_all (\<lambda>p. lp_type p = lp_type plan) (plan2 # ps)"
    using p2(3) p1(4) p0(4) ps(4) by (auto simp: list_all_iff)
  ultimately show ?thesis using ex ps(3) by blast
qed

text \<open>
  A round of splitting: every piece has one term of the normal form as its condition, and no piece has as
  many terms as the whole.
\<close>

lemma split_plan_pieces:
  assumes "condition plan = Some c" "invertible c False"
    "lp_get_select_keywords plan = Some (KeywordsNode ks)" "ks \<noteq> []"
    "plan_keys plan \<subseteq> {..<length (key_store st)}"
  shows "\<exists>plan' ps st' cs. split_plan plan st = Some (plan', ps, st') \<and> extends st st'
    \<and> map condition (ps @ [plan']) = map Some cs
    \<and> (\<forall>atom. lp_eval atom c = (\<exists>x \<in> set cs. lp_eval atom x))
    \<and> list_all (\<lambda>x. invertible x False) cs
    \<and> sum_list (map (\<lambda>x. term_count x False) cs) = term_count c False
    \<and> list_all (\<lambda>p. lp_type p = lp_type plan) (plan' # ps)"
proof -
  obtain q where q: "lp_make_normal_disjunctive_form c = Some q" "invertible q False"
      "\<And>atom. lp_eval atom q = lp_eval atom c" "term_count q False = term_count c False"
    using normal_form_correct [OF assms(2)] by blast
  have full: "or_full q" using q(2) by (rule invertible_or_full)
  have "plan_keys c \<subseteq> plan_keys plan" using set_where_condition [OF assms(1)] by blast
  then have "plan_keys plan \<union> plan_keys q \<subseteq> {..<length (key_store st)}"
    using plan_keys_normal_form [OF assms(2) q(1)] assms(5) by blast
  from expand_plan_correct [OF assms(1) _ assms(3,4) this] full obtain plan' ps st' where
    e: "expand_plan plan q st = Some (plan', ps, st')" "extends st st'"
      "map condition (ps @ [plan']) = map Some (or_terms q)" "list_all (\<lambda>p. lp_type p = lp_type plan) (plan' # ps)"
    by blast
  have "split_plan plan st = Some (plan', ps, st')"
    using e(1) q(1) assms(1) by (auto simp: split_plan_def condition_def bind_eq_Some_conv)
  moreover have "\<forall>atom. lp_eval atom c = (\<exists>x \<in> set (or_terms q). lp_eval atom x)"
    using lp_eval_or_terms [OF full] q(3) by simp
  moreover have "list_all (\<lambda>x. invertible x False) (or_terms q)"
    using invertible_or_terms [OF q(2)] by (simp add: list_all_iff)
  moreover have "sum_list (map (\<lambda>x. term_count x False) (or_terms q)) = term_count c False"
    using term_count_or_terms [OF full] q(4) by simp
  ultimately show ?thesis using e(2,3,4) by blast
qed

section \<open>Properties\<close>



lemma orient_value_column:
  "(\<And>cl. left \<noteq> ColumnAliasNode cl) \<Longrightarrow> orient_equality st arr left (ColumnAliasNode cr)
    = do { r \<leftarrow> array_at arr (ta_unique_id (ca_table_alias cr)); if r = 0 then Some None else Some (Some (cr, left)) }"
  by (cases left) (auto simp: orient_equality_def)

lemma orient_column_value:
  "(\<And>cr. right \<noteq> ColumnAliasNode cr) \<Longrightarrow> orient_equality st arr (ColumnAliasNode cl) right
    = do { l \<leftarrow> array_at arr (ta_unique_id (ca_table_alias cl)); if l = 0 then Some None else Some (Some (cl, right)) }"
  by (cases right) (auto simp: orient_equality_def)

lemma orient_values:
  "(\<And>cl. left \<noteq> ColumnAliasNode cl) \<Longrightarrow> (\<And>cr. right \<noteq> ColumnAliasNode cr) \<Longrightarrow>
    orient_equality st arr left right = Some None"
  by (cases left; cases right) (auto simp: orient_equality_def)

lemma array_at_nonneg: "list_all (\<lambda>x. 0 \<le> x) arr \<Longrightarrow> array_at arr u = Some i \<Longrightarrow> 0 \<le> i"
  by (auto simp: array_at_def list_all_iff split: if_splits)


abbreviation sample_reference :: "string \<Rightarrow> int \<Rightarrow> SqlColumnAlias" where
  "sample_reference nm i \<equiv> ColumnAlias (Column_of (sample_column nm [])) (sample_alias i)"


text \<open>
  A set operation in the list of tables ends the walk: whatever tables follow it, the keys and the state are
  the ones it would give if it were the last, so the keys of those tables are missing.
\<close>

lemma join_tables_stops_at_set_operation:
  "join_tables opt mx keys (Node LP_TABLE_JOIN (Node LP_SET_OPERATION so (Node LP_PLANS p q)) following) st
   = and_then (join_tables opt mx keys (Node LP_TABLE_JOIN (Node LP_SET_OPERATION so (Node LP_PLANS p q)) NullPlan) st)
       (\<lambda>(keys', join', st'). Done (keys', the (set_operand join' 1 following), st'))"
  by (simp add: and_then_assoc case_prod_unfold)

end
