(* ===== verification/Spec2Isabelle.thy ===== *)
theory Spec2Isabelle
  imports Login_Properties Memory_Chunk Plan_Optimizer
begin

text \<open>
  \<^bold>\<open>Octo\<close> translates SQL into M routines that run on YottaDB, and \<open>rocto\<close> serves them to PostgreSQL clients.
  This development models two halves of the C sources under \<open>src/src\<close>: the server \<open>rocto\<close>, from the bytes of a
  connection to the database, and the logical planner with the memory it allocates from.

  \<^bold>\<open>Shared vocabulary.\<close> \<open>Octo_Prelude\<close> has bytes (\<open>char\<close>), C strings, network byte order and the result type
  \<open>outcome\<close>: \<open>Done\<close> for a return, \<open>Failed\<close> for an error the code reports, \<open>Undefined\<close> for an access outside an
  object or any other step the C standard leaves undefined. \<open>Octo_Errors\<close> is the error table of \<open>errors.hd\<close>,
  with severities, SQLSTATE codes, and \<open>format_error_string\<close>.

  \<^bold>\<open>Wire protocol (\<open>src/rocto\<close>).\<close>
  \<^item> \<open>Wire_Messages\<close>: \<open>message_formats.h\<close> and the \<open>make_*\<close> functions. Every message is framed: its length field
    counts itself and the data.
  \<^item> \<open>Backend_Readers\<close>: the readers of server messages. They read back what the \<open>make_*\<close> functions build; the
    locale \<open>wire_codec\<close> states the round trip once and is interpreted for each message.
  \<^item> \<open>Session_IO\<close>: \<open>read_bytes\<close>, \<open>read_message\<close>, \<open>send_bytes\<close>, \<open>send_message\<close> over a list of network events, which
    splits the stream anywhere and may interrupt or close it. A message that is sent is delivered whole.
  \<^item> \<open>Wire_Readers\<close> and \<open>Bind_Reader\<close>: the readers of client messages. A reader accepts a message exactly if it
    has the form the protocol prescribes, never leaves its allocation where it is safe, and otherwise returns
    the error of the table; \<open>frontend_reader\<close> is their contract.

  \<^bold>\<open>Sessions (\<open>src/rocto\<close>, \<open>rocto.c\<close>, \<open>run_query.c\<close>).\<close> An action is a function of the session state that returns, stops with a
  reason, or is undefined. YottaDB is a record of functions (\<open>Ydb_Database\<close>) with the laws its documentation promises;
  a database of lists satisfies them. The hash function and the generated parser are parameters as well.
  \<^item> \<open>Session_Startup\<close>, \<open>Password_Check\<close>: the startup message and the MD5 exchange.
  \<^item> \<open>Bind_Parameters\<close>: the text of a bound statement.
  \<^item> \<open>M_Text\<close>: quoting for M, \<open>LIKE\<close> patterns, the report of a syntax error, and names of routines. Quoting is
    undone by unquoting where the memory suffices.
  \<^item> \<open>Rocto_Session\<close>: the session record, \<open>octo_log\<close>, sending, and the database calls with their error check.
  \<^item> \<open>Schema_Store\<close>: \<open>CREATE TABLE\<close>, \<open>DROP TABLE\<close> and \<open>find_table\<close>. A table that was stored is found, in the database
    and in the cache, until it is dropped.
  \<^item> \<open>Query_Runner\<close>, \<open>Query_Results\<close>: \<open>run_query\<close> with its response callback, and which messages a result is sent as.
  \<^item> \<open>Rocto_Handlers\<close>, \<open>Rocto_Server\<close>: the handlers of the messages, \<open>rocto_main_loop\<close>, and what \<open>main\<close> runs for a
    connection: TLS request, startup message, authentication, session parameters, main loop.
  \<^item> \<open>Session_Frame\<close>: handlers leave the unread bytes and the identity of the session alone and only add to the bytes
    that were sent. \<open>Server_Properties\<close> concludes that the main loop refines a server that is handed whole
    messages one after the other, and that prepared statements are stored, bound and executed.
  \<^item> \<open>Login_Properties\<close>: without TLS, a connection changes the database only after the right answer to its challenge,
    and a client that knows the password is let in.

  \<^bold>\<open>Memory.\<close> \<open>Double_List\<close> has the circular lists of \<open>double_list.h\<close> on a heap of pointers, and shows that
  insertion keeps a ring. \<open>Memory_Chunk\<close> is the arena of \<open>memory_chunk.c\<close> with 64-bit offsets: allocated regions are
  disjoint and stay inside their chunks (locale \<open>arena\<close>), and freeing ends after every chunk was freed once.

  \<^bold>\<open>Logical planner (\<open>src/optimization_transforms\<close>).\<close> A plan is a tree (\<open>LogicalPlan\<close> in \<open>Plan_Types\<close>); keys, which
  several nodes share and functions change in place, live in a store (\<open>plan_state\<close>), with the counter of unique
  numbers. \<open>None\<close> is a failed assertion or a null pointer that is followed.
  \<^item> \<open>Logical_Plan\<close>: the accessors \<open>lp_get_*\<close>, \<open>lp_insert_key\<close>, \<open>lp_join_plans\<close>, \<open>lp_copy_plan\<close>. The locales
    \<open>plan_part\<close> and \<open>separate_parts\<close> state what changing one part of a plan keeps of the others.
  \<^item> \<open>Plan_Keys\<close>: key columns of a table, the search for the key of a column, and the replacement of
    references to derived tables.
  \<^item> \<open>Plan_Normal_Form\<close>: \<open>lp_apply_not\<close> and \<open>lp_make_normal_disjunctive_form\<close>, which return, keep the truth value and
    give terms without \<open>OR\<close>.
  \<^item> \<open>Plan_Structure\<close>: \<open>lp_verify_structure\<close> and what a plan it accepts guarantees to the accessors.
  \<^item> \<open>Plan_Optimizer\<close>: \<open>optimize_logical_plan\<close> with everything it calls.

  \<^bold>\<open>Fuel.\<close> The loops of the transport run over the list of network events, the walk of \<open>dq_search\<close> and
  \<open>octo_cfree\<close> over pointers are \<open>partial_function\<close>s whose termination is a theorem. \<open>optimize_logical_plan\<close> calls
  itself on plans it has just built, so it has two fuel arguments, and \<open>Failed ()\<close> says that they were used up. The loops of the
  server over subscripts and over the statements of a query have the bound \<open>query_bound\<close> of the configuration, any
  number; reaching it is the stop \<open>Stop_looping\<close>, which the theorems about answers exclude.

  \<^bold>\<open>Abstractions.\<close> A message that cannot be sent is logged, but the copy of that log message for the client is not sent
  again. The byte behind \<open>routine_name\<close>, which \<open>generate_routine_name\<close> overwrites, is taken to be unused in \<open>run_query\<close>. The
  memory that holds loaded tables is a list of tables. \<open>parse_line\<close> is modelled for a line that is in the input
  buffer already, as it is with every caller in the server.

  \<^bold>\<open>Not modelled.\<close> The grammar and the lexer (\<open>parser.y\<close>, \<open>lexer.l\<close>); the syntax tree of \<open>SELECT\<close> with name resolution
  (\<open>qualify_*.c\<close>), its copies and its binary image (\<open>compress_statement.c\<close>, \<open>decompress_statement.c\<close>, which are
  parameters) and its translation to a plan (\<open>generate_logical_plan.c\<close>); the physical planner and the templates that
  print M code; the M routines of \<open>aux\<close>; the readline front end and configuration files; the process of \<open>rocto\<close> that
  listens and forks; the TLS library; the output of \<open>octo_log\<close> on standard error.
\<close>

end
